theory Spec2Isabelle
  imports Complex_Main
begin

section \<open>Numbers and vectors\<close>

text \<open>
  The scripts compute with JavaScript numbers. They are read here as real numbers:
  \<open>Math.round\<close> is \<open>round\<close> (halves go up), \<open>Math.ceil\<close> is \<open>ceiling\<close>,
  \<open>Math.pow\<close> on a positive base is \<open>powr\<close>. Rounding errors, infinities and NaN of
  the double format are outside this reading; it serves for the shape of what the scripts
  build (control points, segments, tasks). What depends on the rounding, the exact value of
  a sample and the number of samples, is stated on the sampler in binary64 further down.

  \<open>Vec3\<close> is the engine's vector class; the operations below are the ones the scripts
  call on it (\<open>sub\<close>, \<open>add\<close>, \<open>mulScalar\<close>, \<open>lengthSq\<close>, \<open>distance\<close>, \<open>normalize\<close>,
  \<open>lerp\<close>). Vectors are values here, so \<open>clone\<close> is the identity.
\<close>

datatype vec3 = Vec3 (vx: real) (vy: real) (vz: real)

definition vsub :: "vec3 \<Rightarrow> vec3 \<Rightarrow> vec3" where
  "vsub a b = Vec3 (vx a - vx b) (vy a - vy b) (vz a - vz b)"

definition vadd :: "vec3 \<Rightarrow> vec3 \<Rightarrow> vec3" where
  "vadd a b = Vec3 (vx a + vx b) (vy a + vy b) (vz a + vz b)"

definition mulScalar :: "vec3 \<Rightarrow> real \<Rightarrow> vec3" where
  "mulScalar v s = Vec3 (vx v * s) (vy v * s) (vz v * s)"

definition lengthSq :: "vec3 \<Rightarrow> real" where
  "lengthSq v = vx v * vx v + vy v * vy v + vz v * vz v"

definition vdistance :: "vec3 \<Rightarrow> vec3 \<Rightarrow> real" where
  "vdistance a b = sqrt (lengthSq (vsub a b))"

definition normalize :: "vec3 \<Rightarrow> vec3" where
  "normalize v = (if 0 < lengthSq v then mulScalar v (1 / sqrt (lengthSq v)) else v)"

definition vlerp :: "vec3 \<Rightarrow> vec3 \<Rightarrow> real \<Rightarrow> vec3" where
  "vlerp a b t = Vec3 (vx a + t * (vx b - vx a)) (vy a + t * (vy b - vy a))
                      (vz a + t * (vz b - vz a))"

section \<open>Spline sampler (WaypointPathBuilder)\<close>

definition EPSILON :: real where
  "EPSILON = 1 / 1000000"

fun chainLength :: "vec3 list \<Rightarrow> real" where
  "chainLength (p # q # rest) = vdistance q p + chainLength (q # rest)"
| "chainLength _ = 0"

definition getT :: "real \<Rightarrow> vec3 \<Rightarrow> vec3 \<Rightarrow> real \<Rightarrow> real" where
  "getT ti p q alpha = ti + (max (vdistance p q) (1 / 10000)) powr alpha"

definition lerpVec3 :: "vec3 \<Rightarrow> vec3 \<Rightarrow> real \<Rightarrow> vec3" where
  "lerpVec3 a b t = vlerp a b (min (max t 0) 1)"

definition safeDivide :: "real \<Rightarrow> real \<Rightarrow> real" where
  "safeDivide numerator divisor = (if \<bar>divisor\<bar> < EPSILON then 0 else numerator / divisor)"

definition extrapolate :: "vec3 \<Rightarrow> vec3 \<Rightarrow> real \<Rightarrow> vec3" where
  "extrapolate point reference lengthFactor =
     (let dir0 = vsub point reference;
          dir = (if lengthSq dir0 < EPSILON then Vec3 0 0 1 else dir0)
      in vadd point (mulScalar (normalize dir) lengthFactor))"

definition catmullRom :: "vec3 \<Rightarrow> vec3 \<Rightarrow> vec3 \<Rightarrow> vec3 \<Rightarrow> real \<Rightarrow> real \<Rightarrow> vec3" where
  "catmullRom p0 p1 p2 p3 t alpha =
     (let t0 = 0;
          t1 = getT t0 p0 p1 alpha;
          t2 = getT t1 p1 p2 alpha;
          t3 = getT t2 p2 p3 alpha;
          tt = t1 + (t2 - t1) * t;
          A1 = lerpVec3 p0 p1 (safeDivide (tt - t0) (t1 - t0));
          A2 = lerpVec3 p1 p2 (safeDivide (tt - t1) (t2 - t1));
          A3 = lerpVec3 p2 p3 (safeDivide (tt - t2) (t3 - t2));
          B1 = lerpVec3 A1 A2 (safeDivide (tt - t0) (t2 - t0));
          B2 = lerpVec3 A2 A3 (safeDivide (tt - t1) (t3 - t1))
      in lerpVec3 B1 B2 (safeDivide (tt - t1) (t2 - t1)))"

text \<open>
  The parts of \<open>_sampleCurve\<close>, in the order of the source: the lengths of the hops of the
  chain, the chain with one control point added at each end (the neighbour waypoint when
  there is one, an extrapolated point otherwise), the number of steps of hop \<open>i\<close> and its
  samples at \<open>t = j / steps\<close>. The chain's last point closes the list.
\<close>

definition segmentLengths :: "vec3 list \<Rightarrow> real list" where
  "segmentLengths points =
     map (\<lambda>i. vdistance (points ! i) (points ! (i - 1))) [1..<length points]"

definition totalLength :: "vec3 list \<Rightarrow> real" where
  "totalLength points = (if chainLength points = 0 then 1 else chainLength points)"

definition startExtra :: "vec3 list \<Rightarrow> vec3 option \<Rightarrow> vec3" where
  "startExtra points prevPoint =
     (case prevPoint of
        Some p \<Rightarrow> p
      | None \<Rightarrow> extrapolate (points ! 0)
                  (if 1 < length points then points ! 1 else points ! 0) (- 2))"

definition endExtra :: "vec3 list \<Rightarrow> vec3 option \<Rightarrow> vec3" where
  "endExtra points nextPoint =
     (case nextPoint of
        Some p \<Rightarrow> p
      | None \<Rightarrow> extrapolate (points ! (length points - 1))
                  (if 2 \<le> length points then points ! (length points - 2)
                   else points ! (length points - 1)) 2)"

definition extended :: "vec3 list \<Rightarrow> vec3 option \<Rightarrow> vec3 option \<Rightarrow> vec3 list" where
  "extended points prevPoint nextPoint =
     startExtra points prevPoint # points @ [endExtra points nextPoint]"

definition steps :: "vec3 list \<Rightarrow> real \<Rightarrow> nat \<Rightarrow> int" where
  "steps points sampleCount i =
     max 4 (round (sampleCount * (segmentLengths points ! i / totalLength points)))"

definition hopSamples ::
  "vec3 list \<Rightarrow> vec3 option \<Rightarrow> vec3 option \<Rightarrow> real \<Rightarrow> real \<Rightarrow> nat \<Rightarrow> vec3 list" where
  "hopSamples points prevPoint nextPoint sampleCount alpha i =
     (let ext = extended points prevPoint nextPoint;
          p0 = ext ! i; p1 = ext ! (i + 1); p2 = ext ! (i + 2); p3 = ext ! (i + 3);
          n = steps points sampleCount i
      in map (\<lambda>j. catmullRom p0 p1 p2 p3 (real j / real_of_int n) alpha) [0..<nat n])"

definition sampleCurve ::
  "vec3 list \<Rightarrow> vec3 option \<Rightarrow> vec3 option \<Rightarrow> real \<Rightarrow> real \<Rightarrow> vec3 list" where
  "sampleCurve points prevPoint nextPoint sampleCount alpha =
     (if length points < 2 then points
      else concat (map (hopSamples points prevPoint nextPoint sampleCount alpha)
                       [0..<length points - 1])
           @ [points ! (length points - 1)])"

text \<open>
  \<open>buildPath\<close> samples one segment with a budget that grows with the length of its
  chain: \<open>Math.max(minSamples, Math.ceil(distance * sampleDensity))\<close>.
\<close>

definition sampleBudget :: "real \<Rightarrow> real \<Rightarrow> vec3 list \<Rightarrow> real" where
  "sampleBudget minSamples sampleDensity points =
     max minSamples (real_of_int \<lceil>chainLength points * sampleDensity\<rceil>)"

definition segmentSamples ::
  "real \<Rightarrow> real \<Rightarrow> real \<Rightarrow> vec3 list \<Rightarrow> vec3 option \<Rightarrow> vec3 option \<Rightarrow> vec3 list" where
  "segmentSamples minSamples sampleDensity alpha points prevPoint nextPoint =
     sampleCurve points prevPoint nextPoint (sampleBudget minSamples sampleDensity points) alpha"

section \<open>Binary64 arithmetic\<close>

text \<open>
  A JavaScript number is a double of IEEE 754 (binary64), and every \<open>+\<close>, \<open>-\<close>, \<open>*\<close>,
  \<open>/\<close> and \<open>Math.sqrt\<close> gives the double nearest to the exact result, ties to the even
  significand. Where a claim is about the exact value of a sample or about a count that
  depends on a rounded product, the arithmetic is modelled as it is.

  \<open>rne\<close> rounds a real number to the nearest integer, ties to even. \<open>expo x\<close> is the
  exponent of the binade of \<open>x\<close>, not below \<open>-1022\<close>, where the subnormal numbers begin;
  \<open>quantum x\<close> is the distance between neighbouring doubles there (52 fraction bits), and
  \<open>rd x\<close> is the multiple of the quantum nearest to \<open>x\<close>: the rounded value while it is
  below \<open>2 ^ 1024\<close>.
\<close>

definition rne :: "real \<Rightarrow> int" where
  "rne y = (let f = \<lfloor>y\<rfloor>
            in if y - of_int f < 1 / 2 then f
               else if 1 / 2 < y - of_int f then f + 1
               else if even f then f else f + 1)"

definition expo :: "real \<Rightarrow> int" where
  "expo x = max \<lfloor>log 2 \<bar>x\<bar>\<rfloor> (- 1022)"

definition quantum :: "real \<Rightarrow> real" where
  "quantum x = 2 powi (expo x - 52)"

definition rd :: "real \<Rightarrow> real" where
  "rd x = (if x = 0 then 0 else of_int (rne (x / quantum x)) * quantum x)"

text \<open>
  A number of the scripts: a finite double with its real value (the sign of a zero is not
  kept), an infinity, or NaN. \<open>rnd\<close> is the rounding of an exact result: what rounds to
  \<open>2 ^ 1024\<close> or beyond overflows to the infinity of its sign.
\<close>

datatype double = Fin real | PInf | NInf | NaN

definition rnd :: "real \<Rightarrow> double" where
  "rnd x = (if 2 ^ 1024 \<le> \<bar>rd x\<bar> then (if 0 < x then PInf else NInf) else Fin (rd x))"

text \<open>
  The operators of the scripts on numbers: on finite operands the exact result, rounded; on
  the others the rules of IEEE 754 that JavaScript follows. The comparisons are false as soon
  as one operand is NaN.
\<close>

instantiation double :: "{plus, uminus, minus, times, inverse, abs, ord}"
begin

fun plus_double :: "double \<Rightarrow> double \<Rightarrow> double" where
  "Fin x + Fin y = rnd (x + y)"
| "NaN + b = NaN"
| "a + NaN = NaN"
| "PInf + NInf = NaN"
| "NInf + PInf = NaN"
| "PInf + b = PInf"
| "a + PInf = PInf"
| "NInf + b = NInf"
| "a + NInf = NInf"

fun uminus_double :: "double \<Rightarrow> double" where
  "- Fin x = Fin (- x)"
| "- PInf = NInf"
| "- NInf = PInf"
| "- NaN = NaN"

definition minus_double :: "double \<Rightarrow> double \<Rightarrow> double" where
  "a - b = a + (- b)" for a b :: double

fun times_double :: "double \<Rightarrow> double \<Rightarrow> double" where
  "Fin x * Fin y = rnd (x * y)"
| "NaN * b = NaN"
| "a * NaN = NaN"
| "PInf * Fin y = (if y = 0 then NaN else if 0 < y then PInf else NInf)"
| "NInf * Fin y = (if y = 0 then NaN else if 0 < y then NInf else PInf)"
| "Fin x * PInf = (if x = 0 then NaN else if 0 < x then PInf else NInf)"
| "Fin x * NInf = (if x = 0 then NaN else if 0 < x then NInf else PInf)"
| "PInf * PInf = PInf"
| "PInf * NInf = NInf"
| "NInf * PInf = NInf"
| "NInf * NInf = PInf"

fun divide_double :: "double \<Rightarrow> double \<Rightarrow> double" where
  "divide_double (Fin x) (Fin y) =
     (if y = 0 then (if x = 0 then NaN else if 0 < x then PInf else NInf) else rnd (x / y))"
| "divide_double NaN b = NaN"
| "divide_double a NaN = NaN"
| "divide_double (Fin x) PInf = Fin 0"
| "divide_double (Fin x) NInf = Fin 0"
| "divide_double PInf (Fin y) = (if 0 \<le> y then PInf else NInf)"
| "divide_double NInf (Fin y) = (if 0 \<le> y then NInf else PInf)"
| "divide_double PInf b = NaN"
| "divide_double NInf b = NaN"

definition inverse_double :: "double \<Rightarrow> double" where
  "inverse_double a = divide (Fin 1) a"

fun abs_double :: "double \<Rightarrow> double" where
  "\<bar>Fin x\<bar> = Fin \<bar>x\<bar>"
| "\<bar>PInf\<bar> = PInf"
| "\<bar>NInf\<bar> = PInf"
| "\<bar>NaN\<bar> = NaN"

fun less_double :: "double \<Rightarrow> double \<Rightarrow> bool" where
  "Fin x < Fin y \<longleftrightarrow> x < y"
| "NaN < b \<longleftrightarrow> False"
| "a < NaN \<longleftrightarrow> False"
| "a < NInf \<longleftrightarrow> False"
| "PInf < b \<longleftrightarrow> False"
| "NInf < b \<longleftrightarrow> True"
| "a < PInf \<longleftrightarrow> True"

fun less_eq_double :: "double \<Rightarrow> double \<Rightarrow> bool" where
  "Fin x \<le> Fin y \<longleftrightarrow> x \<le> y"
| "NaN \<le> b \<longleftrightarrow> False"
| "a \<le> NaN \<longleftrightarrow> False"
| "NInf \<le> b \<longleftrightarrow> True"
| "a \<le> PInf \<longleftrightarrow> True"
| "a \<le> NInf \<longleftrightarrow> False"
| "PInf \<le> b \<longleftrightarrow> False"

instance ..

end

text \<open>
  The \<open>Math\<close> functions the sampler calls. \<open>Math.max\<close> and \<open>Math.min\<close> answer NaN when
  an argument is NaN; \<open>Math.round\<close> rounds halves up and \<open>Math.ceil\<close> rounds up, both
  without error and both the identity on infinities and NaN; \<open>Math.sqrt\<close> is correctly
  rounded. \<open>Math.pow\<close> is implementation-approximated in ECMAScript except for the cases
  the standard fixes: a NaN exponent gives NaN and a zero exponent gives 1. So \<open>Math_pow\<close>
  takes the function \<open>pw\<close> that the engine uses in all other cases as a parameter, and what
  is proved below holds for every \<open>pw\<close>.
\<close>

definition Math_max :: "double \<Rightarrow> double \<Rightarrow> double" where
  "Math_max a b = (if a = NaN \<or> b = NaN then NaN else if a < b then b else a)"

definition Math_min :: "double \<Rightarrow> double \<Rightarrow> double" where
  "Math_min a b = (if a = NaN \<or> b = NaN then NaN else if b < a then b else a)"

fun Math_round :: "double \<Rightarrow> double" where
  "Math_round (Fin x) = Fin (of_int (round x))"
| "Math_round a = a"

fun Math_ceil :: "double \<Rightarrow> double" where
  "Math_ceil (Fin x) = Fin (of_int \<lceil>x\<rceil>)"
| "Math_ceil a = a"

fun Math_sqrt :: "double \<Rightarrow> double" where
  "Math_sqrt (Fin x) = (if x < 0 then NaN else rnd (sqrt x))"
| "Math_sqrt PInf = PInf"
| "Math_sqrt a = NaN"

definition Math_pow :: "(double \<Rightarrow> double \<Rightarrow> double) \<Rightarrow> double \<Rightarrow> double \<Rightarrow> double" where
  "Math_pow pw b e = (if e = NaN then NaN else if e = Fin 0 then Fin 1 else pw b e)"

section \<open>The spline sampler in binary64\<close>

text \<open>
  \<open>Vec3\<close> with double coordinates, and the operations of the engine class that the sampler
  calls, each with the operations in the order in which the engine does them:
  \<open>distance\<close> takes the square root of \<open>x * x + y * y + z * z\<close> of the coordinate
  differences, \<open>normalize\<close> multiplies by \<open>1 / Math.sqrt(lengthSq)\<close> when \<open>lengthSq\<close> is
  positive, \<open>lerp\<close> computes \<open>lhs + alpha * (rhs - lhs)\<close> in each coordinate.
\<close>

datatype vec64 = Vec64 (x64: double) (y64: double) (z64: double)

definition sub64 :: "vec64 \<Rightarrow> vec64 \<Rightarrow> vec64" where
  "sub64 a b = Vec64 (x64 a - x64 b) (y64 a - y64 b) (z64 a - z64 b)"

definition add64 :: "vec64 \<Rightarrow> vec64 \<Rightarrow> vec64" where
  "add64 a b = Vec64 (x64 a + x64 b) (y64 a + y64 b) (z64 a + z64 b)"

definition mulScalar64 :: "vec64 \<Rightarrow> double \<Rightarrow> vec64" where
  "mulScalar64 v scalar = Vec64 (x64 v * scalar) (y64 v * scalar) (z64 v * scalar)"

definition lengthSq64 :: "vec64 \<Rightarrow> double" where
  "lengthSq64 v = x64 v * x64 v + y64 v * y64 v + z64 v * z64 v"

definition distance64 :: "vec64 \<Rightarrow> vec64 \<Rightarrow> double" where
  "distance64 a b =
     (let x = x64 a - x64 b; y = y64 a - y64 b; z = z64 a - z64 b
      in Math_sqrt (x * x + y * y + z * z))"

definition normalize64 :: "vec64 \<Rightarrow> vec64" where
  "normalize64 v =
     (let lenSq = x64 v * x64 v + y64 v * y64 v + z64 v * z64 v
      in if Fin 0 < lenSq
         then let invLength = Fin 1 / Math_sqrt lenSq
              in Vec64 (x64 v * invLength) (y64 v * invLength) (z64 v * invLength)
         else v)"

definition lerp64 :: "vec64 \<Rightarrow> vec64 \<Rightarrow> double \<Rightarrow> vec64" where
  "lerp64 lhs rhs alpha =
     Vec64 (x64 lhs + alpha * (x64 rhs - x64 lhs))
           (y64 lhs + alpha * (y64 rhs - y64 lhs))
           (z64 lhs + alpha * (z64 rhs - z64 lhs))"

text \<open>
  \<open>WaypointPathBuilder\<close> (and the same functions of the curved \<open>CameraWaypointPath\<close>), in
  the order of the source. The constants \<open>1e-6\<close> and \<open>1e-4\<close> are the doubles nearest to
  these decimals. \<open>_chainLength\<close> adds the hop lengths from the left, starting at 0.
\<close>

definition EPSILON64 :: double where
  "EPSILON64 = rnd (1 / 1000000)"

definition chainLength64 :: "vec64 list \<Rightarrow> double" where
  "chainLength64 points =
     foldl (\<lambda>distance i. distance + distance64 (points ! i) (points ! (i - 1))) (Fin 0)
       [1..<length points]"

definition getT64 ::
  "(double \<Rightarrow> double \<Rightarrow> double) \<Rightarrow> double \<Rightarrow> vec64 \<Rightarrow> vec64 \<Rightarrow> double \<Rightarrow> double" where
  "getT64 pw ti p q alpha =
     ti + Math_pow pw (Math_max (distance64 p q) (rnd (1 / 10000))) alpha"

definition lerpVec364 :: "vec64 \<Rightarrow> vec64 \<Rightarrow> double \<Rightarrow> vec64" where
  "lerpVec364 a b t = lerp64 a b (Math_min (Math_max t (Fin 0)) (Fin 1))"

definition safeDivide64 :: "double \<Rightarrow> double \<Rightarrow> double" where
  "safeDivide64 numerator divisor =
     (if \<bar>divisor\<bar> < EPSILON64 then Fin 0 else numerator / divisor)"

definition extrapolate64 :: "vec64 \<Rightarrow> vec64 \<Rightarrow> double \<Rightarrow> vec64" where
  "extrapolate64 point reference lengthFactor =
     (let dir = sub64 point reference;
          dir1 = (if lengthSq64 dir < EPSILON64 then Vec64 (Fin 0) (Fin 0) (Fin 1) else dir)
      in add64 point (mulScalar64 (normalize64 dir1) lengthFactor))"

definition catmullRom64 ::
  "(double \<Rightarrow> double \<Rightarrow> double) \<Rightarrow> vec64 \<Rightarrow> vec64 \<Rightarrow> vec64 \<Rightarrow> vec64 \<Rightarrow> double \<Rightarrow> double \<Rightarrow> vec64" where
  "catmullRom64 pw p0 p1 p2 p3 t alpha =
     (let t0 = Fin 0;
          t1 = getT64 pw t0 p0 p1 alpha;
          t2 = getT64 pw t1 p1 p2 alpha;
          t3 = getT64 pw t2 p2 p3 alpha;
          tt = t1 + (t2 - t1) * t;
          A1 = lerpVec364 p0 p1 (safeDivide64 (tt - t0) (t1 - t0));
          A2 = lerpVec364 p1 p2 (safeDivide64 (tt - t1) (t2 - t1));
          A3 = lerpVec364 p2 p3 (safeDivide64 (tt - t2) (t3 - t2));
          B1 = lerpVec364 A1 A2 (safeDivide64 (tt - t0) (t2 - t0));
          B2 = lerpVec364 A2 A3 (safeDivide64 (tt - t1) (t3 - t1))
      in lerpVec364 B1 B2 (safeDivide64 (tt - t1) (t2 - t1)))"

text \<open>
  The parts of \<open>_sampleCurve\<close>. \<open>this._chainLength(points) || 1\<close> is 1 when the length is 0
  or NaN. \<open>steps\<close> can be NaN or infinite (when the ratio or the budget is), so the number of
  passes of \<open>for (let j = 0; j < steps; j++)\<close> is given by \<open>iterations\<close>: the least integer
  not below a finite \<open>steps\<close>, none when \<open>steps\<close> is NaN or \<open>-Infinity\<close>, since the
  comparison is false at once, and no end, \<open>None\<close>, for \<open>Infinity\<close> and for \<open>steps\<close> above
  \<open>2 ^ 53\<close>, where \<open>j++\<close> stops growing. \<open>sampleCurve64\<close> is \<open>None\<close> when a loop has no
  end or the list of samples would pass the greatest length of an array, \<open>2 ^ 32 - 1\<close>.
\<close>

definition segmentLengths64 :: "vec64 list \<Rightarrow> double list" where
  "segmentLengths64 points =
     map (\<lambda>i. distance64 (points ! i) (points ! (i - 1))) [1..<length points]"

definition totalLength64 :: "vec64 list \<Rightarrow> double" where
  "totalLength64 points =
     (let c = chainLength64 points in if c = Fin 0 \<or> c = NaN then Fin 1 else c)"

definition startExtra64 :: "vec64 list \<Rightarrow> vec64 option \<Rightarrow> vec64" where
  "startExtra64 points prevPoint =
     (case prevPoint of
        Some p \<Rightarrow> p
      | None \<Rightarrow> extrapolate64 (points ! 0)
                  (if 1 < length points then points ! 1 else points ! 0) (Fin (- 2)))"

definition endExtra64 :: "vec64 list \<Rightarrow> vec64 option \<Rightarrow> vec64" where
  "endExtra64 points nextPoint =
     (case nextPoint of
        Some p \<Rightarrow> p
      | None \<Rightarrow> extrapolate64 (points ! (length points - 1))
                  (if 2 \<le> length points then points ! (length points - 2)
                   else points ! (length points - 1)) (Fin 2))"

definition extended64 :: "vec64 list \<Rightarrow> vec64 option \<Rightarrow> vec64 option \<Rightarrow> vec64 list" where
  "extended64 points prevPoint nextPoint =
     startExtra64 points prevPoint # points @ [endExtra64 points nextPoint]"

definition steps64 :: "vec64 list \<Rightarrow> double \<Rightarrow> nat \<Rightarrow> double" where
  "steps64 points sampleCount i =
     Math_max (Fin 4)
       (Math_round (sampleCount * (segmentLengths64 points ! i / totalLength64 points)))"

definition iterations :: "double \<Rightarrow> nat option" where
  "iterations bound =
     (case bound of
        Fin s \<Rightarrow> if s \<le> 2 ^ 53 then Some (nat \<lceil>s\<rceil>) else None
      | PInf \<Rightarrow> None
      | _ \<Rightarrow> Some 0)"

definition hopSamples64 ::
  "(double \<Rightarrow> double \<Rightarrow> double) \<Rightarrow> vec64 list \<Rightarrow> vec64 option \<Rightarrow> vec64 option \<Rightarrow> double \<Rightarrow> double
     \<Rightarrow> nat \<Rightarrow> vec64 list option" where
  "hopSamples64 pw points prevPoint nextPoint sampleCount alpha i =
     (let ext = extended64 points prevPoint nextPoint;
          p0 = ext ! i; p1 = ext ! (i + 1); p2 = ext ! (i + 2); p3 = ext ! (i + 3);
          n = steps64 points sampleCount i
      in map_option
           (map (\<lambda>j. catmullRom64 pw p0 p1 p2 p3 (Fin (real j) / n) alpha) \<circ> upt 0)
           (iterations n))"

fun allHops :: "'a list option list \<Rightarrow> 'a list option" where
  "allHops [] = Some []"
| "allHops (None # rest) = None"
| "allHops (Some samples # rest) = map_option ((@) samples) (allHops rest)"

definition sampleCurve64 ::
  "(double \<Rightarrow> double \<Rightarrow> double) \<Rightarrow> vec64 list \<Rightarrow> vec64 option \<Rightarrow> vec64 option \<Rightarrow> double \<Rightarrow> double
     \<Rightarrow> vec64 list option" where
  "sampleCurve64 pw points prevPoint nextPoint sampleCount alpha =
     (if length points < 2 then Some points
      else case allHops (map (hopSamples64 pw points prevPoint nextPoint sampleCount alpha)
                             [0..<length points - 1]) of
             None \<Rightarrow> None
           | Some samples \<Rightarrow>
               if length samples < 2 ^ 32 - 1
               then Some (samples @ [points ! (length points - 1)]) else None)"

text \<open>
  \<open>buildPath\<close> samples the chain of a segment with the budget
  \<open>Math.max(this.minSamples, Math.ceil(distance * this.sampleDensity))\<close>; \<open>sampleCount64\<close>
  is the number of samples it gets.
\<close>

definition sampleBudget64 :: "double \<Rightarrow> double \<Rightarrow> vec64 list \<Rightarrow> double" where
  "sampleBudget64 minSamples sampleDensity points =
     Math_max minSamples (Math_ceil (chainLength64 points * sampleDensity))"

definition segmentSamples64 ::
  "(double \<Rightarrow> double \<Rightarrow> double) \<Rightarrow> double \<Rightarrow> double \<Rightarrow> double \<Rightarrow> vec64 list \<Rightarrow> vec64 option
     \<Rightarrow> vec64 option \<Rightarrow> vec64 list option" where
  "segmentSamples64 pw minSamples sampleDensity alpha points prevPoint nextPoint =
     sampleCurve64 pw points prevPoint nextPoint (sampleBudget64 minSamples sampleDensity points)
       alpha"

definition sampleCount64 ::
  "(double \<Rightarrow> double \<Rightarrow> double) \<Rightarrow> double \<Rightarrow> double \<Rightarrow> double \<Rightarrow> vec64 list \<Rightarrow> vec64 option
     \<Rightarrow> vec64 option \<Rightarrow> nat option" where
  "sampleCount64 pw minSamples sampleDensity alpha points prevPoint nextPoint =
     map_option length
       (segmentSamples64 pw minSamples sampleDensity alpha points prevPoint nextPoint)"

text \<open>The sum of the numbers of passes of the hops, none as soon as one loop has no end.\<close>

fun sumCounts :: "nat option list \<Rightarrow> nat option" where
  "sumCounts [] = Some 0"
| "sumCounts (None # rest) = None"
| "sumCounts (Some k # rest) = map_option ((+) k) (sumCounts rest)"

text \<open>
  One possible \<open>Math.pow\<close>, the correctly rounded power of a positive base, for the
  statements about concrete runs; these take the exponent 0, where \<open>Math.pow\<close> is 1
  whatever the engine. \<open>scaleChain64\<close> scales every point of a chain with \<open>mulScalar\<close>.
\<close>

definition roundedPow :: "double \<Rightarrow> double \<Rightarrow> double" where
  "roundedPow b e =
     (case (b, e) of
        (Fin x, Fin y) \<Rightarrow> if 0 < x then rnd (x powr y) else NaN
      | _ \<Rightarrow> NaN)"

definition scaleChain64 :: "double \<Rightarrow> vec64 list \<Rightarrow> vec64 list" where
  "scaleChain64 c ps = map (\<lambda>p. mulScalar64 p c) ps"















section \<open>Segmenter (\<open>_buildSegments\<close>)\<close>

text \<open>
  Indices are integers: \<open>length - 1\<close> is \<open>-1\<close> on an empty list. A JavaScript \<open>Set\<close>
  keeps its members in the order of their first insertion; it is a list without repetition
  here, sorted afterwards with the numeric comparator. \<open>pauses[i] ?? 0\<close> reads \<open>0\<close>
  beyond the end of \<open>pauses\<close>.
\<close>

record segment =
  seg_start :: int
  seg_end :: int
  seg_prevPoint :: "vec3 option"
  seg_nextPoint :: "vec3 option"

definition pauseAt :: "real list \<Rightarrow> nat \<Rightarrow> real" where
  "pauseAt pauses i = (if i < length pauses then pauses ! i else 0)"

definition setAdd :: "int list \<Rightarrow> int \<Rightarrow> int list" where
  "setAdd stops x = (if x \<in> set stops then stops else stops @ [x])"

definition stopSet :: "vec3 list \<Rightarrow> real list \<Rightarrow> int list" where
  "stopSet positions pauses =
     foldl (\<lambda>stops i. if 0 < pauseAt pauses i then setAdd stops (int i) else stops)
           (setAdd (setAdd [] 0) (int (length positions) - 1))
           [0..<length positions]"

definition stopIndices :: "vec3 list \<Rightarrow> real list \<Rightarrow> int list" where
  "stopIndices positions pauses = sort (stopSet positions pauses)"

definition makeSegment :: "vec3 list \<Rightarrow> int \<Rightarrow> int \<Rightarrow> segment" where
  "makeSegment positions start end =
     \<lparr> seg_start = start, seg_end = end,
       seg_prevPoint = (if 0 < start then Some (positions ! nat (start - 1)) else None),
       seg_nextPoint = (if end + 1 < int (length positions) then Some (positions ! nat (end + 1))
                        else None) \<rparr>"

definition buildSegments :: "vec3 list \<Rightarrow> real list \<Rightarrow> segment list" where
  "buildSegments positions pauses =
     (let indices = stopIndices positions pauses
      in concat (map (\<lambda>i. let start = indices ! i; end = indices ! (i + 1)
                           in if end \<le> start then [] else [makeSegment positions start end])
                     [0..<length indices - 1]))"

text \<open>\<open>CameraWaypointPath._buildSegments\<close> is the same behind a guard for no waypoints.\<close>

definition buildSegmentsGuarded :: "vec3 list \<Rightarrow> real list \<Rightarrow> segment list" where
  "buildSegmentsGuarded positions pauses =
     (if positions = [] then [] else buildSegments positions pauses)"

text \<open>The stop set as the specification names it.\<close>

definition stopsOf :: "vec3 list \<Rightarrow> real list \<Rightarrow> int set" where
  "stopsOf positions pauses =
     {0, int (length positions) - 1} \<union>
     {int i | i. i < length positions \<and> 0 < pauseAt pauses i}"

section \<open>Waypoint sources (\<open>_parseJson\<close>, \<open>_parseCsv\<close>)\<close>

text \<open>
  A parsed JSON document. \<open>undefined\<close>, the value of a property that is not there, is
  \<open>None\<close>. An object is the list of its properties, each name once.
\<close>

datatype json =
    JNull | JBool bool | JNum real | JStr string | JArr "json list" | JObj "(string \<times> json) list"

fun getProp :: "json \<Rightarrow> string \<Rightarrow> json option" where
  "getProp (JObj kvs) k = map_of kvs k"
| "getProp _ k = None"

text \<open>\<open>row[i]\<close> for \<open>i\<close> from 0 to 2: an element of an array, a character of a string, the
  property named by the digit of an object.\<close>

fun elemAt :: "json \<Rightarrow> nat \<Rightarrow> json option" where
  "elemAt (JArr xs) i = (if i < length xs then Some (xs ! i) else None)"
| "elemAt (JStr s) i = (if i < length s then Some (JStr [s ! i]) else None)"
| "elemAt (JObj kvs) i = map_of kvs [char_of (48 + i)]"
| "elemAt _ i = None"

fun truthy :: "json option \<Rightarrow> bool" where
  "truthy None = False"
| "truthy (Some JNull) = False"
| "truthy (Some (JBool b)) = b"
| "truthy (Some (JNum x)) = (x \<noteq> 0)"
| "truthy (Some (JStr s)) = (s \<noteq> [])"
| "truthy (Some (JArr xs)) = True"
| "truthy (Some (JObj kvs)) = True"

definition orElse :: "json option \<Rightarrow> json option \<Rightarrow> json option" where
  "orElse a b = (if truthy a then a else b)"

definition nullish :: "json option \<Rightarrow> json option \<Rightarrow> json option" where
  "nullish a b = (if a = None \<or> a = Some JNull then b else a)"

text \<open>
  \<open>Number(v)\<close> is the language's own conversion; it is a parameter \<open>num\<close> of the parsers,
  with \<open>None\<close> for NaN. \<open>Number(v) || 0\<close> turns NaN into \<open>0\<close>.
\<close>

definition numberOr0 :: "(json option \<Rightarrow> real option) \<Rightarrow> json option \<Rightarrow> real" where
  "numberOr0 num v = (case num v of None \<Rightarrow> 0 | Some x \<Rightarrow> x)"

text \<open>A vector as the parser makes it: the components are the values the row gave.\<close>

datatype jvec3 = JVec3 json json json

definition hasXYZ :: "json \<Rightarrow> bool" where
  "hasXYZ value \<longleftrightarrow>
     truthy (Some value) \<and> getProp value ''x'' \<noteq> None \<and> getProp value ''y'' \<noteq> None \<and>
     getProp value ''z'' \<noteq> None"

definition xyzOf :: "json \<Rightarrow> jvec3" where
  "xyzOf value =
     JVec3 (the (getProp value ''x'')) (the (getProp value ''y'')) (the (getProp value ''z''))"

definition toVec3 :: "(json option \<Rightarrow> real option) \<Rightarrow> json \<Rightarrow> jvec3" where
  "toVec3 num value =
     (if hasXYZ value then xyzOf value
      else
        let arr = (case value of JArr xs \<Rightarrow> value | _ \<Rightarrow> JArr [JNum 0, JNum 0, JNum 0])
        in JVec3 (JNum (numberOr0 num (elemAt arr 0))) (JNum (numberOr0 num (elemAt arr 1)))
                 (JNum (numberOr0 num (elemAt arr 2))))"

text \<open>\<open>CameraWaypointPath._toVec3(value, new Vec3())\<close>: the fallback is the zero vector.\<close>

definition toVec3Fallback :: "json \<Rightarrow> jvec3" where
  "toVec3Fallback value =
     (if hasXYZ value then xyzOf value else JVec3 (JNum 0) (JNum 0) (JNum 0))"

record waypoints =
  wp_positions :: "jvec3 list"
  wp_rotations :: "jvec3 list"
  wp_pauses :: "real list"

text \<open>One pass of the loop of \<open>_parseJson\<close> over the rows, the three arrays threaded through.\<close>

fun jsonRows ::
  "(json \<Rightarrow> jvec3) \<Rightarrow> (json option \<Rightarrow> real option) \<Rightarrow> json list \<Rightarrow> waypoints \<Rightarrow> waypoints" where
  "jsonRows conv num [] w = w"
| "jsonRows conv num (row # rest) w =
     (if \<not> truthy (Some row) then jsonRows conv num rest w
      else
        let pos = orElse (orElse (orElse (getProp row ''position'') (getProp row ''pos''))
                                 (getProp row ''p'')) (elemAt row 0);
            rot = orElse (orElse (orElse (getProp row ''rotation'') (getProp row ''rot''))
                                 (getProp row ''r'')) (elemAt row 1);
            wait = nullish (nullish (nullish (nullish (getProp row ''pause'') (getProp row ''wait''))
                                             (getProp row ''delay'')) (elemAt row 2)) (Some (JNum 0));
            w1 = (if truthy pos then w\<lparr>wp_positions := wp_positions w @ [conv (the pos)]\<rparr> else w);
            w2 = (if truthy rot then w1\<lparr>wp_rotations := wp_rotations w1 @ [conv (the rot)]\<rparr> else w1);
            w3 = w2\<lparr>wp_pauses := wp_pauses w2 @ [numberOr0 num wait]\<rparr>
        in jsonRows conv num rest w3)"

definition noWaypoints :: waypoints where
  "noWaypoints = \<lparr> wp_positions = [], wp_rotations = [], wp_pauses = [] \<rparr>"

text \<open>\<open>WaypointFetcher._parseJson\<close>; \<open>None\<close> is its \<open>null\<close> for a document that is no array.\<close>

definition parseJson :: "(json option \<Rightarrow> real option) \<Rightarrow> json \<Rightarrow> waypoints option" where
  "parseJson num json =
     (case json of JArr rows \<Rightarrow> Some (jsonRows (toVec3 num) num rows noWaypoints) | _ \<Rightarrow> None)"

text \<open>\<open>CameraWaypointPath._parseJson\<close> stores the arrays in the script (\<open>w\<close> before, the result
  after) and leaves them as they were for a document that is no array.\<close>

definition parseJsonStored :: "(json option \<Rightarrow> real option) \<Rightarrow> json \<Rightarrow> waypoints \<Rightarrow> waypoints" where
  "parseJsonStored num json w =
     (case json of JArr rows \<Rightarrow> jsonRows toVec3Fallback num rows noWaypoints | _ \<Rightarrow> w)"

text \<open>
  Text handling of \<open>_parseCsv\<close>: \<open>split(/\r?\n/)\<close>, \<open>trim\<close> (of the white space there is in
  eight-bit characters), \<open>filter(Boolean)\<close> and \<open>split(delimiter)\<close>.
\<close>

fun splitLines :: "string \<Rightarrow> string \<Rightarrow> string list" where
  "splitLines cur [] = [rev cur]"
| "splitLines cur [c] = (if c = CHR 0x0A then [rev cur, []] else [rev (c # cur)])"
| "splitLines cur (c # d # rest) =
     (if c = CHR 0x0D \<and> d = CHR 0x0A then rev cur # splitLines [] rest
      else if c = CHR 0x0A then rev cur # splitLines [] (d # rest)
      else splitLines (c # cur) (d # rest))"

definition isSpace :: "char \<Rightarrow> bool" where
  "isSpace c \<longleftrightarrow> c \<in> {CHR '' '', CHR 0x09, CHR 0x0A, CHR 0x0B, CHR 0x0C, CHR 0x0D}"

definition trim :: "string \<Rightarrow> string" where
  "trim s = rev (dropWhile isSpace (rev (dropWhile isSpace s)))"

fun isPrefix :: "string \<Rightarrow> string \<Rightarrow> bool" where
  "isPrefix [] s = True"
| "isPrefix (d # ds) [] = False"
| "isPrefix (d # ds) (c # cs) = (d = c \<and> isPrefix ds cs)"

text \<open>\<open>skip\<close> counts the characters of a delimiter just found that are still to be passed.\<close>

fun splitOn :: "string \<Rightarrow> nat \<Rightarrow> string \<Rightarrow> string \<Rightarrow> string list" where
  "splitOn delim skip cur [] = [rev cur]"
| "splitOn delim skip cur (c # rest) =
     (if 0 < skip then splitOn delim (skip - 1) cur rest
      else if delim \<noteq> [] \<and> isPrefix delim (c # rest)
           then rev cur # splitOn delim (length delim - 1) [] rest
      else splitOn delim 0 (c # cur) rest)"

definition splitBy :: "string \<Rightarrow> string \<Rightarrow> string list" where
  "splitBy delim s =
     (if delim = [] then map (\<lambda>c. [c]) s else splitOn delim 0 [] s)"

fun csvRows :: "(json option \<Rightarrow> real option) \<Rightarrow> string \<Rightarrow> string list \<Rightarrow> waypoints \<Rightarrow> waypoints" where
  "csvRows num delim [] w = w"
| "csvRows num delim (line # rest) w =
     (let cols = map trim (splitBy delim line)
      in if length cols < 6 then csvRows num delim rest w
         else
           let nums = map (\<lambda>c. num (Some (JStr c))) cols
           in if None \<in> set nums then csvRows num delim rest w
              else csvRows num delim rest
                (w\<lparr> wp_positions := wp_positions w @
                       [JVec3 (JNum (the (nums ! 0))) (JNum (the (nums ! 1))) (JNum (the (nums ! 2)))],
                     wp_rotations := wp_rotations w @
                       [JVec3 (JNum (the (nums ! 3))) (JNum (the (nums ! 4))) (JNum (the (nums ! 5)))],
                     wp_pauses := wp_pauses w @
                       [numberOr0 num (if 6 < length cols then Some (JStr (cols ! 6)) else None)] \<rparr>))"

definition csvLines :: "string \<Rightarrow> string list" where
  "csvLines text = filter (\<lambda>l. l \<noteq> []) (map trim (splitLines [] text))"

definition parseCsv :: "(json option \<Rightarrow> real option) \<Rightarrow> string \<Rightarrow> string \<Rightarrow> waypoints option" where
  "parseCsv num delim text =
     (if csvLines text = [] then None
      else Some (csvRows num delim (csvLines text) noWaypoints))"

text \<open>\<open>CameraWaypointPath._parseCsv\<close> stores the arrays in the script and leaves them as they
  were for a text without lines.\<close>

definition parseCsvStored ::
  "(json option \<Rightarrow> real option) \<Rightarrow> string \<Rightarrow> string \<Rightarrow> waypoints \<Rightarrow> waypoints" where
  "parseCsvStored num delim text w =
     (if csvLines text = [] then w else csvRows num delim (csvLines text) noWaypoints)"

section \<open>Paths, orientations and motion tasks\<close>

text \<open>
  \<open>Quat\<close> is the engine's quaternion class. \<open>FromEuler x y z\<close> stands for the quaternion
  that \<open>setFromEulerAngles(x, y, z)\<close> makes; \<open>new Quat()\<close> is \<open>Quat 0 0 0 1\<close>.
  An entry of a rotations array is a quaternion, a vector of Euler angles, some other
  value that is not falsy, or nothing (\<open>undefined\<close>, also beyond the end of the array).
\<close>

datatype quat = Quat real real real real | FromEuler real real real

datatype rotation = RotQuat quat | RotEuler vec3 | RotOther | RotAbsent

definition rotationAt :: "rotation list \<Rightarrow> int \<Rightarrow> rotation" where
  "rotationAt rotations i =
     (if 0 \<le> i \<and> i < int (length rotations) then rotations ! nat i else RotAbsent)"

definition positionAt :: "vec3 list \<Rightarrow> int \<Rightarrow> vec3 option" where
  "positionAt positions i =
     (if 0 \<le> i \<and> i < int (length positions) then Some (positions ! nat i) else None)"

record built_segment =
  bs_startIndex :: int
  bs_endIndex :: "int option"
  bs_samples :: "vec3 list option"
  bs_distance :: "real option"

text \<open>The payload of \<open>waypoints:loaded\<close> (no segments) and of \<open>path:ready\<close>.\<close>

record path =
  path_segments :: "built_segment list option"
  path_positions :: "vec3 list"
  path_rotations :: "rotation list"
  path_pauses :: "real list"

definition builtSegment :: "real \<Rightarrow> real \<Rightarrow> real \<Rightarrow> vec3 list \<Rightarrow> segment \<Rightarrow> built_segment list" where
  "builtSegment minSamples sampleDensity alpha positions seg =
     (let points = map (\<lambda>idx. positions ! nat idx) [seg_start seg..seg_end seg]
      in if length points < 2 then []
         else [\<lparr> bs_startIndex = seg_start seg, bs_endIndex = Some (seg_end seg),
                 bs_samples = Some (segmentSamples minSamples sampleDensity alpha points
                                      (seg_prevPoint seg) (seg_nextPoint seg)),
                 bs_distance = Some (chainLength points) \<rparr>])"

definition buildPath :: "real \<Rightarrow> real \<Rightarrow> real \<Rightarrow> path option \<Rightarrow> path option" where
  "buildPath minSamples sampleDensity alpha data =
     (case data of
        None \<Rightarrow> None
      | Some d \<Rightarrow>
          if path_positions d = [] then None
          else Some (d\<lparr> path_segments :=
                 Some (concat (map (builtSegment minSamples sampleDensity alpha (path_positions d))
                                   (buildSegments (path_positions d) (path_pauses d)))) \<rparr>))"

datatype easing = Linear | SineInOut | QuadraticInOut | CubicInOut | QuarticInOut | QuinticInOut

definition getEasing :: "string \<Rightarrow> easing" where
  "getEasing name =
     (if name = ''Linear'' then Linear
      else if name = ''QuadraticInOut'' then QuadraticInOut
      else if name = ''CubicInOut'' then CubicInOut
      else if name = ''QuarticInOut'' then QuarticInOut
      else if name = ''QuinticInOut'' then QuinticInOut
      else SineInOut)"

text \<open>
  What a task moves (the \<open>onUpdate\<close> of the scripts), what it does when it completes (the
  \<open>onComplete\<close> callbacks of the scripts) and the events the mover fires.
\<close>

datatype motion =
    CurveMotion "vec3 list" quat quat
  | LinearMotion vec3 vec3 quat quat
  | WaitMotion

datatype callback =
    NotifyWaypoint int vec3 quat
  | LogWaypoint int vec3 quat
  | SequenceComplete

datatype event = CameraWaypoint int vec3 quat | PathComplete | MoverStopped

text \<open>
  Modelled from the spec: the tween primitive (\<open>tween.mjs\<close>, with \<open>app.tween\<close>, \<open>to\<close>,
  \<open>delay\<close>, \<open>onComplete\<close>, \<open>chain\<close>, \<open>start\<close> and \<open>stop\<close>) is not among the sources. The
  specification describes a motion task as a state machine, pending, then active, then
  completed or cancelled: a task is created pending, \<open>start\<close> makes it active, \<open>stop\<close>
  cancels a pending or active task at once and for good, completion runs the task's
  callbacks in the order they were attached and then starts the chained task. The tasks
  live in a store and are named by their index there; the scripts hold indices.
\<close>

datatype status = Pending | Active | Completed | Cancelled

record tween =
  tw_motion :: motion
  tw_duration :: real
  tw_delay :: real
  tw_easing :: easing
  tw_complete :: "callback list"
  tw_chained :: "nat option"
  tw_status :: status

text \<open>What both scripts keep: the store of tasks, \<open>_tweens\<close>, \<open>_running\<close>, the local transform
  of the entity they move and their attributes.\<close>

record controller =
  heap :: "tween list"
  tweens :: "nat list"
  running :: bool
  entityPos :: vec3
  entityRot :: quat
  durationPerUnit :: real
  minDuration :: real
  easing :: string
  loop :: bool

text \<open>
  Modelled from the spec: \<open>app.tween(state).to(target, duration, easing)\<close>, with
  \<open>delay\<close>, of the tween primitive that is not among the sources: a new task in the store,
  pending, with no callback and no chained task. Its index is the length of the store
  before.
\<close>

definition newTween ::
  "motion \<Rightarrow> real \<Rightarrow> real \<Rightarrow> easing \<Rightarrow> 'a controller_scheme \<Rightarrow> 'a controller_scheme" where
  "newTween mo dur del e c =
     c\<lparr> heap := heap c @
          [\<lparr> tw_motion = mo, tw_duration = dur, tw_delay = del, tw_easing = e,
             tw_complete = [], tw_chained = None, tw_status = Pending \<rparr>] \<rparr>"

text \<open>
  Modelled from the spec: a change to the task of index \<open>i\<close> in the store of the absent
  tween primitive; an index that names no task changes nothing.
\<close>

definition updTween :: "nat \<Rightarrow> (tween \<Rightarrow> tween) \<Rightarrow> 'a controller_scheme \<Rightarrow> 'a controller_scheme" where
  "updTween i f c = (if i < length (heap c) then c\<lparr> heap := (heap c)[i := f (heap c ! i)] \<rparr> else c)"

text \<open>
  Modelled from the spec: \<open>tween.onComplete(callback)\<close> of the absent tween primitive
  attaches one more completion callback, after the ones the task has.
\<close>

definition addOnComplete :: "nat \<Rightarrow> callback \<Rightarrow> 'a controller_scheme \<Rightarrow> 'a controller_scheme" where
  "addOnComplete i cb = updTween i (\<lambda>t. t\<lparr> tw_complete := tw_complete t @ [cb] \<rparr>)"

text \<open>
  Modelled from the spec: \<open>tween.chain(next)\<close> of the absent tween primitive; the next
  task starts when this one completes.
\<close>

definition chainTween :: "nat \<Rightarrow> nat \<Rightarrow> 'a controller_scheme \<Rightarrow> 'a controller_scheme" where
  "chainTween i j = updTween i (\<lambda>t. t\<lparr> tw_chained := Some j \<rparr>)"

text \<open>
  Modelled from the spec: \<open>tween.start()\<close> of the absent tween primitive makes the task
  active.
\<close>

definition startTween :: "nat \<Rightarrow> 'a controller_scheme \<Rightarrow> 'a controller_scheme" where
  "startTween i = updTween i (\<lambda>t. t\<lparr> tw_status := Active \<rparr>)"

text \<open>
  Modelled from the spec: \<open>tween.stop()\<close> of the absent tween primitive cancels a task
  that is pending or active, for good; it does nothing to a task that has completed.
\<close>

definition stopTween :: "nat \<Rightarrow> 'a controller_scheme \<Rightarrow> 'a controller_scheme" where
  "stopTween i =
     updTween i (\<lambda>t. if tw_status t = Pending \<or> tw_status t = Active
                      then t\<lparr> tw_status := Cancelled \<rparr> else t)"

text \<open>The body that \<open>stop\<close> and \<open>stopPath\<close> share: stop every task of \<open>_tweens\<close>, empty the
  list, clear \<open>_running\<close>.\<close>

definition cancelAll :: "'a controller_scheme \<Rightarrow> 'a controller_scheme" where
  "cancelAll c = (foldl (\<lambda>c i. stopTween i c) c (tweens c))\<lparr> tweens := [], running := False \<rparr>"

text \<open>The end that all \<open>start\<close> functions share once \<open>_tweens\<close> is not empty: chain each task to
  the next, hook the end of the sequence to the last one, start the first.\<close>

definition chainAll :: "'a controller_scheme \<Rightarrow> 'a controller_scheme" where
  "chainAll c =
     foldl (\<lambda>c i. chainTween (tweens c ! (i - 1)) (tweens c ! i) c) c [1..<length (tweens c)]"

definition launch :: "'a controller_scheme \<Rightarrow> 'a controller_scheme" where
  "launch c =
     (let c1 = chainAll c;
          c2 = addOnComplete (tweens c1 ! (length (tweens c1) - 1)) SequenceComplete c1
      in startTween (tweens c2 ! 0) c2)"

section \<open>CameraMover\<close>

record mover = controller +
  useRotations :: bool
  lastPath :: "path option"
  events :: "event list"

definition toQuat :: "rotation \<Rightarrow> quat" where
  "toQuat value =
     (case value of
        RotQuat q \<Rightarrow> q
      | RotEuler v \<Rightarrow> FromEuler (vx v) (vy v) (vz v)
      | _ \<Rightarrow> Quat 0 0 0 1)"

definition resolveRotation :: "mover \<Rightarrow> path \<Rightarrow> int \<Rightarrow> quat \<Rightarrow> quat" where
  "resolveRotation m p endIndex fallbackRot =
     (if \<not> useRotations m then fallbackRot
      else let rot = rotationAt (path_rotations p) endIndex
           in if rot = RotAbsent then fallbackRot else toQuat rot)"

definition stop :: "bool \<Rightarrow> mover \<Rightarrow> mover" where
  "stop restore m =
     (let m1 = cancelAll m
      in if restore then m1\<lparr> events := events m1 @ [MoverStopped] \<rparr> else m1)"

definition finish :: "mover \<Rightarrow> mover" where
  "finish m = m\<lparr> running := False, events := events m @ [PathComplete] \<rparr>"

text \<open>The loop of \<open>start\<close> over the segments; \<open>currentRot\<close> is carried from one pass to the
  next.\<close>

fun startSegments :: "path \<Rightarrow> built_segment list \<Rightarrow> quat \<Rightarrow> mover \<Rightarrow> mover" where
  "startSegments p [] currentRot m = m"
| "startSegments p (segment # rest) currentRot m =
     (case bs_samples segment of
        None \<Rightarrow> startSegments p rest currentRot m
      | Some samples \<Rightarrow>
          if length samples < 2 then startSegments p rest currentRot m
          else
            let distance = (case bs_distance segment of
                              None \<Rightarrow> chainLength samples
                            | Some d \<Rightarrow> if d = 0 then chainLength samples else d);
                duration = max (distance * durationPerUnit m) (minDuration m);
                endIndex = (case bs_endIndex segment of
                              None \<Rightarrow> bs_startIndex segment + int (length samples) - 1
                            | Some e \<Rightarrow> e);
                targetRot = resolveRotation m p endIndex currentRot;
                tween = length (heap m);
                m1 = newTween (CurveMotion samples currentRot targetRot) duration 0
                       (getEasing (easing m)) m;
                m2 = addOnComplete tween
                       (NotifyWaypoint endIndex (samples ! (length samples - 1)) targetRot) m1;
                m3 = m2\<lparr> tweens := tweens m2 @ [tween] \<rparr>
            in startSegments p rest targetRot m3)"

definition start :: "path option \<Rightarrow> mover \<Rightarrow> mover" where
  "start path m =
     (case path of
        None \<Rightarrow> m
      | Some p \<Rightarrow>
          (case path_segments p of
             None \<Rightarrow> m
           | Some segments \<Rightarrow>
               if segments = [] then m
               else
                 let m1 = (stop False m)\<lparr> running := True \<rparr>;
                     m2 = startSegments p segments (entityRot m1) m1
                 in if tweens m2 = [] then finish m2 else launch m2))"

text \<open>The loop of \<open>startFromWaypoints\<close>, over the indices from 1.\<close>

fun startHops :: "vec3 list \<Rightarrow> rotation list \<Rightarrow> nat list \<Rightarrow> quat \<Rightarrow> mover \<Rightarrow> mover" where
  "startHops positions rotations [] currentRot m = m"
| "startHops positions rotations (i # rest) currentRot m =
     (let fromPos = positions ! (i - 1);
          toPos = positions ! i;
          distance = vdistance fromPos toPos;
          duration = max (distance * durationPerUnit m) (minDuration m);
          targetRot = (if useRotations m \<and> rotationAt rotations (int i) \<noteq> RotAbsent
                       then toQuat (rotationAt rotations (int i)) else currentRot);
          tween = length (heap m);
          m1 = newTween (LinearMotion fromPos toPos currentRot targetRot) duration 0
                 (getEasing (easing m)) m;
          m2 = addOnComplete tween (NotifyWaypoint (int i) toPos targetRot) m1;
          m3 = m2\<lparr> tweens := tweens m2 @ [tween] \<rparr>
      in startHops positions rotations rest targetRot m3)"

definition startFromWaypoints :: "path option \<Rightarrow> mover \<Rightarrow> mover" where
  "startFromWaypoints data m =
     (case data of
        None \<Rightarrow> m
      | Some d \<Rightarrow>
          if path_positions d = [] then m
          else
            let m1 = (stop False m)\<lparr> running := True \<rparr>;
                m2 = startHops (path_positions d) (path_rotations d)
                       [1..<length (path_positions d)] (entityRot m1) m1
            in if tweens m2 = [] then finish m2 else launch m2)"









section \<open>CameraWaypointPath\<close>

text \<open>
  The script that loads, builds and plays by itself, in its two versions: the one that moves
  in straight hops and waits at pauses, and the one that moves along sampled curves.
  \<open>inputScripts\<close> are the scripts of the input entity with their \<open>enabled\<close> flags
  (\<open>None\<close>: no such entity or no scripts on it); \<open>console\<close> is what was logged.
\<close>

record pathScript = controller +
  waypointPositions :: "vec3 list"
  waypointRotations :: "rotation list"
  waypointPauses :: "real list"
  inputScriptNames :: "string list"
  inputScripts :: "(string \<times> bool) list option"
  disabledScripts :: "string list"
  console :: "callback list"

definition toVec3Or :: "vec3 option \<Rightarrow> vec3 \<Rightarrow> vec3" where
  "toVec3Or value fallback = (case value of Some v \<Rightarrow> v | None \<Rightarrow> fallback)"

definition toQuatOr :: "rotation \<Rightarrow> quat \<Rightarrow> quat" where
  "toQuatOr value fallbackQuat =
     (case value of
        RotQuat q \<Rightarrow> q
      | RotEuler v \<Rightarrow> FromEuler (vx v) (vy v) (vz v)
      | _ \<Rightarrow> fallbackQuat)"

definition setFlag :: "string \<Rightarrow> bool \<Rightarrow> (string \<times> bool) list \<Rightarrow> (string \<times> bool) list" where
  "setFlag name b scripts = map (\<lambda>(k, v). if k = name then (k, b) else (k, v)) scripts"

definition disableScript :: "pathScript \<Rightarrow> string \<Rightarrow> pathScript" where
  "disableScript s name =
     (case inputScripts s of
        None \<Rightarrow> s
      | Some scripts \<Rightarrow>
          if map_of scripts name = Some True
          then s\<lparr> inputScripts := Some (setFlag name False scripts),
                  disabledScripts := disabledScripts s @ [name] \<rparr>
          else s)"

definition setInputEnabled :: "bool \<Rightarrow> pathScript \<Rightarrow> pathScript" where
  "setInputEnabled enabled s =
     (case inputScripts s of
        None \<Rightarrow> s
      | Some scripts \<Rightarrow>
          if enabled
          then s\<lparr> inputScripts := Some (foldl (\<lambda>scr name. setFlag name True scr) scripts
                                             (disabledScripts s)),
                  disabledScripts := [] \<rparr>
          else foldl disableScript s (inputScriptNames s))"

definition stopPath :: "bool \<Rightarrow> pathScript \<Rightarrow> pathScript" where
  "stopPath restoreInput s =
     (let s1 = cancelAll s in if restoreInput then setInputEnabled True s1 else s1)"

definition finishPath :: "pathScript \<Rightarrow> pathScript" where
  "finishPath s = setInputEnabled True (s\<lparr> running := False \<rparr>)"

text \<open>The loop of the straight-hop \<open>startPath\<close>, over the indices from 0.\<close>

fun linearHops :: "nat list \<Rightarrow> vec3 \<Rightarrow> quat \<Rightarrow> pathScript \<Rightarrow> pathScript" where
  "linearHops [] currentPos currentRot s = s"
| "linearHops (i # rest) currentPos currentRot s =
     (let targetPos = toVec3Or (positionAt (waypointPositions s) (int i)) currentPos;
          targetRotQuat = toQuatOr (rotationAt (waypointRotations s) (int i)) currentRot;
          distance = vdistance currentPos targetPos;
          duration = max (distance * durationPerUnit s) (minDuration s);
          moveTween = length (heap s);
          s1 = newTween (LinearMotion currentPos targetPos currentRot targetRotQuat) duration 0
                 (getEasing (easing s)) s;
          s2 = addOnComplete moveTween (LogWaypoint (int i + 1) targetPos targetRotQuat) s1;
          s3 = s2\<lparr> tweens := tweens s2 @ [moveTween] \<rparr>;
          pause = pauseAt (waypointPauses s) i;
          s4 = (if 0 < pause
                then (newTween WaitMotion 0 pause Linear s3)\<lparr> tweens := tweens s3 @ [length (heap s3)] \<rparr>
                else s3)
      in linearHops rest targetPos targetRotQuat s4)"

definition startPathLinear :: "pathScript \<Rightarrow> pathScript" where
  "startPathLinear s =
     (if waypointPositions s = [] then s
      else
        let s1 = setInputEnabled False ((stopPath False s)\<lparr> running := True \<rparr>);
            s2 = linearHops [0..<length (waypointPositions s1)] (entityPos s1) (entityRot s1) s1
        in if tweens s2 = [] then finishPath s2 else launch s2)"

definition collectSegmentPoints :: "vec3 list \<Rightarrow> int \<Rightarrow> int \<Rightarrow> vec3 \<Rightarrow> vec3 list" where
  "collectSegmentPoints positions startIdx endIdx currentPos =
     currentPos # map (\<lambda>idx. toVec3Or (positionAt positions idx) currentPos) [startIdx..endIdx]"

text \<open>The loop of the curved \<open>startPath\<close> over the segments; \<open>currentPos\<close> and
  \<open>currentRot\<close> are carried, also past a segment that is skipped.\<close>

fun curveSegments :: "segment list \<Rightarrow> vec3 \<Rightarrow> quat \<Rightarrow> pathScript \<Rightarrow> pathScript" where
  "curveSegments [] currentPos currentRot s = s"
| "curveSegments (segment # rest) currentPos currentRot s =
     (let pathPoints = collectSegmentPoints (waypointPositions s) (seg_start segment)
                         (seg_end segment) currentPos
      in if length pathPoints < 2
         then curveSegments rest
                (toVec3Or (positionAt (waypointPositions s) (seg_end segment)) currentPos)
                (toQuatOr (rotationAt (waypointRotations s) (seg_end segment)) currentRot) s
         else
           let totalDistance = chainLength pathPoints;
               duration = max (totalDistance * durationPerUnit s) (minDuration s);
               curvePoints = sampleCurve pathPoints (seg_prevPoint segment) (seg_nextPoint segment)
                               (max 24 (real_of_int \<lceil>totalDistance * 6\<rceil>)) (7 / 10);
               targetRotQuat = toQuatOr (rotationAt (waypointRotations s) (seg_end segment))
                                 currentRot;
               moveTween = length (heap s);
               s1 = newTween (CurveMotion curvePoints currentRot targetRotQuat) duration 0
                      (getEasing (easing s)) s;
               s2 = addOnComplete moveTween
                      (LogWaypoint (seg_end segment + 1)
                         (curvePoints ! (length curvePoints - 1)) targetRotQuat) s1;
               s3 = s2\<lparr> tweens := tweens s2 @ [moveTween] \<rparr>
           in curveSegments rest (curvePoints ! (length curvePoints - 1)) targetRotQuat s3)"

definition startPathCurve :: "pathScript \<Rightarrow> pathScript" where
  "startPathCurve s =
     (if waypointPositions s = [] then s
      else
        let s1 = setInputEnabled False ((stopPath False s)\<lparr> running := True \<rparr>);
            s2 = curveSegments (buildSegmentsGuarded (waypointPositions s1) (waypointPauses s1))
                   (entityPos s1) (entityRot s1) s1
        in if tweens s2 = [] then finishPath s2 else launch s2)"

text \<open>
  The tasks of \<open>_tweens\<close> in order, each as what it does (a straight hop from one position to
  another, a run along sampled points, or a wait) and the time it takes, delay and duration
  together.
\<close>

datatype task = Hop vec3 vec3 | Along "vec3 list" | Wait

definition taskOf :: "motion \<Rightarrow> task" where
  "taskOf mo =
     (case mo of
        CurveMotion samples fromRot toRot \<Rightarrow> Along samples
      | LinearMotion fromPos toPos fromRot toRot \<Rightarrow> Hop fromPos toPos
      | WaitMotion \<Rightarrow> Wait)"

definition taskEntry :: "tween \<Rightarrow> task \<times> real" where
  "taskEntry t = (taskOf (tw_motion t), tw_delay t + tw_duration t)"

definition taskPlan :: "'a controller_scheme \<Rightarrow> (task \<times> real) list" where
  "taskPlan c = map (\<lambda>i. taskEntry (heap c ! i)) (tweens c)"

text \<open>
  The plan of straight-hop playback in the words of the specification: for every pair of
  neighbouring waypoints one hop that lasts \<open>max (distance * durationPerUnit) minDuration\<close>,
  and after a hop to a waypoint with a positive pause a wait of that pause.
\<close>

definition claimedLinearPlan :: "vec3 list \<Rightarrow> real list \<Rightarrow> real \<Rightarrow> real \<Rightarrow> (task \<times> real) list" where
  "claimedLinearPlan positions pauses perUnit minDur =
     concat (map (\<lambda>i. (Hop (positions ! (i - 1)) (positions ! i),
                        max (vdistance (positions ! (i - 1)) (positions ! i) * perUnit) minDur)
                       # (if 0 < pauseAt pauses i then [(Wait, pauseAt pauses i)] else []))
                 [1..<length positions])"

text \<open>A segment the mover can play has two samples or more.\<close>

definition usable :: "built_segment \<Rightarrow> bool" where
  "usable segment \<longleftrightarrow>
     (case bs_samples segment of None \<Rightarrow> False | Some samples \<Rightarrow> 2 \<le> length samples)"

text \<open>The scripts as they are made: the defaults of their attributes, nothing to play, the
  entity at the origin and not turned.\<close>

definition newMover :: mover where
  "newMover =
     \<lparr> heap = [], tweens = [], running = False, entityPos = Vec3 0 0 0, entityRot = Quat 0 0 0 1,
       durationPerUnit = 1 / 10, minDuration = 1 / 10, easing = ''SineInOut'', loop = False,
       useRotations = True, lastPath = None, events = [] \<rparr>"

definition newPathScript :: pathScript where
  "newPathScript =
     \<lparr> heap = [], tweens = [], running = False, entityPos = Vec3 0 0 0, entityRot = Quat 0 0 0 1,
       durationPerUnit = 1 / 10, minDuration = 1 / 10, easing = ''SineInOut'', loop = False,
       waypointPositions = [], waypointRotations = [], waypointPauses = [],
       inputScriptNames = [], inputScripts = None, disabledScripts = [], console = [] \<rparr>"

text \<open>A task is live while it is pending or active.\<close>

definition live :: "tween \<Rightarrow> bool" where
  "live t \<longleftrightarrow> tw_status t = Pending \<or> tw_status t = Active"

text \<open>Every live task of the store is in \<open>_tweens\<close>; no task of the store is live.\<close>

definition listed :: "'a controller_scheme \<Rightarrow> bool" where
  "listed c \<longleftrightarrow> (\<forall>j<length (heap c). live (heap c ! j) \<longrightarrow> j \<in> set (tweens c))"

definition quiet :: "'a controller_scheme \<Rightarrow> bool" where
  "quiet c \<longleftrightarrow> (\<forall>t\<in>set (heap c). \<not> live t)"










section \<open>The control points of the spline sampler\<close>

lemma vdistance_x: "vdistance (Vec3 a y z) (Vec3 b y z) = \<bar>a - b\<bar>"
  by (simp add: vdistance_def lengthSq_def vsub_def)

lemma normalize_x: "a \<noteq> 0 \<Longrightarrow> normalize (Vec3 a 0 0) = Vec3 (a / \<bar>a\<bar>) 0 0"
  by (simp add: normalize_def lengthSq_def mulScalar_def)

text \<open>
  The synthesized control points in general: \<open>_extrapolate\<close> moves \<open>point\<close> by \<open>lengthFactor\<close>
  units along the direction from \<open>reference\<close> to \<open>point\<close>. So for a chain of two points far
  enough apart both control points are two units from their end of the chain, the one of the
  end away from the chain, the one of the start towards the second point.
\<close>

lemma extrapolate_direction:
  assumes "EPSILON \<le> lengthSq (vsub point reference)"
  shows "extrapolate point reference lengthFactor =
     vadd point (mulScalar (vsub point reference) (lengthFactor / vdistance point reference))"
proof -
  have "0 < lengthSq (vsub point reference)"
    using assms by (simp add: EPSILON_def)
  then show ?thesis
    using assms
    by (simp add: extrapolate_def Let_def normalize_def mulScalar_def vdistance_def
        not_less [symmetric])
qed

lemma lengthSq_mulScalar: "lengthSq (mulScalar v c) = c\<^sup>2 * lengthSq v"
  by (simp add: lengthSq_def mulScalar_def power2_eq_square algebra_simps)

lemma vsub_vadd: "vsub (vadd p d) p = d"
  by (simp add: vsub_def vadd_def)

lemma mulScalar_flip: "mulScalar (vsub p q) (- c) = mulScalar (vsub q p) c"
  by (simp add: mulScalar_def vsub_def algebra_simps)

lemma lengthSq_flip: "lengthSq (vsub q p) = lengthSq (vsub p q)"
  by (simp add: lengthSq_def vsub_def algebra_simps)

lemma extrapolate_distance:
  assumes "EPSILON \<le> lengthSq (vsub point reference)"
  shows "vdistance (extrapolate point reference lengthFactor) point = \<bar>lengthFactor\<bar>"
proof -
  define L where "L = lengthSq (vsub point reference)"
  have L: "0 < L" using assms by (simp add: L_def EPSILON_def)
  have "lengthSq (mulScalar (vsub point reference) (lengthFactor / sqrt L))
      = (lengthFactor / sqrt L)\<^sup>2 * L"
    by (simp add: lengthSq_mulScalar L_def)
  also have "\<dots> = lengthFactor\<^sup>2"
    using L by (simp add: power_divide)
  finally show ?thesis
    unfolding extrapolate_direction [OF assms]
    by (simp add: vdistance_def vsub_vadd L_def)
qed

lemma two_point_control_points:
  assumes "EPSILON \<le> lengthSq (vsub p q)"
  shows "startExtra [p, q] None = vadd p (mulScalar (vsub q p) (2 / vdistance p q))"
    and "endExtra [p, q] None = vadd q (mulScalar (vsub q p) (2 / vdistance p q))"
    and "vdistance (startExtra [p, q] None) p = 2"
    and "vdistance (endExtra [p, q] None) q = 2"
proof -
  have qp: "EPSILON \<le> lengthSq (vsub q p)"
    using assms by (simp add: lengthSq_flip)
  have d: "vdistance q p = vdistance p q"
    by (simp add: vdistance_def lengthSq_flip)
  have "extrapolate p q (- 2) = vadd p (mulScalar (vsub p q) (- (2 / vdistance p q)))"
    by (simp add: extrapolate_direction [OF assms])
  then show "startExtra [p, q] None = vadd p (mulScalar (vsub q p) (2 / vdistance p q))"
    by (simp add: startExtra_def mulScalar_flip)
  show "endExtra [p, q] None = vadd q (mulScalar (vsub q p) (2 / vdistance p q))"
    by (simp add: endExtra_def extrapolate_direction [OF qp] d)
  show "vdistance (startExtra [p, q] None) p = 2"
    by (simp add: startExtra_def extrapolate_distance [OF assms])
  show "vdistance (endExtra [p, q] None) q = 2"
    by (simp add: endExtra_def extrapolate_distance [OF qp])
qed

text \<open>
  Claim C4 says that both synthesized control points lie two units outside the chain. For
  the chain from the origin to \<open>(10, 0, 0)\<close> with no neighbours the code puts the control
  point of the end at \<open>(12, 0, 0)\<close>, two units beyond the end, and the control point of the
  start at \<open>(2, 0, 0)\<close>, two units from the first point towards the second, inside the
  chain: \<open>_extrapolate\<close> is called with the direction from the second point to the first
  and the factor \<open>-2\<close>.
\<close>

theorem extended_two_points:
  "extended [Vec3 0 0 0, Vec3 10 0 0] None None =
     [Vec3 2 0 0, Vec3 0 0 0, Vec3 10 0 0, Vec3 12 0 0]"
  by (simp add: extended_def startExtra_def endExtra_def extrapolate_def Let_def vsub_def
      lengthSq_def EPSILON_def normalize_x mulScalar_def vadd_def)

section \<open>Properties of binary64 arithmetic\<close>

subsection \<open>Rounding to the nearest integer\<close>

text \<open>
  The rounding of the binary64 format: its error is at most half a quantum, it is monotone,
  and it leaves the doubles as they are.
\<close>

lemma rne_err: "\<bar>of_int (rne y) - y\<bar> \<le> 1 / 2"
  unfolding rne_def Let_def by (auto simp: abs_if) linarith+

lemma rne_int [simp]: "rne (of_int n) = n"
  by (simp add: rne_def)

lemma rne_near: "\<bar>y - of_int m\<bar> < 1 / 2 \<Longrightarrow> rne y = m"
proof -
  assume a: "\<bar>y - of_int m\<bar> < 1 / 2"
  have "\<bar>of_int (rne y) - y\<bar> \<le> 1 / 2" by (rule rne_err)
  with a have "\<bar>(of_int (rne y) :: real) - of_int m\<bar> < 1" by linarith
  then have "\<bar>rne y - m\<bar> < 1" by (metis of_int_diff of_int_abs of_int_less_1_iff)
  then show ?thesis by simp
qed

lemma rne_mono: "x \<le> y \<Longrightarrow> rne x \<le> rne y"
proof -
  assume xy: "x \<le> y"
  have f: "\<lfloor>x\<rfloor> \<le> \<lfloor>y\<rfloor>" using xy by (rule floor_mono)
  show ?thesis
  proof (cases "\<lfloor>x\<rfloor> = \<lfloor>y\<rfloor>")
    case True
    then show ?thesis using xy unfolding rne_def Let_def by auto
  next
    case False
    with f have "\<lfloor>x\<rfloor> + 1 \<le> \<lfloor>y\<rfloor>" by simp
    moreover have "rne x \<le> \<lfloor>x\<rfloor> + 1" unfolding rne_def Let_def by auto
    moreover have "\<lfloor>y\<rfloor> \<le> rne y" unfolding rne_def Let_def by auto
    ultimately show ?thesis by linarith
  qed
qed

lemma rne_minus: "rne (- y) = - rne y"
proof (cases "y = of_int \<lfloor>y\<rfloor>")
  case True
  then obtain n where "y = of_int n" ..
  then have "- y = of_int (- n)" by simp
  then show ?thesis using \<open>y = of_int n\<close> by (metis rne_int)
next
  case False
  then have "\<lceil>y\<rceil> = \<lfloor>y\<rfloor> + 1" by (simp add: ceiling_altdef)
  then have f: "\<lfloor>- y\<rfloor> = - \<lfloor>y\<rfloor> - 1"
    by (simp add: ceiling_def)
  have lt: "of_int \<lfloor>y\<rfloor> < y" using False by (metis floor_correct less_eq_real_def)
  show ?thesis
    unfolding rne_def Let_def f using lt
    by (auto simp: algebra_simps) 
qed

subsection \<open>The quantum and the rounding error\<close>

lemma p2: "(2::real) powi n = 2 powr real_of_int n"
  by (simp add: powr_real_of_int')

lemma p2_pos [simp]: "0 < (2::real) powi n"
  by (simp add: zero_less_power_int)

lemma p2_mono: "m \<le> n \<Longrightarrow> (2::real) powi m \<le> 2 powi n"
  by (simp add: p2 powr_mono)

lemma p2_strict: "m < n \<Longrightarrow> (2::real) powi m < 2 powi n"
  by (simp add: p2)

lemma p2_add: "(2::real) powi (m + n) = 2 powi m * 2 powi n"
  by (simp add: p2 powr_add)


lemma p2_nat: "0 \<le> d \<Longrightarrow> (2::real) powi d = of_int (2 ^ nat d)"
  by (simp add: power_int_nonneg_exp)

lemma floor_log2:
  assumes "0 < x"
  shows "2 powi \<lfloor>log 2 x\<rfloor> \<le> x" "x < 2 powi (\<lfloor>log 2 x\<rfloor> + 1)"
  using floor_log_eq_powr_iff [of x 2 "\<lfloor>log 2 x\<rfloor>"] assms by (simp_all add: p2)

lemma floor_log2_eq:
  "0 < x \<Longrightarrow> 2 powi e \<le> x \<Longrightarrow> x < 2 powi (e + 1) \<Longrightarrow> \<lfloor>log 2 x\<rfloor> = e"
  by (simp add: floor_log_eq_powr_iff p2)

lemma expo_ge: "- 1022 \<le> expo x"
  by (simp add: expo_def)

lemma expo_minus [simp]: "expo (- x) = expo x"
  by (simp add: expo_def)

lemma expo_abs [simp]: "expo \<bar>x\<bar> = expo x"
  by (simp add: expo_def)

lemma expo_upper: "x \<noteq> 0 \<Longrightarrow> \<bar>x\<bar> < 2 powi (expo x + 1)"
proof -
  assume "x \<noteq> 0"
  then have "\<bar>x\<bar> < 2 powi (\<lfloor>log 2 \<bar>x\<bar>\<rfloor> + 1)" by (simp add: floor_log2)
  also have "\<dots> \<le> 2 powi (expo x + 1)" by (rule p2_mono) (simp add: expo_def)
  finally show ?thesis .
qed

lemma expo_normal:
  assumes "2 powi (- 1022) \<le> \<bar>x\<bar>"
  shows "2 powi (expo x) \<le> \<bar>x\<bar>"
proof -
  have pos: "0 < \<bar>x\<bar>" using assms p2_pos [of "- 1022"] by linarith
  show ?thesis
  proof (cases "- 1022 \<le> \<lfloor>log 2 \<bar>x\<bar>\<rfloor>")
    case True
    then have "expo x = \<lfloor>log 2 \<bar>x\<bar>\<rfloor>" by (simp add: expo_def)
    then show ?thesis using floor_log2(1) [OF pos] by simp
  next
    case False
    then have "expo x = - 1022" by (simp add: expo_def)
    then show ?thesis using assms by simp
  qed
qed

lemma expo_subnormal:
  assumes "x \<noteq> 0" "\<bar>x\<bar> < 2 powi (- 1022)"
  shows "expo x = - 1022"
proof -
  have pos: "0 < \<bar>x\<bar>" using assms(1) by simp
  have "\<not> - 1022 < \<lfloor>log 2 \<bar>x\<bar>\<rfloor>"
  proof
    assume "- 1022 < \<lfloor>log 2 \<bar>x\<bar>\<rfloor>"
    then have "2 powi (- 1022) \<le> (2::real) powi \<lfloor>log 2 \<bar>x\<bar>\<rfloor>" by (intro p2_mono) simp
    also have "\<dots> \<le> \<bar>x\<bar>" by (rule floor_log2(1) [OF pos])
    finally show False using assms(2) by simp
  qed
  then show ?thesis by (simp add: expo_def)
qed

lemma expo_eqI:
  assumes "2 powi e \<le> \<bar>x\<bar>" "\<bar>x\<bar> < 2 powi (e + 1)" "- 1022 \<le> e"
  shows "expo x = e"
proof -
  have pos: "0 < \<bar>x\<bar>" using assms(1) p2_pos [of e] by linarith
  have "\<lfloor>log 2 \<bar>x\<bar>\<rfloor> = e" using pos assms(1,2) by (rule floor_log2_eq)
  then show ?thesis using assms(3) by (simp add: expo_def)
qed

lemma expo_mono:
  assumes "x \<noteq> 0" "\<bar>x\<bar> \<le> \<bar>y\<bar>"
  shows "expo x \<le> expo y"
proof -
  have "log 2 \<bar>x\<bar> \<le> log 2 \<bar>y\<bar>" using assms by (intro log_mono) simp_all
  then have "\<lfloor>log 2 \<bar>x\<bar>\<rfloor> \<le> \<lfloor>log 2 \<bar>y\<bar>\<rfloor>" by (rule floor_mono)
  then show ?thesis by (simp add: expo_def)
qed

lemma quantum_pos [simp]: "0 < quantum x"
  by (simp add: quantum_def)

lemma quantum_nz [simp]: "quantum x \<noteq> 0"
  by (metis quantum_pos less_irrefl)

lemma quantum_nonneg [simp]: "0 \<le> quantum x"
  by (rule less_imp_le) simp

lemma quantum_abs [simp]: "\<bar>quantum x\<bar> = quantum x"
  by (rule abs_of_pos) simp

lemma quantum_minus [simp]: "quantum (- x) = quantum x"
  by (simp add: quantum_def)

lemma rd_0 [simp]: "rd 0 = 0"
  by (simp add: rd_def)

lemma rd_minus: "rd (- x) = - rd x"
  by (simp add: rd_def rne_minus)




subsection \<open>Rounding is monotone and exact on doubles\<close>

lemma quantum_53: "quantum x * 2 ^ 53 = 2 powi (expo x + 1)"
proof -
  have "(2::real) powi (expo x + 1) = 2 powi (expo x - 52) * 2 powi 53"
    using p2_add [of "expo x - 52" 53] by (simp add: algebra_simps)
  then show ?thesis by (simp add: quantum_def)
qed

lemma quantum_52: "quantum x * 2 ^ 52 = 2 powi (expo x)"
proof -
  have "(2::real) powi (expo x) = 2 powi (expo x - 52) * 2 powi 52"
    using p2_add [of "expo x - 52" 52] by (simp add: algebra_simps)
  then show ?thesis by (simp add: quantum_def)
qed

lemma rd_upper:
  assumes "0 < x"
  shows "rd x \<le> 2 powi (expo x + 1)"
proof -
  have "x < 2 powi (expo x + 1)" using expo_upper [of x] assms by simp
  then have "x < quantum x * 2 ^ 53" by (simp only: quantum_53)
  then have "x / quantum x \<le> of_int (2 ^ 53)"
    by (simp add: field_simps)
  then have "rne (x / quantum x) \<le> rne (of_int (2 ^ 53))" by (rule rne_mono)
  then have "rne (x / quantum x) \<le> 2 ^ 53" by (simp only: rne_int)
  then have "real_of_int (rne (x / quantum x)) \<le> 2 ^ 53"
    by (metis of_int_le_iff of_int_numeral of_int_power)
  then have "real_of_int (rne (x / quantum x)) * quantum x \<le> 2 ^ 53 * quantum x"
    by (intro mult_right_mono) simp_all
  then show ?thesis using assms by (simp add: rd_def quantum_53 [symmetric] mult.commute)
qed

lemma rd_nonneg:
  assumes "0 \<le> x"
  shows "0 \<le> rd x"
proof (cases "x = 0")
  case True
  then show ?thesis by simp
next
  case False
  have "0 \<le> x / quantum x" using assms by simp
  then have "rne (of_int 0) \<le> rne (x / quantum x)" by (intro rne_mono) simp
  then have "0 \<le> rne (x / quantum x)" by (simp only: rne_int)
  then show ?thesis using False by (simp add: rd_def)
qed

lemma rd_lower:
  assumes "2 powi (- 1022) \<le> x"
  shows "2 powi (expo x) \<le> rd x"
proof -
  have pos: "0 < x" using assms p2_pos [of "- 1022"] by linarith
  have "2 powi (expo x) \<le> \<bar>x\<bar>" using assms pos by (intro expo_normal) simp
  then have "quantum x * 2 ^ 52 \<le> x" using pos by (simp only: quantum_52 abs_of_pos)
  then have "of_int (2 ^ 52) \<le> x / quantum x"
    by (simp add: field_simps)
  then have "rne (of_int (2 ^ 52)) \<le> rne (x / quantum x)" by (rule rne_mono)
  then have "2 ^ 52 \<le> rne (x / quantum x)" by (simp only: rne_int)
  then have "2 ^ 52 \<le> real_of_int (rne (x / quantum x))"
    by (metis of_int_le_iff of_int_numeral of_int_power)
  then have "2 ^ 52 * quantum x \<le> real_of_int (rne (x / quantum x)) * quantum x"
    by (intro mult_right_mono) simp_all
  then show ?thesis using pos by (simp add: rd_def quantum_52 [symmetric] mult.commute)
qed

lemma rd_mono_pos:
  assumes "0 < x" "x \<le> y"
  shows "rd x \<le> rd y"
proof -
  have y: "0 < y" using assms by simp
  have e: "expo x \<le> expo y" using assms by (intro expo_mono) simp_all
  show ?thesis
  proof (cases "expo x = expo y")
    case True
    then have q: "quantum x = quantum y" by (simp add: quantum_def)
    have "x / quantum y \<le> y / quantum y" using assms(2) by (simp add: divide_right_mono)
    then have "rne (x / quantum y) \<le> rne (y / quantum y)" by (rule rne_mono)
    then have "real_of_int (rne (x / quantum y)) * quantum y
        \<le> real_of_int (rne (y / quantum y)) * quantum y"
      by (intro mult_right_mono) simp_all
    then show ?thesis using assms y by (simp add: rd_def q)
  next
    case False
    with e have lt: "expo x + 1 \<le> expo y" by simp
    have "- 1022 < expo y" using lt expo_ge [of x] by linarith
    then have "2 powi (- 1022) \<le> y"
      using expo_subnormal [of y] y by (cases "2 powi (- 1022) \<le> y") auto
    then have "2 powi (expo y) \<le> rd y" by (rule rd_lower)
    moreover have "rd x \<le> 2 powi (expo x + 1)" using assms(1) by (rule rd_upper)
    moreover have "(2::real) powi (expo x + 1) \<le> 2 powi (expo y)" using lt by (rule p2_mono)
    ultimately show ?thesis by linarith
  qed
qed

lemma rd_mono:
  assumes "x \<le> y"
  shows "rd x \<le> rd y"
proof -
  consider "0 < x" | "x \<le> 0" "0 \<le> y" | "y < 0" by linarith
  then show ?thesis
  proof cases
    case 1
    then show ?thesis using assms by (rule rd_mono_pos)
  next
    case 2
    have "rd x \<le> 0" using rd_nonneg [of "- x"] 2(1) by (simp add: rd_minus)
    moreover have "0 \<le> rd y" using 2(2) by (rule rd_nonneg)
    ultimately show ?thesis by linarith
  next
    case 3
    have "rd (- y) \<le> rd (- x)" using 3 assms by (intro rd_mono_pos) simp_all
    then show ?thesis by (simp add: rd_minus)
  qed
qed

lemma rd_exact_pos:
  assumes "0 < m" "m < 2 ^ 53" "- 1074 \<le> k"
  shows "rd (of_int m * 2 powi k) = of_int m * 2 powi k"
proof -
  define x :: real where "x = of_int m * 2 powi k"
  have pos: "0 < x" using assms(1) by (simp add: x_def)
  have "real_of_int m < 2 ^ 53" using assms(2) by (metis of_int_less_iff of_int_numeral of_int_power)
  then have "x < 2 ^ 53 * 2 powi k" unfolding x_def by (intro mult_strict_right_mono) simp_all
  also have "\<dots> = 2 powi (k + 53)" using p2_add [of k 53] by simp
  finally have ub: "x < 2 powi (k + 53)" .
  have e: "expo x \<le> k + 52"
  proof (rule ccontr)
    assume "\<not> expo x \<le> k + 52"
    then have gt: "k + 53 \<le> expo x" by simp
    then have "- 1022 < expo x" using assms(3) by linarith
    then have "2 powi (- 1022) \<le> \<bar>x\<bar>"
      using expo_subnormal [of x] pos by (cases "2 powi (- 1022) \<le> \<bar>x\<bar>") auto
    then have "2 powi (expo x) \<le> \<bar>x\<bar>" by (rule expo_normal)
    moreover have "(2::real) powi (k + 53) \<le> 2 powi (expo x)" using gt by (rule p2_mono)
    ultimately show False using ub pos by simp
  qed
  define d where "d = k - (expo x - 52)"
  have d: "0 \<le> d" using e by (simp add: d_def)
  define q where "q = quantum x"
  have qpos: "0 < q" by (simp add: q_def)
  have kq: "2 powi k = 2 powi d * q"
    unfolding q_def quantum_def d_def using p2_add [of "k - (expo x - 52)" "expo x - 52"] by simp
  have "of_int m * 2 powi k / q = of_int m * (2 powi d * q) / q"
    by (simp only: kq)
  also have "\<dots> = of_int m * 2 powi d"
    using qpos by simp
  finally have xq: "x / quantum x = of_int m * 2 powi d"
    by (simp add: x_def [symmetric] q_def)
  note xq
  also have "\<dots> = of_int (m * 2 ^ nat d)" using d by (simp add: p2_nat)
  finally have "rne (x / quantum x) = m * 2 ^ nat d" by (simp only: rne_int)
  then have "rd x = of_int (m * 2 ^ nat d) * quantum x" using pos by (simp add: rd_def)
  also have "\<dots> = (of_int m * 2 powi d) * quantum x" using d by (simp add: p2_nat)
  also have "\<dots> = x / quantum x * quantum x" by (simp only: xq)
  also have "\<dots> = x" by simp
  finally show ?thesis by (simp add: x_def)
qed

lemma rd_exact:
  assumes "\<bar>m\<bar> < 2 ^ 53" "- 1074 \<le> k"
  shows "rd (of_int m * 2 powi k) = of_int m * 2 powi k"
proof -
  consider "0 < m" | "m = 0" | "m < 0" by linarith
  then show ?thesis
  proof cases
    case 1
    then show ?thesis using assms by (intro rd_exact_pos) simp_all
  next
    case 2
    then show ?thesis by simp
  next
    case 3
    then have "rd (of_int (- m) * 2 powi k) = of_int (- m) * 2 powi k"
      using assms by (intro rd_exact_pos) simp_all
    then have "rd (- (of_int m * 2 powi k)) = - (of_int m * 2 powi k)" by simp
    then show ?thesis by (simp add: rd_minus)
  qed
qed

lemma rd_p2: "- 1074 \<le> k \<Longrightarrow> rd (2 powi k) = 2 powi k"
  using rd_exact [of 1 k] by simp

lemma rd_int: "\<bar>n\<bar> < 2 ^ 53 \<Longrightarrow> rd (of_int n) = of_int n"
  using rd_exact [of n 0] by simp


lemma rd_eqI:
  assumes "2 powi e \<le> \<bar>x\<bar>" "\<bar>x\<bar> < 2 powi (e + 1)" "- 1022 \<le> e"
    and "\<bar>x / 2 powi (e - 52) - of_int m\<bar> < 1 / 2"
    and "r = of_int m * 2 powi (e - 52)"
  shows "rd x = r"
proof -
  have e: "expo x = e" using assms(1-3) by (rule expo_eqI)
  have "0 < \<bar>x\<bar>" using less_le_trans [OF p2_pos assms(1)] .
  then have nz: "x \<noteq> 0" by simp
  have "rne (x / 2 powi (e - 52)) = m" using assms(4) by (rule rne_near)
  then show ?thesis using nz by (simp add: rd_def quantum_def e assms(5))
qed

lemma rd_tieI:
  assumes "2 powi e \<le> \<bar>x\<bar>" "\<bar>x\<bar> < 2 powi (e + 1)" "- 1022 \<le> e"
    and "x / 2 powi (e - 52) = of_int f + 1 / 2"
    and "m = (if even f then f else f + 1)"
    and "r = of_int m * 2 powi (e - 52)"
  shows "rd x = r"
proof -
  have e: "expo x = e" using assms(1-3) by (rule expo_eqI)
  have "0 < \<bar>x\<bar>" using less_le_trans [OF p2_pos assms(1)] .
  then have nz: "x \<noteq> 0" by simp
  have f: "\<lfloor>x / 2 powi (e - 52)\<rfloor> = f" unfolding assms(4) by linarith
  have "rne (x / 2 powi (e - 52)) = m"
    unfolding rne_def Let_def f unfolding assms(4) using assms(5) by simp
  then show ?thesis using nz by (simp add: rd_def quantum_def e assms(6))
qed

subsection \<open>Rounded results\<close>

lemma rnd_0 [simp]: "rnd 0 = Fin 0"
  by (simp add: rnd_def)

lemma rnd_minus: "rnd (- x) = - rnd x"
proof (cases "x = 0")
  case True
  then show ?thesis by simp
next
  case False
  then show ?thesis by (auto simp: rnd_def rd_minus)
qed

lemma minus_Fin [simp]: "Fin x - Fin y = rnd (x - y)"
  by (simp add: minus_double_def)

lemma rd_bound:
  assumes "\<bar>x\<bar> \<le> 2 powi k" "- 1074 \<le> k"
  shows "\<bar>rd x\<bar> \<le> 2 powi k"
proof -
  have a: "rd (2 powi k) = 2 powi k" using assms(2) by (rule rd_p2)
  have "x \<le> 2 powi k" "- (2 powi k) \<le> x" using assms(1) by linarith+
  then have "rd x \<le> rd (2 powi k)" "rd (- (2 powi k)) \<le> rd x" by (auto intro: rd_mono)
  then show ?thesis by (simp add: a rd_minus abs_le_iff)
qed

lemma rnd_Fin:
  assumes "\<bar>x\<bar> \<le> 2 powi 1023"
  shows "rnd x = Fin (rd x)"
proof -
  have "\<bar>rd x\<bar> \<le> 2 powi 1023" using assms by (rule rd_bound) simp
  also have "(2::real) powi 1023 < 2 powi 1024" by (rule p2_strict) simp
  finally have "\<not> 2 ^ 1024 \<le> \<bar>rd x\<bar>" by simp
  then show ?thesis by (simp add: rnd_def)
qed

lemma rnd_eqI:
  assumes "2 powi e \<le> x" "x < 2 powi (e + 1)" "- 1022 \<le> e" "e \<le> 1022"
    and "\<bar>x / 2 powi (e - 52) - of_int m\<bar> < 1 / 2"
    and "r = of_int m * 2 powi (e - 52)"
  shows "rnd x = Fin r"
proof -
  have pos: "0 < x" using less_le_trans [OF p2_pos assms(1)] .
  have r: "rd x = r" using assms(1,2,3,5,6) pos by (intro rd_eqI [where e = e and m = m]) simp_all
  have "x \<le> 2 powi 1023"
  proof -
    have "x \<le> 2 powi (e + 1)" using assms(2) by simp
    also have "\<dots> \<le> 2 powi 1023" using assms(4) by (intro p2_mono) simp
    finally show ?thesis .
  qed
  then have "rnd x = Fin (rd x)" using pos by (intro rnd_Fin) simp
  then show ?thesis by (simp add: r)
qed

lemma rnd_tieI:
  assumes "2 powi e \<le> x" "x < 2 powi (e + 1)" "- 1022 \<le> e" "e \<le> 1022"
    and "x / 2 powi (e - 52) = of_int f + 1 / 2"
    and "m = (if even f then f else f + 1)"
    and "r = of_int m * 2 powi (e - 52)"
  shows "rnd x = Fin r"
proof -
  have pos: "0 < x" using less_le_trans [OF p2_pos assms(1)] .
  have r: "rd x = r" using assms(1,2,3,5,6,7) pos by (intro rd_tieI [where e = e and f = f and m = m]) simp_all
  have "x \<le> 2 powi 1023"
  proof -
    have "x \<le> 2 powi (e + 1)" using assms(2) by simp
    also have "\<dots> \<le> 2 powi 1023" using assms(4) by (intro p2_mono) simp
    finally show ?thesis .
  qed
  then have "rnd x = Fin (rd x)" using pos by (intro rnd_Fin) simp
  then show ?thesis by (simp add: r)
qed

lemma rnd_sqrtI:
  assumes "(2 powi e)\<^sup>2 \<le> c" "c < (2 powi (e + 1))\<^sup>2" "- 1022 \<le> e" "e \<le> 1022"
    and "1 \<le> m"
    and "((of_int m - 1 / 2) * 2 powi (e - 52))\<^sup>2 < c"
    and "c < ((of_int m + 1 / 2) * 2 powi (e - 52))\<^sup>2"
    and "r = of_int m * 2 powi (e - 52)"
  shows "rnd (sqrt c) = Fin r"
proof (rule rnd_eqI [where e = e and m = m])
  have c0: "0 \<le> c" using assms(1) zero_le_power2 [of "(2::real) powi e"] by linarith
  show "2 powi e \<le> sqrt c"
    using assms(1) by (simp add: real_le_rsqrt)
  show "sqrt c < 2 powi (e + 1)"
    using assms(2) by (intro real_less_lsqrt) (simp_all add: less_imp_le)
  show "- 1022 \<le> e" "e \<le> 1022" by fact+
  show "r = of_int m * 2 powi (e - 52)" by fact
  define q :: real where "q = 2 powi (e - 52)"
  have q: "0 < q" by (simp add: q_def)
  have m: "0 \<le> (of_int m - 1 / 2 :: real)" using assms(5) by simp
  have lo: "(of_int m - 1 / 2) * q < sqrt c"
    using assms(6) m q unfolding q_def [symmetric]
    by (intro real_less_rsqrt) simp
  have hi: "sqrt c < (of_int m + 1 / 2) * q"
    using assms(7) assms(5) q unfolding q_def [symmetric]
    by (intro real_less_lsqrt) (simp_all add: less_imp_le)
  from lo hi q have "of_int m - 1 / 2 < sqrt c / q" "sqrt c / q < of_int m + 1 / 2"
    by (simp_all add: field_simps)
  then show "\<bar>sqrt c / 2 powi (e - 52) - of_int m\<bar> < 1 / 2"
    unfolding q_def [symmetric] by linarith
qed

subsection \<open>Order and the Math functions\<close>

lemma rd_overflow_pos: "2 ^ 1024 \<le> \<bar>rd x\<bar> \<Longrightarrow> 0 < x \<Longrightarrow> 2 ^ 1024 \<le> rd x"
  using rd_nonneg [of x] by simp

lemma rnd_cases:
  obtains (fin) "rnd x = Fin (rd x)" "\<bar>rd x\<bar> < 2 ^ 1024"
  | (pinf) "rnd x = PInf" "2 ^ 1024 \<le> rd x" "0 < x"
  | (ninf) "rnd x = NInf" "rd x \<le> - (2 ^ 1024)" "x < 0"
proof (cases "2 ^ 1024 \<le> \<bar>rd x\<bar>")
  case False
  then show ?thesis using fin by (simp add: rnd_def)
next
  case True
  then have nz: "x \<noteq> 0" by auto
  show ?thesis
  proof (cases "0 < x")
    case pos: True
    then have "0 \<le> rd x" by (intro rd_nonneg) simp
    with True have "2 ^ 1024 \<le> rd x" by simp
    then show ?thesis using pinf True pos by (simp add: rnd_def)
  next
    case neg: False
    with nz have x: "x < 0" by simp
    then have "0 \<le> rd (- x)" by (intro rd_nonneg) simp
    then have "rd x \<le> 0" by (simp add: rd_minus)
    with True have "rd x \<le> - (2 ^ 1024)" by simp
    then show ?thesis using ninf True x neg by (simp add: rnd_def)
  qed
qed

lemma rnd_not_NaN [simp]: "rnd x \<noteq> NaN"
  by (cases x rule: rnd_cases) simp_all

lemma NInf_le [simp]: "NInf \<le> b \<longleftrightarrow> b \<noteq> NaN"
  by (cases b) simp_all

lemma le_PInf [simp]: "a \<le> PInf \<longleftrightarrow> a \<noteq> NaN"
  by (cases a) simp_all

lemma rnd_mono:
  assumes "x \<le> y"
  shows "rnd x \<le> rnd y"
proof -
  have m: "rd x \<le> rd y" using assms by (rule rd_mono)
  show ?thesis
  proof (cases x rule: rnd_cases)
    case fin
    show ?thesis
    proof (cases y rule: rnd_cases)
      case fin
      then show ?thesis using \<open>rnd x = Fin (rd x)\<close> m by simp
    next
      case pinf
      then show ?thesis using \<open>rnd x = Fin (rd x)\<close> by simp
    next
      case ninf
      then show ?thesis using fin m by simp
    qed
  next
    case pinf
    then have "2 ^ 1024 \<le> rd y" "0 < y" using m assms by simp_all
    then have "rnd y = PInf" by (simp add: rnd_def)
    then show ?thesis using pinf by simp
  next
    case ninf
    then show ?thesis by simp
  qed
qed

lemma rnd_nonneg: "0 \<le> x \<Longrightarrow> Fin 0 \<le> rnd x"
  using rnd_mono [of 0 x] by simp

lemma rnd_nonpos: "x \<le> 0 \<Longrightarrow> rnd x \<le> Fin 0"
  using rnd_mono [of x 0] by simp

lemma le_Fin_cases:
  assumes "a \<le> Fin y"
  obtains x where "a = Fin x" "x \<le> y" | "a = NInf"
  using assms by (cases a) simp_all

lemma Fin_le_cases:
  assumes "Fin x \<le> b"
  obtains y where "b = Fin y" "x \<le> y" | "b = PInf"
  using assms by (cases b) simp_all

lemma double_le_trans: "a \<le> b \<Longrightarrow> b \<le> c \<Longrightarrow> a \<le> c" for a b c :: double
  by (cases a; cases b; cases c) simp_all

lemma double_le_refl: "a \<noteq> NaN \<Longrightarrow> a \<le> a" for a :: double
  by (cases a) simp_all

lemma le_not_NaN: "a \<le> b \<Longrightarrow> a \<noteq> NaN \<and> b \<noteq> NaN" for a b :: double
  by (cases a; cases b) simp_all

lemma Math_ceil_mono: "a \<le> b \<Longrightarrow> Math_ceil a \<le> Math_ceil b"
  by (cases a; cases b) (simp_all add: ceiling_mono)

lemma Math_round_mono: "a \<le> b \<Longrightarrow> Math_round a \<le> Math_round b"
  by (cases a; cases b) (simp_all add: round_mono)

lemma Math_max_mono: "c \<noteq> NaN \<Longrightarrow> a \<le> b \<Longrightarrow> Math_max c a \<le> Math_max c b"
  by (cases a; cases b; cases c) (auto simp: Math_max_def)

lemma Math_max_ge: "c \<noteq> NaN \<Longrightarrow> a \<noteq> NaN \<Longrightarrow> c \<le> Math_max c a"
  by (cases a; cases c) (auto simp: Math_max_def)

section \<open>The number of samples in binary64\<close>

subsection \<open>The number of samples\<close>

lemma length_allHops: "map_option length (allHops hs) = sumCounts (map (map_option length) hs)"
proof (induction hs rule: allHops.induct)
  case (3 samples rest)
  show ?case by (cases "allHops rest") (simp_all add: 3 [symmetric])
qed simp_all

lemma length_hopSamples64:
  "map_option length (hopSamples64 pw points prevPoint nextPoint sampleCount alpha i)
     = iterations (steps64 points sampleCount i)"
  by (simp add: hopSamples64_def Let_def option.map_comp comp_def option.map_ident)

lemma length_sampleCurve64:
  "map_option length (sampleCurve64 pw points prevPoint nextPoint sampleCount alpha) =
     (if length points < 2 then Some (length points)
      else case sumCounts (map (\<lambda>i. iterations (steps64 points sampleCount i))
                               [0..<length points - 1]) of
             None \<Rightarrow> None
           | Some n \<Rightarrow> if n < 2 ^ 32 - 1 then Some (n + 1) else None)"
proof (cases "length points < 2")
  case True
  then show ?thesis by (simp add: sampleCurve64_def)
next
  case False
  define hs where "hs = map (hopSamples64 pw points prevPoint nextPoint sampleCount alpha)
      [0..<length points - 1]"
  have c: "sumCounts (map (\<lambda>i. iterations (steps64 points sampleCount i)) [0..<length points - 1])
      = map_option length (allHops hs)"
    by (simp add: length_allHops hs_def comp_def length_hopSamples64)
  have s: "sampleCurve64 pw points prevPoint nextPoint sampleCount alpha =
      (case allHops hs of
         None \<Rightarrow> None
       | Some samples \<Rightarrow>
           if length samples < 2 ^ 32 - 1
           then Some (samples @ [points ! (length points - 1)]) else None)"
    using False unfolding sampleCurve64_def hs_def by simp
  show ?thesis
    unfolding s c using False by (cases "allHops hs") simp_all
qed

text \<open>The number of passes of the loop of one hop, as it depends on the product of the
  budget and the share of the hop.\<close>

lemma passes_mono:
  assumes "v1 \<le> v2"
    and "iterations (Math_max (Fin 4) (Math_round v2)) = Some k2"
  shows "\<exists>k1\<le>k2. iterations (Math_max (Fin 4) (Math_round v1)) = Some k1"
proof (cases v2)
  case (Fin y)
  from assms(1) show ?thesis unfolding Fin
  proof (cases rule: le_Fin_cases)
    case (1 x)
    then have r: "round x \<le> round y" by (intro round_mono)
    then have "max 4 (round x) \<le> max 4 (round y)" by simp
    then show ?thesis
      using assms(2) 1 unfolding Fin
      by (auto simp: iterations_def Math_max_def max_def not_less nat_mono ceiling_mono
          split: if_splits)
  next
    case 2
    then show ?thesis
      using assms(2) unfolding Fin
      by (auto simp: iterations_def Math_max_def split: if_splits)
  qed
next
  case PInf
  then show ?thesis using assms(2) by (simp add: iterations_def Math_max_def)
next
  case NInf
  with assms(1) have "v1 = NInf" by (cases v1) simp_all
  then show ?thesis using assms(2) NInf by simp
next
  case NaN
  then show ?thesis using assms(1) by (cases v1) simp_all
qed

lemma passes_nonpos:
  assumes "v \<le> Fin 0"
  shows "iterations (Math_max (Fin 4) (Math_round v)) = Some 4"
  using assms
proof (cases rule: le_Fin_cases)
  case (1 x)
  then have "round x \<le> round (0::real)" by (intro round_mono)
  then have "round x \<le> 0" by simp
  then show ?thesis using 1 by (simp add: iterations_def Math_max_def)
next
  case 2
  then show ?thesis by (simp add: iterations_def Math_max_def)
qed

lemma iterations_budget_mono:
  assumes "0 \<le> b1" "b1 \<le> b2"
    and "iterations (Math_max (Fin 4) (Math_round (Fin b2 * r))) = Some k2"
  shows "\<exists>k1\<le>k2. iterations (Math_max (Fin 4) (Math_round (Fin b1 * r))) = Some k1"
proof (cases r)
  case (Fin \<rho>)
  show ?thesis
  proof (cases "0 \<le> \<rho>")
    case True
    then have "b1 * \<rho> \<le> b2 * \<rho>" using assms(2) by (intro mult_right_mono)
    then have "rnd (b1 * \<rho>) \<le> rnd (b2 * \<rho>)" by (rule rnd_mono)
    then show ?thesis using assms(3) unfolding Fin by (intro passes_mono) simp_all
  next
    case False
    have "b * \<rho> \<le> 0" if "0 \<le> b" for b
      using that False by (simp add: mult_nonneg_nonpos)
    then have "rnd (b * \<rho>) \<le> Fin 0" if "0 \<le> b" for b
      using that by (intro rnd_nonpos) simp
    then have "iterations (Math_max (Fin 4) (Math_round (rnd (b * \<rho>)))) = Some 4" if "0 \<le> b" for b
      using that by (intro passes_nonpos) simp
    from this [of b1] this [of b2] show ?thesis using assms unfolding Fin by simp
  qed
next
  case PInf
  then show ?thesis
    using assms by (auto simp: iterations_def Math_max_def split: if_splits)
next
  case NInf
  then show ?thesis
    using assms by (auto simp: iterations_def Math_max_def split: if_splits)
next
  case NaN
  then show ?thesis using assms by (simp add: iterations_def Math_max_def)
qed

lemma sumCounts_mono:
  assumes "length xs = length ys"
    and "\<And>i k2. i < length ys \<Longrightarrow> ys ! i = Some k2 \<Longrightarrow> \<exists>k1\<le>k2. xs ! i = Some k1"
    and "sumCounts ys = Some n2"
  shows "\<exists>n1\<le>n2. sumCounts xs = Some n1"
  using assms
proof (induction xs ys arbitrary: n2 rule: list_induct2)
  case Nil
  then show ?case by simp
next
  case (Cons x xs y ys)
  from Cons.prems(2) obtain k2 m2 where y: "y = Some k2" and r: "sumCounts ys = Some m2"
    and n2: "n2 = k2 + m2"
    by (cases y; cases "sumCounts ys") auto
  from Cons.prems(1) [of 0 k2] y obtain k1 where k1: "x = Some k1" "k1 \<le> k2" by auto
  have "\<exists>n1\<le>m2. sumCounts xs = Some n1"
  proof (rule Cons.IH [OF _ r])
    fix i k assume "i < length ys" "ys ! i = Some k"
    then show "\<exists>k1\<le>k. xs ! i = Some k1" using Cons.prems(1) [of "Suc i" k] by simp
  qed
  then obtain m1 where "sumCounts xs = Some m1" "m1 \<le> m2" by auto
  then show ?case using k1 n2 by simp
qed

text \<open>The measured length of a chain, when it is a number, is not negative.\<close>

lemma Math_sqrt_sign: "Math_sqrt a = Fin x \<Longrightarrow> 0 \<le> x"
proof (cases a)
  case (Fin y)
  assume "Math_sqrt a = Fin x"
  then have y: "\<not> y < 0" and r: "rnd (sqrt y) = Fin x" using Fin by (auto split: if_splits)
  have "Fin 0 \<le> rnd (sqrt y)" using y by (intro rnd_nonneg) simp
  then show ?thesis by (simp add: r)
qed simp_all

lemma distance64_sign: "distance64 p q = Fin x \<Longrightarrow> 0 \<le> x"
  unfolding distance64_def Let_def by (rule Math_sqrt_sign)

lemma plus_Fin_cases:
  assumes "a + b = Fin z"
  obtains x y where "a = Fin x" "b = Fin y" "rnd (x + y) = Fin z"
  using assms by (cases a; cases b) simp_all

lemma sum_nonneg64:
  assumes "foldl (\<lambda>acc i. acc + f i) (Fin 0) ids = Fin L"
    and "\<And>i x. f i = Fin x \<Longrightarrow> 0 \<le> x"
  shows "0 \<le> L"
  using assms(1)
proof (induction ids arbitrary: L rule: rev_induct)
  case Nil
  then show ?case by simp
next
  case (snoc i ids)
  from snoc.prems have "foldl (\<lambda>acc i. acc + f i) (Fin 0) ids + f i = Fin L" by simp
  then obtain x y where x: "foldl (\<lambda>acc i. acc + f i) (Fin 0) ids = Fin x"
    and y: "f i = Fin y" and r: "rnd (x + y) = Fin L"
    by (rule plus_Fin_cases)
  have "0 \<le> x" using x by (rule snoc.IH)
  moreover have "0 \<le> y" using y by (rule assms(2))
  ultimately have "Fin 0 \<le> rnd (x + y)" by (intro rnd_nonneg) simp
  then show ?case by (simp add: r)
qed

lemma chainLength64_sign: "chainLength64 points = Fin L \<Longrightarrow> 0 \<le> L"
  unfolding chainLength64_def
  by (rule sum_nonneg64 [where f = "\<lambda>i. distance64 (points ! i) (points ! (i - 1))"])
     (simp_all add: distance64_sign)

lemma sampleBudget64_density:
  assumes "chainLength64 points = Fin L" "d1 \<le> d2"
    and "sampleBudget64 (Fin ms) (Fin d2) points = Fin b2"
  shows "\<exists>b1. sampleBudget64 (Fin ms) (Fin d1) points = Fin b1 \<and> ms \<le> b1 \<and> b1 \<le> b2"
proof -
  have L: "0 \<le> L" using assms(1) by (rule chainLength64_sign)
  then have "L * d1 \<le> L * d2" using assms(2) by (intro mult_left_mono)
  then have "rnd (L * d1) \<le> rnd (L * d2)" by (rule rnd_mono)
  then have c: "Math_ceil (rnd (L * d1)) \<le> Math_ceil (rnd (L * d2))" by (rule Math_ceil_mono)
  then have m: "Math_max (Fin ms) (Math_ceil (rnd (L * d1))) \<le> Math_max (Fin ms) (Math_ceil (rnd (L * d2)))"
    by (intro Math_max_mono) simp_all
  have b2: "Math_max (Fin ms) (Math_ceil (rnd (L * d2))) = Fin b2"
    using assms(3) by (simp add: sampleBudget64_def assms(1))
  have "Fin ms \<le> Math_max (Fin ms) (Math_ceil (rnd (L * d1)))"
    using le_not_NaN [OF c] by (intro Math_max_ge) simp_all
  then obtain b1 where b1: "Math_max (Fin ms) (Math_ceil (rnd (L * d1))) = Fin b1" "ms \<le> b1"
    using m unfolding b2 by (cases "Math_max (Fin ms) (Math_ceil (rnd (L * d1)))") simp_all
  with m b2 have "b1 \<le> b2" by simp
  then show ?thesis using b1 by (simp add: sampleBudget64_def assms(1))
qed

lemma sampleBudget64_length:
  assumes "chainLength64 ps = Fin L1" "chainLength64 qs = Fin L2" "L1 \<le> L2" "0 \<le> d"
  shows "sampleBudget64 (Fin ms) (Fin d) ps \<le> sampleBudget64 (Fin ms) (Fin d) qs"
proof -
  have "L1 * d \<le> L2 * d" using assms(3,4) by (intro mult_right_mono)
  then have "rnd (L1 * d) \<le> rnd (L2 * d)" by (rule rnd_mono)
  then have "Math_ceil (rnd (L1 * d)) \<le> Math_ceil (rnd (L2 * d))" by (rule Math_ceil_mono)
  then have "Math_max (Fin ms) (Math_ceil (rnd (L1 * d))) \<le> Math_max (Fin ms) (Math_ceil (rnd (L2 * d)))"
    by (intro Math_max_mono) simp_all
  then show ?thesis by (simp add: sampleBudget64_def assms(1,2))
qed

lemma sampleCount64_density:
  assumes "0 \<le> ms" "d1 \<le> d2" "chainLength64 points = Fin L"
    and "sampleBudget64 (Fin ms) (Fin d2) points = Fin b2"
    and "sampleCount64 pw (Fin ms) (Fin d2) alpha points prevPoint nextPoint = Some n2"
  shows "\<exists>n1\<le>n2. sampleCount64 pw (Fin ms) (Fin d1) alpha points prevPoint nextPoint = Some n1"
proof -
  obtain b1 where b1: "sampleBudget64 (Fin ms) (Fin d1) points = Fin b1" "ms \<le> b1" "b1 \<le> b2"
    using sampleBudget64_density [OF assms(3,2,4)] by auto
  have b0: "0 \<le> b1" using assms(1) b1(2) by simp
  show ?thesis
  proof (cases "length points < 2")
    case True
    then show ?thesis
      using assms(5) by (simp add: sampleCount64_def segmentSamples64_def length_sampleCurve64)
  next
    case False
    define c2 where "c2 = map (\<lambda>i. iterations (steps64 points (Fin b2) i)) [0..<length points - 1]"
    define c1 where "c1 = map (\<lambda>i. iterations (steps64 points (Fin b1) i)) [0..<length points - 1]"
    from assms(5) False obtain m2 where m2: "sumCounts c2 = Some m2" "m2 < 2 ^ 32 - 1" "n2 = m2 + 1"
      unfolding sampleCount64_def segmentSamples64_def length_sampleCurve64 assms(4) c2_def [symmetric]
      by (auto split: option.splits if_splits)
    have "\<exists>m1\<le>m2. sumCounts c1 = Some m1"
    proof (rule sumCounts_mono [OF _ _ m2(1)])
      show "length c1 = length c2" by (simp add: c1_def c2_def)
      fix i k2 assume i: "i < length c2" and k: "c2 ! i = Some k2"
      then have "iterations (steps64 points (Fin b2) i) = Some k2" by (simp add: c2_def)
      then have "\<exists>k1\<le>k2. iterations (steps64 points (Fin b1) i) = Some k1"
        unfolding steps64_def using b0 b1(3) by (intro iterations_budget_mono)
      then show "\<exists>k1\<le>k2. c1 ! i = Some k1" using i by (simp add: c1_def c2_def)
    qed
    then obtain m1 where m1: "sumCounts c1 = Some m1" "m1 \<le> m2" by auto
    then have "sampleCount64 pw (Fin ms) (Fin d1) alpha points prevPoint nextPoint = Some (m1 + 1)"
      using False m2(2)
      unfolding sampleCount64_def segmentSamples64_def length_sampleCurve64 b1(1) c1_def [symmetric]
      by simp
    then show ?thesis using m1(2) m2(3) by simp
  qed
qed

lemma sampleCurve64_first:
  assumes "2 \<le> length points"
    and "iterations (steps64 points sampleCount 0) = Some k" and "0 < k"
    and "sampleCurve64 pw points prevPoint nextPoint sampleCount alpha = Some samples"
  shows "samples ! 0 =
     catmullRom64 pw (extended64 points prevPoint nextPoint ! 0)
       (extended64 points prevPoint nextPoint ! 1) (extended64 points prevPoint nextPoint ! 2)
       (extended64 points prevPoint nextPoint ! 3) (Fin 0 / steps64 points sampleCount 0) alpha"
proof -
  have u: "[0..<length points - 1] = 0 # [1..<length points - 1]"
    using assms(1) by (simp add: upt_conv_Cons)
  have h: "hopSamples64 pw points prevPoint nextPoint sampleCount alpha 0 =
      Some (map (\<lambda>j. catmullRom64 pw (extended64 points prevPoint nextPoint ! 0)
       (extended64 points prevPoint nextPoint ! 1) (extended64 points prevPoint nextPoint ! 2)
       (extended64 points prevPoint nextPoint ! 3) (Fin (real j) / steps64 points sampleCount 0) alpha)
         [0..<k])"
    by (simp add: hopSamples64_def Let_def assms(2) numeral_2_eq_2)
  from assms(4) obtain rest where
    "samples = (map (\<lambda>j. catmullRom64 pw (extended64 points prevPoint nextPoint ! 0)
       (extended64 points prevPoint nextPoint ! 1) (extended64 points prevPoint nextPoint ! 2)
       (extended64 points prevPoint nextPoint ! 3) (Fin (real j) / steps64 points sampleCount 0) alpha)
         [0..<k]) @ rest"
    using assms(1) unfolding sampleCurve64_def u
    by (auto simp add: h split: option.splits if_splits)
  then show ?thesis
    using assms(3) by (simp add: nth_append)
qed

lemma sampleCurve64_last:
  assumes "2 \<le> length points"
    and "sampleCurve64 pw points prevPoint nextPoint sampleCount alpha = Some samples"
  shows "last samples = points ! (length points - 1)"
  using assms
  by (auto simp add: sampleCurve64_def split: option.splits if_splits)

lemma length_scaleChain64 [simp]: "length (scaleChain64 c ps) = length ps"
  by (simp add: scaleChain64_def)

lemma Math_pow_0 [simp]: "Math_pow pw b (Fin 0) = Fin 1"
  by (simp add: Math_pow_def)

lemma sampleBudget64_finite:
  assumes "sampleBudget64 (Fin ms) (Fin d) ps \<le> Fin b2"
  shows "\<exists>b1. sampleBudget64 (Fin ms) (Fin d) ps = Fin b1 \<and> ms \<le> b1 \<and> b1 \<le> b2"
proof -
  define c where "c = Math_ceil (chainLength64 ps * Fin d)"
  have m: "Math_max (Fin ms) c \<le> Fin b2"
    using assms by (simp add: sampleBudget64_def c_def)
  then have "Math_max (Fin ms) c \<noteq> NaN" by (rule le_not_NaN [THEN conjunct1])
  then have "c \<noteq> NaN" by (auto simp: Math_max_def)
  then have "Fin ms \<le> Math_max (Fin ms) c" by (intro Math_max_ge) simp_all
  then obtain b1 where b1: "Math_max (Fin ms) c = Fin b1" "ms \<le> b1"
    using m by (cases "Math_max (Fin ms) c") simp_all
  with m have "b1 \<le> b2" by simp
  then show ?thesis using b1 by (simp add: sampleBudget64_def c_def)
qed

lemma sampleCount64_shares:
  assumes "0 \<le> ms" "0 \<le> d" "length ps = length qs"
    and "chainLength64 ps = Fin L1" "chainLength64 qs = Fin L2" "L1 \<le> L2"
    and sh: "\<forall>i<length ps - 1. segmentLengths64 ps ! i / totalLength64 ps
                = segmentLengths64 qs ! i / totalLength64 qs"
    and "sampleBudget64 (Fin ms) (Fin d) qs = Fin b2"
    and "sampleCount64 pw (Fin ms) (Fin d) alpha qs prevQ nextQ = Some n2"
  shows "\<exists>n1\<le>n2. sampleCount64 pw (Fin ms) (Fin d) alpha ps prevP nextP = Some n1"
proof -
  have "sampleBudget64 (Fin ms) (Fin d) ps \<le> Fin b2"
    using sampleBudget64_length [OF assms(4,5,6,2), of ms] by (simp add: assms(8))
  then obtain b1 where b1: "sampleBudget64 (Fin ms) (Fin d) ps = Fin b1" "ms \<le> b1" "b1 \<le> b2"
    using sampleBudget64_finite by blast
  have b0: "0 \<le> b1" using assms(1) b1(2) by simp
  show ?thesis
  proof (cases "length ps < 2")
    case True
    then show ?thesis
      using assms(9) assms(3)
      by (simp add: sampleCount64_def segmentSamples64_def length_sampleCurve64)
  next
    case False
    then have Fq: "\<not> length qs < 2" using assms(3) by simp
    define c2 where "c2 = map (\<lambda>i. iterations (steps64 qs (Fin b2) i)) [0..<length qs - 1]"
    define c1 where "c1 = map (\<lambda>i. iterations (steps64 ps (Fin b1) i)) [0..<length ps - 1]"
    from assms(9) Fq obtain m2 where m2: "sumCounts c2 = Some m2" "m2 < 2 ^ 32 - 1" "n2 = m2 + 1"
      unfolding sampleCount64_def segmentSamples64_def length_sampleCurve64 assms(8) c2_def [symmetric]
      by (auto split: option.splits if_splits)
    have "\<exists>m1\<le>m2. sumCounts c1 = Some m1"
    proof (rule sumCounts_mono [OF _ _ m2(1)])
      show "length c1 = length c2" by (simp add: c1_def c2_def assms(3))
      fix i k2 assume i: "i < length c2" and k: "c2 ! i = Some k2"
      then have "iterations (steps64 qs (Fin b2) i) = Some k2" by (simp add: c2_def)
      moreover have "segmentLengths64 qs ! i / totalLength64 qs
          = segmentLengths64 ps ! i / totalLength64 ps"
        using sh i by (simp add: c2_def assms(3))
      ultimately have "\<exists>k1\<le>k2. iterations (steps64 ps (Fin b1) i) = Some k1"
        unfolding steps64_def using b0 b1(3) by (intro iterations_budget_mono) simp_all
      then show "\<exists>k1\<le>k2. c1 ! i = Some k1" using i by (simp add: c1_def c2_def assms(3))
    qed
    then obtain m1 where m1: "sumCounts c1 = Some m1" "m1 \<le> m2" by auto
    then have "sampleCount64 pw (Fin ms) (Fin d) alpha ps prevP nextP = Some (m1 + 1)"
      using False m2(2)
      unfolding sampleCount64_def segmentSamples64_def length_sampleCurve64 b1(1) c1_def [symmetric]
      by simp
    then show ?thesis using m1(2) m2(3) by simp
  qed
qed

text \<open>
  Claim C9, as the code has it. With everything else fixed, the number of samples
  \<open>buildPath\<close> takes for a chain does not go down when \<open>sampleDensity\<close> goes up: when the
  run with the greater density returns, on a finite budget, the run with the smaller one
  returns too, with no more samples. The budget does not go down when the measured length of
  the chain goes up. And of two chains with the same number of points and the same computed
  share for every hop, the one that is not longer gets no more samples.
\<close>

theorem sample_count_monotone:
  "(0 \<le> ms \<and> d1 \<le> d2 \<and> chainLength64 points = Fin L \<and>
    sampleBudget64 (Fin ms) (Fin d2) points = Fin b2 \<and>
    sampleCount64 pw (Fin ms) (Fin d2) alpha points prevPoint nextPoint = Some n2 \<longrightarrow>
      (\<exists>n1\<le>n2. sampleCount64 pw (Fin ms) (Fin d1) alpha points prevPoint nextPoint = Some n1)) \<and>
   (chainLength64 ps = Fin L1 \<and> chainLength64 qs = Fin L2 \<and> L1 \<le> L2 \<and> 0 \<le> d \<longrightarrow>
      sampleBudget64 (Fin m) (Fin d) ps \<le> sampleBudget64 (Fin m) (Fin d) qs) \<and>
   (0 \<le> m \<and> 0 \<le> d \<and> length ps = length qs \<and>
    chainLength64 ps = Fin L1 \<and> chainLength64 qs = Fin L2 \<and> L1 \<le> L2 \<and>
    (\<forall>i<length ps - 1. segmentLengths64 ps ! i / totalLength64 ps
                = segmentLengths64 qs ! i / totalLength64 qs) \<and>
    sampleBudget64 (Fin m) (Fin d) qs = Fin b \<and>
    sampleCount64 pw (Fin m) (Fin d) alpha qs prevQ nextQ = Some k2 \<longrightarrow>
      (\<exists>k1\<le>k2. sampleCount64 pw (Fin m) (Fin d) alpha ps prevP nextP = Some k1))"
proof (intro conjI impI)
  assume "0 \<le> ms \<and> d1 \<le> d2 \<and> chainLength64 points = Fin L \<and>
    sampleBudget64 (Fin ms) (Fin d2) points = Fin b2 \<and>
    sampleCount64 pw (Fin ms) (Fin d2) alpha points prevPoint nextPoint = Some n2"
  then show "\<exists>n1\<le>n2. sampleCount64 pw (Fin ms) (Fin d1) alpha points prevPoint nextPoint = Some n1"
    using sampleCount64_density by blast
next
  assume "chainLength64 ps = Fin L1 \<and> chainLength64 qs = Fin L2 \<and> L1 \<le> L2 \<and> 0 \<le> d"
  then show "sampleBudget64 (Fin m) (Fin d) ps \<le> sampleBudget64 (Fin m) (Fin d) qs"
    using sampleBudget64_length by blast
next
  assume a: "0 \<le> m \<and> 0 \<le> d \<and> length ps = length qs \<and>
    chainLength64 ps = Fin L1 \<and> chainLength64 qs = Fin L2 \<and> L1 \<le> L2 \<and>
    (\<forall>i<length ps - 1. segmentLengths64 ps ! i / totalLength64 ps
                = segmentLengths64 qs ! i / totalLength64 qs) \<and>
    sampleBudget64 (Fin m) (Fin d) qs = Fin b \<and>
    sampleCount64 pw (Fin m) (Fin d) alpha qs prevQ nextQ = Some k2"
  show "\<exists>k1\<le>k2. sampleCount64 pw (Fin m) (Fin d) alpha ps prevP nextP = Some k1"
    by (rule sampleCount64_shares [where qs = qs and ?L1.0 = L1 and ?L2.0 = L2 and ?b2.0 = b
          and prevQ = prevQ and nextQ = nextQ]) (use a in simp_all)
qed

section \<open>Samples and their control points in binary64\<close>

subsection \<open>Error bounds\<close>

















subsection \<open>One coordinate of a sample\<close>















subsection \<open>Samples and the box of their control points\<close>









section \<open>Runs of the sampler in binary64\<close>

subsection \<open>Roundings of concrete runs\<close>

text \<open>
  The roundings that occur in the runs of the next subsection, each proved from the
  definition of \<open>rnd\<close> by giving the exponent and the significand of the result, and with
  them the control points, the numbers of steps, the first samples, the lengths, the budgets
  and the numbers of samples of these runs.
\<close>

lemma binary64_1: "rnd (1 / 1000000) = Fin (4722366482869645 / 4722366482869645213696)"
  by (rule rnd_eqI [where e = "- 20" and m = 4722366482869645]) simp_all

lemma binary64_2: "rnd (7 / 10) = Fin (3152519739159347 / 4503599627370496)"
  by (rule rnd_eqI [where e = "- 1" and m = 6305039478318694]) simp_all

lemma binary64_3: "rnd (4503599627370496 / 5854679515581645) = Fin (866076851417403 / 1125899906842624)"
  by (rule rnd_eqI [where e = "- 1" and m = 6928614811339224]) simp_all

lemma binary64_4: "rnd (5070602400912917328842220367935 / 5070602400912917605986812821504) = Fin 1"
  by (rule rnd_eqI [where e = "- 1" and m = 9007199254740992]) simp_all

lemma binary64_5: "rnd (5854679515581645 / 4503599627370496) = Fin (5854679515581645 / 4503599627370496)"
  by (rule rnd_eqI [where e = 0 and m = 5854679515581645]) simp_all

lemma binary64_6: "rnd (34277272230171325358342660906025 / 20282409603651670423947251286016) = Fin (7611083370256139 / 4503599627370496)"
  by (rule rnd_eqI [where e = 0 and m = 7611083370256139]) simp_all

lemma binary64_7: "rnd (7611083370256139 / 4503599627370496) = Fin (7611083370256139 / 4503599627370496)"
  by (rule rnd_eqI [where e = 0 and m = 7611083370256139]) simp_all

lemma binary64_8: "rnd 2 = Fin 2"
  by (rule rnd_eqI [where e = 1 and m = 4503599627370496]) simp_all

lemma binary64_9: "rnd (12159718993900339 / 4503599627370496) = Fin (3039929748475085 / 1125899906842624)"
  by (rule rnd_tieI [where e = 1 and f = 6079859496950169 and m = 6079859496950170]) simp_all

lemma binary64_10: "rnd 4 = Fin 4"
  by (rule rnd_eqI [where e = 2 and m = 4503599627370496]) simp_all

lemma binary64_11: "rnd (sqrt (7611083370256139 / 4503599627370496)) = Fin (5854679515581645 / 4503599627370496)"
  by (rule rnd_sqrtI [where e = 0 and m = 5854679515581645]) (simp_all add: power2_eq_square)

lemma extended_c3:
  "extended64 [Vec64 (rnd (7 / 10)) (Fin 0) (Fin 0), Vec64 (Fin 2) (Fin 0) (Fin 0)] None None =
     [Vec64 (Fin (3039929748475085 / 1125899906842624)) (Fin 0) (Fin 0), Vec64 (Fin (3152519739159347 / 4503599627370496)) (Fin 0) (Fin 0), Vec64 (Fin 2) (Fin 0) (Fin 0), Vec64 (Fin 4) (Fin 0) (Fin 0)]"
  by (simp add: extended64_def startExtra64_def endExtra64_def extrapolate64_def sub64_def add64_def mulScalar64_def normalize64_def lengthSq64_def EPSILON64_def Let_def rnd_minus
      binary64_1 binary64_2 binary64_3 binary64_4 binary64_5 binary64_6 binary64_7 binary64_8 binary64_9 binary64_10 binary64_11)

lemma binary64_12: "rnd 1 = Fin 1"
  by (rule rnd_eqI [where e = 0 and m = 4503599627370496]) simp_all

lemma binary64_13: "rnd 24 = Fin 24"
  by (rule rnd_eqI [where e = 4 and m = 6755399441055744]) simp_all

lemma steps_c3:
  "steps64 [Vec64 (rnd (7 / 10)) (Fin 0) (Fin 0), Vec64 (Fin 2) (Fin 0) (Fin 0)] (Fin 24) 0 = Fin 24"
  by (simp add: round_def steps64_def segmentLengths64_def totalLength64_def chainLength64_def distance64_def Math_max_def Let_def rnd_minus
      binary64_1 binary64_2 binary64_3 binary64_4 binary64_12 binary64_5 binary64_6 binary64_7 binary64_8 binary64_9 binary64_10 binary64_13 binary64_11)

lemma binary64_14: "rnd (1 / 9007199254740992) = Fin (1 / 9007199254740992)"
  by (rule rnd_eqI [where e = "- 53" and m = 4503599627370496]) simp_all

lemma binary64_15: "rnd (1 / 4503599627370496) = Fin (1 / 4503599627370496)"
  by (rule rnd_eqI [where e = "- 52" and m = 4503599627370496]) simp_all

lemma binary64_16: "rnd (1 / 10000) = Fin (7378697629483821 / 73786976294838206464)"
  by (rule rnd_eqI [where e = "- 14" and m = 7378697629483821]) simp_all

lemma binary64_17: "rnd (1 / 2) = Fin (1 / 2)"
  by (rule rnd_eqI [where e = "- 1" and m = 4503599627370496]) simp_all

lemma binary64_18: "rnd (3152519739159347 / 4503599627370496) = Fin (3152519739159347 / 4503599627370496)"
  by (rule rnd_eqI [where e = "- 1" and m = 6305039478318694]) simp_all

lemma binary64_19: "rnd (6305039478318695 / 9007199254740992) = Fin (6305039478318695 / 9007199254740992)"
  by (rule rnd_eqI [where e = "- 1" and m = 6305039478318695]) simp_all

lemma binary64_20: "rnd (788129934789837 / 1125899906842624) = Fin (788129934789837 / 1125899906842624)"
  by (rule rnd_eqI [where e = "- 1" and m = 6305039478318696]) simp_all

lemma binary64_21: "rnd (9007199254740993 / 4503599627370496) = Fin 2"
  by (rule rnd_tieI [where e = 1 and f = 4503599627370496 and m = 4503599627370496]) simp_all

lemma binary64_22: "rnd 3 = Fin 3"
  by (rule rnd_eqI [where e = 1 and m = 6755399441055744]) simp_all

lemma binary64_23: "rnd (sqrt 4) = Fin 2"
  by (rule rnd_sqrtI [where e = 1 and m = 4503599627370496]) (simp_all add: power2_eq_square)

lemma catmullRom_c3:
  "catmullRom64 pw (Vec64 (Fin (3039929748475085 / 1125899906842624)) (Fin 0) (Fin 0)) (Vec64 (Fin (3152519739159347 / 4503599627370496)) (Fin 0) (Fin 0)) (Vec64 (Fin 2) (Fin 0) (Fin 0)) (Vec64 (Fin 4) (Fin 0) (Fin 0)) (Fin 0) (Fin 0) =
     Vec64 (Fin (6305039478318695 / 9007199254740992)) (Fin 0) (Fin 0)"
  by (simp add: catmullRom64_def getT64_def Math_max_def Math_min_def distance64_def lerpVec364_def lerp64_def safeDivide64_def EPSILON64_def Let_def rnd_minus
      binary64_14 binary64_15 binary64_1 binary64_16 binary64_17 binary64_18 binary64_2 binary64_19 binary64_20 binary64_3 binary64_4 binary64_12 binary64_5 binary64_6 binary64_7 binary64_8 binary64_21 binary64_9 binary64_22 binary64_10 binary64_13 binary64_11 binary64_23)

























lemma binary64_44: "rnd (sqrt 1) = Fin 1"
  by (rule rnd_sqrtI [where e = 0 and m = 4503599627370496]) (simp_all add: power2_eq_square)


lemma binary64_45: "rnd (1 / 10) = Fin (3602879701896397 / 36028797018963968)"
  by (rule rnd_eqI [where e = "- 4" and m = 7205759403792794]) simp_all

lemma binary64_46: "rnd (18014398509481985 / 18014398509481984) = Fin 1"
  by (rule rnd_eqI [where e = 0 and m = 4503599627370496]) simp_all

lemma binary64_47: "rnd 10 = Fin 10"
  by (rule rnd_eqI [where e = 3 and m = 5629499534213120]) simp_all

lemma binary64_48: "rnd 12 = Fin 12"
  by (rule rnd_eqI [where e = 3 and m = 6755399441055744]) simp_all

lemma binary64_49: "rnd 100 = Fin 100"
  by (rule rnd_eqI [where e = 6 and m = 7036874417766400]) simp_all

lemma binary64_50: "rnd (sqrt 100) = Fin 10"
  by (rule rnd_sqrtI [where e = 3 and m = 5629499534213120]) (simp_all add: power2_eq_square)

lemma extended64_two_points:
  "extended64 [Vec64 (Fin 0) (Fin 0) (Fin 0), Vec64 (Fin 10) (Fin 0) (Fin 0)] None None =
     [Vec64 (Fin 2) (Fin 0) (Fin 0), Vec64 (Fin 0) (Fin 0) (Fin 0), Vec64 (Fin 10) (Fin 0) (Fin 0), Vec64 (Fin 12) (Fin 0) (Fin 0)]"
  by (simp add: extended64_def startExtra64_def endExtra64_def extrapolate64_def sub64_def add64_def mulScalar64_def normalize64_def lengthSq64_def EPSILON64_def Let_def rnd_minus
      binary64_1 binary64_45 binary64_46 binary64_8 binary64_47 binary64_48 binary64_49 binary64_50)

lemma binary64_51: "rnd (2589569785738035 / 2251799813685248) = Fin (2589569785738035 / 2251799813685248)"
  by (rule rnd_eqI [where e = 0 and m = 5179139571476070]) simp_all

lemma binary64_52: "rnd (23 / 20) = Fin (2589569785738035 / 2251799813685248)"
  by (rule rnd_eqI [where e = 0 and m = 5179139571476070]) simp_all

lemma binary64_53: "rnd (5 / 4) = Fin (5 / 4)"
  by (rule rnd_eqI [where e = 0 and m = 5629499534213120]) simp_all

lemma binary64_54: "rnd (744501313399685 / 562949953421312) = Fin (744501313399685 / 562949953421312)"
  by (rule rnd_eqI [where e = 0 and m = 5956010507197480]) simp_all

lemma binary64_55: "rnd (6705871675207332498089645661225 / 5070602400912917605986812821504) = Fin (744501313399685 / 562949953421312)"
  by (rule rnd_eqI [where e = 0 and m = 5956010507197480]) simp_all

lemma binary64_56: "rnd (25 / 16) = Fin (25 / 16)"
  by (rule rnd_eqI [where e = 0 and m = 7036874417766400]) simp_all

lemma binary64_57: "rnd (5404319552844595 / 2251799813685248) = Fin (5404319552844595 / 2251799813685248)"
  by (rule rnd_eqI [where e = 1 and m = 5404319552844595]) simp_all

lemma binary64_58: "rnd (12 / 5) = Fin (5404319552844595 / 2251799813685248)"
  by (rule rnd_eqI [where e = 1 and m = 5404319552844595]) simp_all

lemma binary64_59: "rnd (sqrt (744501313399685 / 562949953421312)) = Fin (2589569785738035 / 2251799813685248)"
  by (rule rnd_sqrtI [where e = 0 and m = 5179139571476070]) (simp_all add: power2_eq_square)

lemma binary64_60: "rnd (sqrt (25 / 16)) = Fin (5 / 4)"
  by (rule rnd_sqrtI [where e = 0 and m = 5629499534213120]) (simp_all add: power2_eq_square)

lemma chainLength_a:
  "chainLength64 ([Vec64 (Fin 0) (Fin 0) (Fin 0), Vec64 (rnd (23 / 20)) (Fin 0) (Fin 0), Vec64 (rnd (12 / 5)) (Fin 0) (Fin 0)]) = Fin (5404319552844595 / 2251799813685248)"
  by (simp add: chainLength64_def distance64_def scaleChain64_def mulScalar64_def Let_def rnd_minus
      binary64_51 binary64_52 binary64_53 binary64_54 binary64_55 binary64_56 binary64_57 binary64_58 binary64_59 binary64_60)

lemma binary64_61: "rnd (16212958658533785 / 1125899906842624) = Fin (2026619832316723 / 140737488355328)"
  by (rule rnd_tieI [where e = 3 and f = 8106479329266892 and m = 8106479329266892]) simp_all

lemma sampleBudget_a:
  "sampleBudget64 (Fin 24) (Fin 6) ([Vec64 (Fin 0) (Fin 0) (Fin 0), Vec64 (rnd (23 / 20)) (Fin 0) (Fin 0), Vec64 (rnd (12 / 5)) (Fin 0) (Fin 0)]) = Fin 24"
  unfolding sampleBudget64_def chainLength_a
  by (simp add: Math_max_def
      binary64_51 binary64_52 binary64_53 binary64_54 binary64_55 binary64_56 binary64_57 binary64_58 binary64_61 binary64_59 binary64_60)

lemma binary64_62: "rnd (517913957147607 / 1080863910568919) = Fin (4315949642896725 / 9007199254740992)"
  by (rule rnd_eqI [where e = "- 2" and m = 8631899285793450]) simp_all

lemma binary64_63: "rnd (12947848928690175 / 1125899906842624) = Fin (23 / 2)"
  by (rule rnd_tieI [where e = 3 and f = 6473924464345087 and m = 6473924464345088]) simp_all

lemma steps_a_0:
  "steps64 ([Vec64 (Fin 0) (Fin 0) (Fin 0), Vec64 (rnd (23 / 20)) (Fin 0) (Fin 0), Vec64 (rnd (12 / 5)) (Fin 0) (Fin 0)]) (Fin 24) 0 = Fin 12"
  unfolding steps64_def totalLength64_def chainLength_a
  by (simp add: segmentLengths64_def distance64_def scaleChain64_def mulScalar64_def Math_max_def Let_def
      round_def rnd_minus binary64_62 binary64_51 binary64_52 binary64_53 binary64_54 binary64_55 binary64_56 binary64_57 binary64_58 binary64_63 binary64_61 binary64_59 binary64_60)

lemma binary64_64: "rnd (562949953421312 / 1080863910568919) = Fin (4691249611844267 / 9007199254740992)"
  by (rule rnd_eqI [where e = "- 1" and m = 4691249611844267]) simp_all

lemma binary64_65: "rnd (14073748835532801 / 1125899906842624) = Fin (25 / 2)"
  by (rule rnd_tieI [where e = 3 and f = 7036874417766400 and m = 7036874417766400]) simp_all

lemma steps_a_1:
  "steps64 ([Vec64 (Fin 0) (Fin 0) (Fin 0), Vec64 (rnd (23 / 20)) (Fin 0) (Fin 0), Vec64 (rnd (12 / 5)) (Fin 0) (Fin 0)]) (Fin 24) (Suc 0) = Fin 13"
  unfolding steps64_def totalLength64_def chainLength_a
  by (simp add: segmentLengths64_def distance64_def scaleChain64_def mulScalar64_def Math_max_def Let_def
      round_def rnd_minus binary64_62 binary64_64 binary64_51 binary64_52 binary64_53 binary64_54 binary64_55 binary64_56 binary64_57 binary64_58 binary64_63 binary64_65 binary64_61 binary64_59 binary64_60)

lemma sampleCount_a:
  "sampleCount64 pw (Fin 24) (Fin 6) alpha ([Vec64 (Fin 0) (Fin 0) (Fin 0), Vec64 (rnd (23 / 20)) (Fin 0) (Fin 0), Vec64 (rnd (12 / 5)) (Fin 0) (Fin 0)]) prevPoint nextPoint = Some 26"
  unfolding sampleCount64_def segmentSamples64_def length_sampleCurve64 sampleBudget_a
  by (simp add: steps_a_0 steps_a_1 iterations_def upt_conv_Cons scaleChain64_def [symmetric])

lemma binary64_66: "rnd (5404319552844595 / 4503599627370496) = Fin (5404319552844595 / 4503599627370496)"
  by (rule rnd_eqI [where e = 0 and m = 5404319552844595]) simp_all

lemma binary64_67: "rnd (6 / 5) = Fin (5404319552844595 / 4503599627370496)"
  by (rule rnd_eqI [where e = 0 and m = 5404319552844595]) simp_all

lemma binary64_68: "rnd (29206669829258403248756220714025 / 20282409603651670423947251286016) = Fin (3242591731706757 / 2251799813685248)"
  by (rule rnd_eqI [where e = 0 and m = 6485183463413514]) simp_all

lemma binary64_69: "rnd (3242591731706757 / 2251799813685248) = Fin (3242591731706757 / 2251799813685248)"
  by (rule rnd_eqI [where e = 0 and m = 6485183463413514]) simp_all

lemma binary64_70: "rnd (5 / 2) = Fin (5 / 2)"
  by (rule rnd_eqI [where e = 1 and m = 5629499534213120]) simp_all

lemma binary64_71: "rnd (sqrt (3242591731706757 / 2251799813685248)) = Fin (5404319552844595 / 4503599627370496)"
  by (rule rnd_sqrtI [where e = 0 and m = 5404319552844595]) (simp_all add: power2_eq_square)

lemma chainLength_b:
  "chainLength64 ([Vec64 (Fin 0) (Fin 0) (Fin 0), Vec64 (rnd (6 / 5)) (Fin 0) (Fin 0), Vec64 (Fin (5 / 2)) (Fin 0) (Fin 0)]) = Fin (5 / 2)"
  by (simp add: chainLength64_def distance64_def scaleChain64_def mulScalar64_def Let_def rnd_minus
      binary64_66 binary64_67 binary64_5 binary64_68 binary64_69 binary64_6 binary64_7 binary64_70 binary64_71 binary64_11)

lemma binary64_72: "rnd 15 = Fin 15"
  by (rule rnd_eqI [where e = 3 and m = 8444249301319680]) simp_all

lemma sampleBudget_b:
  "sampleBudget64 (Fin 24) (Fin 6) ([Vec64 (Fin 0) (Fin 0) (Fin 0), Vec64 (rnd (6 / 5)) (Fin 0) (Fin 0), Vec64 (Fin (5 / 2)) (Fin 0) (Fin 0)]) = Fin 24"
  unfolding sampleBudget64_def chainLength_b
  by (simp add: Math_max_def
      binary64_66 binary64_67 binary64_5 binary64_68 binary64_69 binary64_6 binary64_7 binary64_70 binary64_72 binary64_71 binary64_11)

lemma binary64_73: "rnd (1080863910568919 / 2251799813685248) = Fin (1080863910568919 / 2251799813685248)"
  by (rule rnd_eqI [where e = "- 2" and m = 8646911284551352]) simp_all

lemma binary64_74: "rnd (3242591731706757 / 281474976710656) = Fin (3242591731706757 / 281474976710656)"
  by (rule rnd_eqI [where e = 3 and m = 6485183463413514]) simp_all

lemma steps_b_0:
  "steps64 ([Vec64 (Fin 0) (Fin 0) (Fin 0), Vec64 (rnd (6 / 5)) (Fin 0) (Fin 0), Vec64 (Fin (5 / 2)) (Fin 0) (Fin 0)]) (Fin 24) 0 = Fin 12"
  unfolding steps64_def totalLength64_def chainLength_b
  by (simp add: segmentLengths64_def distance64_def scaleChain64_def mulScalar64_def Math_max_def Let_def
      round_def rnd_minus binary64_73 binary64_66 binary64_67 binary64_5 binary64_68 binary64_69 binary64_6 binary64_7 binary64_70 binary64_74 binary64_72 binary64_71 binary64_11)

lemma binary64_75: "rnd (1170935903116329 / 2251799813685248) = Fin (1170935903116329 / 2251799813685248)"
  by (rule rnd_eqI [where e = "- 1" and m = 4683743612465316]) simp_all

lemma binary64_76: "rnd (3512807709348987 / 281474976710656) = Fin (3512807709348987 / 281474976710656)"
  by (rule rnd_eqI [where e = 3 and m = 7025615418697974]) simp_all

lemma steps_b_1:
  "steps64 ([Vec64 (Fin 0) (Fin 0) (Fin 0), Vec64 (rnd (6 / 5)) (Fin 0) (Fin 0), Vec64 (Fin (5 / 2)) (Fin 0) (Fin 0)]) (Fin 24) (Suc 0) = Fin 12"
  unfolding steps64_def totalLength64_def chainLength_b
  by (simp add: segmentLengths64_def distance64_def scaleChain64_def mulScalar64_def Math_max_def Let_def
      round_def rnd_minus binary64_73 binary64_75 binary64_66 binary64_67 binary64_5 binary64_68 binary64_69 binary64_6 binary64_7 binary64_70 binary64_74 binary64_76 binary64_72 binary64_71 binary64_11)

lemma sampleCount_b:
  "sampleCount64 pw (Fin 24) (Fin 6) alpha ([Vec64 (Fin 0) (Fin 0) (Fin 0), Vec64 (rnd (6 / 5)) (Fin 0) (Fin 0), Vec64 (Fin (5 / 2)) (Fin 0) (Fin 0)]) prevPoint nextPoint = Some 25"
  unfolding sampleCount64_def segmentSamples64_def length_sampleCurve64 sampleBudget_b
  by (simp add: steps_b_0 steps_b_1 iterations_def upt_conv_Cons scaleChain64_def [symmetric])

lemma binary64_77: "rnd (59560105071974805 / 36028797018963968) = Fin (7445013133996851 / 4503599627370496)"
  by (rule rnd_eqI [where e = 0 and m = 7445013133996851]) simp_all

lemma binary64_78: "rnd (7445013133996851 / 4503599627370496) = Fin (7445013133996851 / 4503599627370496)"
  by (rule rnd_eqI [where e = 0 and m = 7445013133996851]) simp_all

lemma binary64_79: "rnd (8092405580431359 / 4503599627370496) = Fin (8092405580431359 / 4503599627370496)"
  by (rule rnd_eqI [where e = 0 and m = 8092405580431359]) simp_all

lemma binary64_80: "rnd (55428220565385613263282077916201 / 20282409603651670423947251286016) = Fin (769221083571159 / 281474976710656)"
  by (rule rnd_eqI [where e = 1 and m = 6153768668569272]) simp_all

lemma binary64_81: "rnd (769221083571159 / 281474976710656) = Fin (769221083571159 / 281474976710656)"
  by (rule rnd_eqI [where e = 1 and m = 6153768668569272]) simp_all

lemma binary64_82: "rnd (3635260319334399 / 1125899906842624) = Fin (3635260319334399 / 1125899906842624)"
  by (rule rnd_eqI [where e = 1 and m = 7270520638668798]) simp_all

lemma binary64_83: "rnd (65487028078196600357352510586881 / 20282409603651670423947251286016) = Fin (3635260319334399 / 1125899906842624)"
  by (rule rnd_eqI [where e = 1 and m = 7270520638668798]) simp_all

lemma binary64_84: "rnd (7768709357214105 / 2251799813685248) = Fin (7768709357214105 / 2251799813685248)"
  by (rule rnd_eqI [where e = 1 and m = 7768709357214105]) simp_all

lemma binary64_85: "rnd (124299349715425685 / 36028797018963968) = Fin (7768709357214105 / 2251799813685248)"
  by (rule rnd_eqI [where e = 1 and m = 7768709357214105]) simp_all

lemma binary64_86: "rnd (sqrt (769221083571159 / 281474976710656)) = Fin (7445013133996851 / 4503599627370496)"
  by (rule rnd_sqrtI [where e = 0 and m = 7445013133996851]) (simp_all add: power2_eq_square)

lemma binary64_87: "rnd (sqrt (3635260319334399 / 1125899906842624)) = Fin (8092405580431359 / 4503599627370496)"
  by (rule rnd_sqrtI [where e = 0 and m = 8092405580431359]) (simp_all add: power2_eq_square)

lemma chainLength_a_scaled:
  "chainLength64 (scaleChain64 (Fin (23 / 16)) [Vec64 (Fin 0) (Fin 0) (Fin 0), Vec64 (rnd (23 / 20)) (Fin 0) (Fin 0), Vec64 (rnd (12 / 5)) (Fin 0) (Fin 0)]) = Fin (7768709357214105 / 2251799813685248)"
  by (simp add: chainLength64_def distance64_def scaleChain64_def mulScalar64_def Let_def rnd_minus
      binary64_52 binary64_77 binary64_78 binary64_79 binary64_58 binary64_80 binary64_81 binary64_82 binary64_83 binary64_84 binary64_85 binary64_86 binary64_87)

lemma binary64_88: "rnd (23306128071642315 / 1125899906842624) = Fin (5826532017910579 / 281474976710656)"
  by (rule rnd_eqI [where e = 4 and m = 5826532017910579]) simp_all

lemma sampleBudget_a_scaled:
  "sampleBudget64 (Fin 24) (Fin 6) (scaleChain64 (Fin (23 / 16)) [Vec64 (Fin 0) (Fin 0) (Fin 0), Vec64 (rnd (23 / 20)) (Fin 0) (Fin 0), Vec64 (rnd (12 / 5)) (Fin 0) (Fin 0)]) = Fin 24"
  unfolding sampleBudget64_def chainLength_a_scaled
  by (simp add: Math_max_def
      binary64_52 binary64_77 binary64_78 binary64_79 binary64_58 binary64_80 binary64_81 binary64_82 binary64_83 binary64_84 binary64_85 binary64_88 binary64_86 binary64_87)

lemma binary64_89: "rnd (2481671044665617 / 5179139571476070) = Fin (8631899285793451 / 18014398509481984)"
  by (rule rnd_eqI [where e = "- 2" and m = 8631899285793451]) simp_all

lemma binary64_90: "rnd (25895697857380353 / 2251799813685248) = Fin (23 / 2)"
  by (rule rnd_eqI [where e = 3 and m = 6473924464345088]) simp_all

lemma steps_a_scaled_0:
  "steps64 (scaleChain64 (Fin (23 / 16)) [Vec64 (Fin 0) (Fin 0) (Fin 0), Vec64 (rnd (23 / 20)) (Fin 0) (Fin 0), Vec64 (rnd (12 / 5)) (Fin 0) (Fin 0)]) (Fin 24) 0 = Fin 12"
  unfolding steps64_def totalLength64_def chainLength_a_scaled
  by (simp add: segmentLengths64_def distance64_def scaleChain64_def mulScalar64_def Math_max_def Let_def
      round_def rnd_minus binary64_89 binary64_52 binary64_77 binary64_78 binary64_79 binary64_58 binary64_80 binary64_81 binary64_82 binary64_83 binary64_84 binary64_85 binary64_90 binary64_88 binary64_86 binary64_87)

lemma binary64_91: "rnd (2697468526810453 / 5179139571476070) = Fin (2345624805922133 / 4503599627370496)"
  by (rule rnd_eqI [where e = "- 1" and m = 4691249611844266]) simp_all

lemma binary64_92: "rnd (7036874417766399 / 562949953421312) = Fin (7036874417766399 / 562949953421312)"
  by (rule rnd_eqI [where e = 3 and m = 7036874417766399]) simp_all

lemma steps_a_scaled_1:
  "steps64 (scaleChain64 (Fin (23 / 16)) [Vec64 (Fin 0) (Fin 0) (Fin 0), Vec64 (rnd (23 / 20)) (Fin 0) (Fin 0), Vec64 (rnd (12 / 5)) (Fin 0) (Fin 0)]) (Fin 24) (Suc 0) = Fin 12"
  unfolding steps64_def totalLength64_def chainLength_a_scaled
  by (simp add: segmentLengths64_def distance64_def scaleChain64_def mulScalar64_def Math_max_def Let_def
      round_def rnd_minus binary64_89 binary64_91 binary64_52 binary64_77 binary64_78 binary64_79 binary64_58 binary64_80 binary64_81 binary64_82 binary64_83 binary64_84 binary64_85 binary64_90 binary64_92 binary64_88 binary64_86 binary64_87)

lemma sampleCount_a_scaled:
  "sampleCount64 pw (Fin 24) (Fin 6) alpha (scaleChain64 (Fin (23 / 16)) [Vec64 (Fin 0) (Fin 0) (Fin 0), Vec64 (rnd (23 / 20)) (Fin 0) (Fin 0), Vec64 (rnd (12 / 5)) (Fin 0) (Fin 0)]) prevPoint nextPoint = Some 25"
  unfolding sampleCount64_def segmentSamples64_def length_sampleCurve64 sampleBudget_a_scaled
  by (simp add: steps_a_scaled_0 steps_a_scaled_1 iterations_def upt_conv_Cons scaleChain64_def [symmetric])

lemma binary64_93: "rnd 9 = Fin 9"
  by (rule rnd_eqI [where e = 3 and m = 5066549580791808]) simp_all

lemma binary64_94: "rnd (sqrt 9) = Fin 3"
  by (rule rnd_sqrtI [where e = 1 and m = 6755399441055744]) (simp_all add: power2_eq_square)

lemma chainLength_w6:
  "chainLength64 ([Vec64 (Fin 0) (Fin 0) (Fin 0), Vec64 (Fin 1) (Fin 0) (Fin 0), Vec64 (Fin 4) (Fin 0) (Fin 0)]) = Fin 4"
  by (simp add: chainLength64_def distance64_def scaleChain64_def mulScalar64_def Let_def rnd_minus
      binary64_12 binary64_22 binary64_10 binary64_93 binary64_44 binary64_94)

lemma sampleBudget_w6:
  "sampleBudget64 (Fin 24) (Fin 6) ([Vec64 (Fin 0) (Fin 0) (Fin 0), Vec64 (Fin 1) (Fin 0) (Fin 0), Vec64 (Fin 4) (Fin 0) (Fin 0)]) = Fin 24"
  unfolding sampleBudget64_def chainLength_w6
  by (simp add: Math_max_def
      binary64_12 binary64_22 binary64_10 binary64_93 binary64_13 binary64_44 binary64_94)

lemma binary64_95: "rnd (1 / 4) = Fin (1 / 4)"
  by (rule rnd_eqI [where e = "- 2" and m = 4503599627370496]) simp_all

lemma binary64_96: "rnd 6 = Fin 6"
  by (rule rnd_eqI [where e = 2 and m = 6755399441055744]) simp_all

lemma steps_w6_0:
  "steps64 ([Vec64 (Fin 0) (Fin 0) (Fin 0), Vec64 (Fin 1) (Fin 0) (Fin 0), Vec64 (Fin 4) (Fin 0) (Fin 0)]) (Fin 24) 0 = Fin 6"
  unfolding steps64_def totalLength64_def chainLength_w6
  by (simp add: segmentLengths64_def distance64_def scaleChain64_def mulScalar64_def Math_max_def Let_def
      round_def rnd_minus binary64_95 binary64_12 binary64_22 binary64_10 binary64_96 binary64_93 binary64_13 binary64_44 binary64_94)

lemma binary64_97: "rnd (3 / 4) = Fin (3 / 4)"
  by (rule rnd_eqI [where e = "- 1" and m = 6755399441055744]) simp_all

lemma binary64_98: "rnd 18 = Fin 18"
  by (rule rnd_eqI [where e = 4 and m = 5066549580791808]) simp_all

lemma steps_w6_1:
  "steps64 ([Vec64 (Fin 0) (Fin 0) (Fin 0), Vec64 (Fin 1) (Fin 0) (Fin 0), Vec64 (Fin 4) (Fin 0) (Fin 0)]) (Fin 24) (Suc 0) = Fin 18"
  unfolding steps64_def totalLength64_def chainLength_w6
  by (simp add: segmentLengths64_def distance64_def scaleChain64_def mulScalar64_def Math_max_def Let_def
      round_def rnd_minus binary64_95 binary64_97 binary64_12 binary64_22 binary64_10 binary64_96 binary64_93 binary64_98 binary64_13 binary64_44 binary64_94)

lemma sampleCount_w6:
  "sampleCount64 pw (Fin 24) (Fin 6) alpha ([Vec64 (Fin 0) (Fin 0) (Fin 0), Vec64 (Fin 1) (Fin 0) (Fin 0), Vec64 (Fin 4) (Fin 0) (Fin 0)]) prevPoint nextPoint = Some 25"
  unfolding sampleCount64_def segmentSamples64_def length_sampleCurve64 sampleBudget_w6
  by (simp add: steps_w6_0 steps_w6_1 iterations_def upt_conv_Cons scaleChain64_def [symmetric])

lemma chainLength_w12:
  "chainLength64 ([Vec64 (Fin 0) (Fin 0) (Fin 0), Vec64 (Fin 1) (Fin 0) (Fin 0), Vec64 (Fin 4) (Fin 0) (Fin 0)]) = Fin 4"
  by (simp add: chainLength64_def distance64_def scaleChain64_def mulScalar64_def Let_def rnd_minus
      binary64_12 binary64_22 binary64_10 binary64_93 binary64_44 binary64_94)

lemma binary64_99: "rnd 48 = Fin 48"
  by (rule rnd_eqI [where e = 5 and m = 6755399441055744]) simp_all

lemma sampleBudget_w12:
  "sampleBudget64 (Fin 24) (Fin 12) ([Vec64 (Fin 0) (Fin 0) (Fin 0), Vec64 (Fin 1) (Fin 0) (Fin 0), Vec64 (Fin 4) (Fin 0) (Fin 0)]) = Fin 48"
  unfolding sampleBudget64_def chainLength_w12
  by (simp add: Math_max_def
      binary64_12 binary64_22 binary64_10 binary64_93 binary64_99 binary64_44 binary64_94)

lemma steps_w12_0:
  "steps64 ([Vec64 (Fin 0) (Fin 0) (Fin 0), Vec64 (Fin 1) (Fin 0) (Fin 0), Vec64 (Fin 4) (Fin 0) (Fin 0)]) (Fin 48) 0 = Fin 12"
  unfolding steps64_def totalLength64_def chainLength_w12
  by (simp add: segmentLengths64_def distance64_def scaleChain64_def mulScalar64_def Math_max_def Let_def
      round_def rnd_minus binary64_95 binary64_12 binary64_22 binary64_10 binary64_93 binary64_48 binary64_99 binary64_44 binary64_94)

lemma binary64_100: "rnd 36 = Fin 36"
  by (rule rnd_eqI [where e = 5 and m = 5066549580791808]) simp_all

lemma steps_w12_1:
  "steps64 ([Vec64 (Fin 0) (Fin 0) (Fin 0), Vec64 (Fin 1) (Fin 0) (Fin 0), Vec64 (Fin 4) (Fin 0) (Fin 0)]) (Fin 48) (Suc 0) = Fin 36"
  unfolding steps64_def totalLength64_def chainLength_w12
  by (simp add: segmentLengths64_def distance64_def scaleChain64_def mulScalar64_def Math_max_def Let_def
      round_def rnd_minus binary64_95 binary64_97 binary64_12 binary64_22 binary64_10 binary64_93 binary64_48 binary64_100 binary64_99 binary64_44 binary64_94)

lemma sampleCount_w12:
  "sampleCount64 pw (Fin 24) (Fin 12) alpha ([Vec64 (Fin 0) (Fin 0) (Fin 0), Vec64 (Fin 1) (Fin 0) (Fin 0), Vec64 (Fin 4) (Fin 0) (Fin 0)]) prevPoint nextPoint = Some 49"
  unfolding sampleCount64_def segmentSamples64_def length_sampleCurve64 sampleBudget_w12
  by (simp add: steps_w12_0 steps_w12_1 iterations_def upt_conv_Cons scaleChain64_def [symmetric])

lemma binary64_101: "rnd 8 = Fin 8"
  by (rule rnd_eqI [where e = 3 and m = 4503599627370496]) simp_all

lemma binary64_102: "rnd (sqrt 36) = Fin 6"
  by (rule rnd_sqrtI [where e = 2 and m = 6755399441055744]) (simp_all add: power2_eq_square)

lemma chainLength_v6:
  "chainLength64 ([Vec64 (Fin 0) (Fin 0) (Fin 0), Vec64 (Fin 2) (Fin 0) (Fin 0), Vec64 (Fin 8) (Fin 0) (Fin 0)]) = Fin 8"
  by (simp add: chainLength64_def distance64_def scaleChain64_def mulScalar64_def Let_def rnd_minus
      binary64_8 binary64_10 binary64_96 binary64_101 binary64_100 binary64_23 binary64_102)

lemma sampleBudget_v6:
  "sampleBudget64 (Fin 24) (Fin 6) ([Vec64 (Fin 0) (Fin 0) (Fin 0), Vec64 (Fin 2) (Fin 0) (Fin 0), Vec64 (Fin 8) (Fin 0) (Fin 0)]) = Fin 48"
  unfolding sampleBudget64_def chainLength_v6
  by (simp add: Math_max_def
      binary64_8 binary64_10 binary64_96 binary64_101 binary64_100 binary64_99 binary64_23 binary64_102)

lemma steps_v6_0:
  "steps64 ([Vec64 (Fin 0) (Fin 0) (Fin 0), Vec64 (Fin 2) (Fin 0) (Fin 0), Vec64 (Fin 8) (Fin 0) (Fin 0)]) (Fin 48) 0 = Fin 12"
  unfolding steps64_def totalLength64_def chainLength_v6
  by (simp add: segmentLengths64_def distance64_def scaleChain64_def mulScalar64_def Math_max_def Let_def
      round_def rnd_minus binary64_95 binary64_8 binary64_10 binary64_96 binary64_101 binary64_48 binary64_100 binary64_99 binary64_23 binary64_102)

lemma steps_v6_1:
  "steps64 ([Vec64 (Fin 0) (Fin 0) (Fin 0), Vec64 (Fin 2) (Fin 0) (Fin 0), Vec64 (Fin 8) (Fin 0) (Fin 0)]) (Fin 48) (Suc 0) = Fin 36"
  unfolding steps64_def totalLength64_def chainLength_v6
  by (simp add: segmentLengths64_def distance64_def scaleChain64_def mulScalar64_def Math_max_def Let_def
      round_def rnd_minus binary64_95 binary64_97 binary64_8 binary64_10 binary64_96 binary64_101 binary64_48 binary64_100 binary64_99 binary64_23 binary64_102)

lemma sampleCount_v6:
  "sampleCount64 pw (Fin 24) (Fin 6) alpha ([Vec64 (Fin 0) (Fin 0) (Fin 0), Vec64 (Fin 2) (Fin 0) (Fin 0), Vec64 (Fin 8) (Fin 0) (Fin 0)]) prevPoint nextPoint = Some 49"
  unfolding sampleCount64_def segmentSamples64_def length_sampleCurve64 sampleBudget_v6
  by (simp add: steps_v6_0 steps_v6_1 iterations_def upt_conv_Cons scaleChain64_def [symmetric])

lemma share_w_0:
  "segmentLengths64 [Vec64 (Fin 0) (Fin 0) (Fin 0), Vec64 (Fin 1) (Fin 0) (Fin 0), Vec64 (Fin 4) (Fin 0) (Fin 0)] ! 0 / totalLength64 [Vec64 (Fin 0) (Fin 0) (Fin 0), Vec64 (Fin 1) (Fin 0) (Fin 0), Vec64 (Fin 4) (Fin 0) (Fin 0)] = Fin (1 / 4)"
  by (simp add: segmentLengths64_def totalLength64_def chainLength64_def distance64_def
      Let_def rnd_minus binary64_95 binary64_12 binary64_22 binary64_10 binary64_93 binary64_44 binary64_94)

lemma share_w_1:
  "segmentLengths64 [Vec64 (Fin 0) (Fin 0) (Fin 0), Vec64 (Fin 1) (Fin 0) (Fin 0), Vec64 (Fin 4) (Fin 0) (Fin 0)] ! Suc 0 / totalLength64 [Vec64 (Fin 0) (Fin 0) (Fin 0), Vec64 (Fin 1) (Fin 0) (Fin 0), Vec64 (Fin 4) (Fin 0) (Fin 0)] = Fin (3 / 4)"
  by (simp add: segmentLengths64_def totalLength64_def chainLength64_def distance64_def
      Let_def rnd_minus binary64_95 binary64_97 binary64_12 binary64_22 binary64_10 binary64_93 binary64_44 binary64_94)

lemma share_v_0:
  "segmentLengths64 [Vec64 (Fin 0) (Fin 0) (Fin 0), Vec64 (Fin 2) (Fin 0) (Fin 0), Vec64 (Fin 8) (Fin 0) (Fin 0)] ! 0 / totalLength64 [Vec64 (Fin 0) (Fin 0) (Fin 0), Vec64 (Fin 2) (Fin 0) (Fin 0), Vec64 (Fin 8) (Fin 0) (Fin 0)] = Fin (1 / 4)"
  by (simp add: segmentLengths64_def totalLength64_def chainLength64_def distance64_def
      Let_def rnd_minus binary64_95 binary64_8 binary64_10 binary64_96 binary64_101 binary64_100 binary64_23 binary64_102)

lemma share_v_1:
  "segmentLengths64 [Vec64 (Fin 0) (Fin 0) (Fin 0), Vec64 (Fin 2) (Fin 0) (Fin 0), Vec64 (Fin 8) (Fin 0) (Fin 0)] ! Suc 0 / totalLength64 [Vec64 (Fin 0) (Fin 0) (Fin 0), Vec64 (Fin 2) (Fin 0) (Fin 0), Vec64 (Fin 8) (Fin 0) (Fin 0)] = Fin (3 / 4)"
  by (simp add: segmentLengths64_def totalLength64_def chainLength64_def distance64_def
      Let_def rnd_minus binary64_95 binary64_97 binary64_8 binary64_10 binary64_96 binary64_101 binary64_100 binary64_23 binary64_102)

subsection \<open>Concrete runs\<close>

lemma iterations_24: "iterations (Fin 24) = Some 24"
  by (simp add: iterations_def)

text \<open>
  Claim C3 says that the first sample is exactly the chain's first point.
  \<open>_sampleCurve\<close> pushes the chain's last point itself, but it computes the first sample:
  at \<open>t = 0\<close> the first interpolation of \<open>_catmullRom\<close> has the parameter 1, and
  \<open>Vec3.lerp\<close> computes \<open>p0 + 1 * (p1 - p0)\<close> with two roundings. For the chain from
  \<open>(0.7, 0, 0)\<close> to \<open>(2, 0, 0)\<close> with no neighbours, 24 samples asked for and the exponent 0,
  whatever \<open>Math.pow\<close> is, the run returns 25 samples, the last is \<open>(2, 0, 0)\<close>, and the
  first has the x coordinate \<open>6305039478318695 / 2 ^ 53\<close>, the double
  \<open>0.7000000000000001\<close>, while the chain's first point has \<open>6305039478318694 / 2 ^ 53\<close>,
  the double \<open>0.7\<close>.
\<close>

theorem first_sample_rounded:
  "map_option (\<lambda>samples. (samples ! 0, last samples, length samples))
     (sampleCurve64 pw [Vec64 (rnd (7 / 10)) (Fin 0) (Fin 0), Vec64 (Fin 2) (Fin 0) (Fin 0)]
        None None (Fin 24) (Fin 0))
   = Some (Vec64 (Fin (6305039478318695 / 9007199254740992)) (Fin 0) (Fin 0),
           Vec64 (Fin 2) (Fin 0) (Fin 0), 25) \<and>
   rnd (7 / 10) = Fin (6305039478318694 / 9007199254740992)"
proof -
  let ?ps = "[Vec64 (rnd (7 / 10)) (Fin 0) (Fin 0), Vec64 (Fin 2) (Fin 0) (Fin 0)]"
  have "map_option length (sampleCurve64 pw ?ps None None (Fin 24) (Fin 0)) = Some 25"
    by (simp add: length_sampleCurve64 steps_c3 iterations_24)
  then obtain samples where s: "sampleCurve64 pw ?ps None None (Fin 24) (Fin 0) = Some samples"
    and l: "length samples = 25"
    by auto
  have "samples ! 0 = catmullRom64 pw (extended64 ?ps None None ! 0)
       (extended64 ?ps None None ! 1) (extended64 ?ps None None ! 2)
       (extended64 ?ps None None ! 3) (Fin 0 / steps64 ?ps (Fin 24) 0) (Fin 0)"
    by (rule sampleCurve64_first [OF _ _ _ s, where k = 24]) (simp_all add: steps_c3 iterations_24)
  then have f: "samples ! 0 = Vec64 (Fin (6305039478318695 / 9007199254740992)) (Fin 0) (Fin 0)"
    by (simp add: extended_c3 steps_c3 catmullRom_c3)
  have "last samples = ?ps ! (length ?ps - 1)"
    by (rule sampleCurve64_last [OF _ s]) simp
  then have "map_option (\<lambda>samples. (samples ! 0, last samples, length samples))
     (sampleCurve64 pw ?ps None None (Fin 24) (Fin 0))
   = Some (Vec64 (Fin (6305039478318695 / 9007199254740992)) (Fin 0) (Fin 0),
           Vec64 (Fin 2) (Fin 0) (Fin 0), 25)"
    by (simp add: s f l)
  moreover have "rnd (7 / 10) = Fin (6305039478318694 / 9007199254740992)"
    by (rule rnd_eqI [where e = "- 1" and m = 6305039478318694]) simp_all
  ultimately show ?thesis by (rule conjI)
qed


text \<open>
  Claim C9 as it is written fails for the length of the chain. The chain \<open>(0, 0, 0)\<close>,
  \<open>(1.15, 0, 0)\<close>, \<open>(2.4, 0, 0)\<close> gets 26 samples with the default density 6 and minimum 24;
  the longer chain \<open>(0, 0, 0)\<close>, \<open>(1.2, 0, 0)\<close>, \<open>(2.5, 0, 0)\<close> gets 25, and so does the
  first chain scaled by 1.4375 with \<open>mulScalar\<close>. The budget is 24 for all three; each hop
  gets the budget times its share, rounded, and the shares of a longer chain can round to
  less.
\<close>

theorem sample_count_not_monotone_in_length:
  "chainLength64 [Vec64 (Fin 0) (Fin 0) (Fin 0), Vec64 (rnd (23 / 20)) (Fin 0) (Fin 0),
                  Vec64 (rnd (12 / 5)) (Fin 0) (Fin 0)]
     = Fin (5404319552844595 / 2251799813685248) \<and>
   chainLength64 [Vec64 (Fin 0) (Fin 0) (Fin 0), Vec64 (rnd (6 / 5)) (Fin 0) (Fin 0),
                  Vec64 (Fin (5 / 2)) (Fin 0) (Fin 0)]
     = Fin (5 / 2) \<and>
   chainLength64 (scaleChain64 (Fin (23 / 16))
                 [Vec64 (Fin 0) (Fin 0) (Fin 0), Vec64 (rnd (23 / 20)) (Fin 0) (Fin 0),
                  Vec64 (rnd (12 / 5)) (Fin 0) (Fin 0)])
     = Fin (7768709357214105 / 2251799813685248) \<and>
   (5404319552844595 / 2251799813685248 :: real) < 5 / 2 \<and>
   (5404319552844595 / 2251799813685248 :: real) < 7768709357214105 / 2251799813685248 \<and>
   sampleCount64 roundedPow (Fin 24) (Fin 6) (Fin 0)
     [Vec64 (Fin 0) (Fin 0) (Fin 0), Vec64 (rnd (23 / 20)) (Fin 0) (Fin 0),
      Vec64 (rnd (12 / 5)) (Fin 0) (Fin 0)] None None = Some 26 \<and>
   sampleCount64 roundedPow (Fin 24) (Fin 6) (Fin 0)
     [Vec64 (Fin 0) (Fin 0) (Fin 0), Vec64 (rnd (6 / 5)) (Fin 0) (Fin 0),
      Vec64 (Fin (5 / 2)) (Fin 0) (Fin 0)] None None = Some 25 \<and>
   sampleCount64 roundedPow (Fin 24) (Fin 6) (Fin 0)
     (scaleChain64 (Fin (23 / 16))
        [Vec64 (Fin 0) (Fin 0) (Fin 0), Vec64 (rnd (23 / 20)) (Fin 0) (Fin 0),
         Vec64 (rnd (12 / 5)) (Fin 0) (Fin 0)]) None None = Some 25"
  by (simp add: chainLength_a chainLength_b chainLength_a_scaled sampleCount_a sampleCount_b
      sampleCount_a_scaled)

text \<open>
  The statement at the chain \<open>(0, 0, 0)\<close>, \<open>(1, 0, 0)\<close>, \<open>(4, 0, 0)\<close> for the densities 6 and
  12, and at this chain and the chain twice as large, whose shares are the same.
\<close>

theorem sample_count_monotone_witness:
  "chainLength64 [Vec64 (Fin 0) (Fin 0) (Fin 0), Vec64 (Fin 1) (Fin 0) (Fin 0),
                  Vec64 (Fin 4) (Fin 0) (Fin 0)] = Fin 4 \<and>
   sampleBudget64 (Fin 24) (Fin 12)
     [Vec64 (Fin 0) (Fin 0) (Fin 0), Vec64 (Fin 1) (Fin 0) (Fin 0), Vec64 (Fin 4) (Fin 0) (Fin 0)]
     = Fin 48 \<and>
   sampleCount64 roundedPow (Fin 24) (Fin 12) (Fin 0)
     [Vec64 (Fin 0) (Fin 0) (Fin 0), Vec64 (Fin 1) (Fin 0) (Fin 0), Vec64 (Fin 4) (Fin 0) (Fin 0)]
     None None = Some 49 \<and>
   sampleCount64 roundedPow (Fin 24) (Fin 6) (Fin 0)
     [Vec64 (Fin 0) (Fin 0) (Fin 0), Vec64 (Fin 1) (Fin 0) (Fin 0), Vec64 (Fin 4) (Fin 0) (Fin 0)]
     None None = Some 25 \<and>
   chainLength64 [Vec64 (Fin 0) (Fin 0) (Fin 0), Vec64 (Fin 2) (Fin 0) (Fin 0),
                  Vec64 (Fin 8) (Fin 0) (Fin 0)] = Fin 8 \<and>
   sampleBudget64 (Fin 24) (Fin 6)
     [Vec64 (Fin 0) (Fin 0) (Fin 0), Vec64 (Fin 1) (Fin 0) (Fin 0), Vec64 (Fin 4) (Fin 0) (Fin 0)]
     \<le> sampleBudget64 (Fin 24) (Fin 6)
         [Vec64 (Fin 0) (Fin 0) (Fin 0), Vec64 (Fin 2) (Fin 0) (Fin 0), Vec64 (Fin 8) (Fin 0) (Fin 0)] \<and>
   segmentLengths64 [Vec64 (Fin 0) (Fin 0) (Fin 0), Vec64 (Fin 1) (Fin 0) (Fin 0),
                     Vec64 (Fin 4) (Fin 0) (Fin 0)] ! 0
     / totalLength64 [Vec64 (Fin 0) (Fin 0) (Fin 0), Vec64 (Fin 1) (Fin 0) (Fin 0),
                      Vec64 (Fin 4) (Fin 0) (Fin 0)]
     = segmentLengths64 [Vec64 (Fin 0) (Fin 0) (Fin 0), Vec64 (Fin 2) (Fin 0) (Fin 0),
                         Vec64 (Fin 8) (Fin 0) (Fin 0)] ! 0
       / totalLength64 [Vec64 (Fin 0) (Fin 0) (Fin 0), Vec64 (Fin 2) (Fin 0) (Fin 0),
                        Vec64 (Fin 8) (Fin 0) (Fin 0)] \<and>
   segmentLengths64 [Vec64 (Fin 0) (Fin 0) (Fin 0), Vec64 (Fin 1) (Fin 0) (Fin 0),
                     Vec64 (Fin 4) (Fin 0) (Fin 0)] ! 1
     / totalLength64 [Vec64 (Fin 0) (Fin 0) (Fin 0), Vec64 (Fin 1) (Fin 0) (Fin 0),
                      Vec64 (Fin 4) (Fin 0) (Fin 0)]
     = segmentLengths64 [Vec64 (Fin 0) (Fin 0) (Fin 0), Vec64 (Fin 2) (Fin 0) (Fin 0),
                         Vec64 (Fin 8) (Fin 0) (Fin 0)] ! 1
       / totalLength64 [Vec64 (Fin 0) (Fin 0) (Fin 0), Vec64 (Fin 2) (Fin 0) (Fin 0),
                        Vec64 (Fin 8) (Fin 0) (Fin 0)] \<and>
   sampleBudget64 (Fin 24) (Fin 6)
     [Vec64 (Fin 0) (Fin 0) (Fin 0), Vec64 (Fin 2) (Fin 0) (Fin 0), Vec64 (Fin 8) (Fin 0) (Fin 0)]
     = Fin 48 \<and>
   sampleCount64 roundedPow (Fin 24) (Fin 6) (Fin 0)
     [Vec64 (Fin 0) (Fin 0) (Fin 0), Vec64 (Fin 2) (Fin 0) (Fin 0), Vec64 (Fin 8) (Fin 0) (Fin 0)]
     None None = Some 49"
proof -
  let ?w = "[Vec64 (Fin 0) (Fin 0) (Fin 0), Vec64 (Fin 1) (Fin 0) (Fin 0),
             Vec64 (Fin 4) (Fin 0) (Fin 0)]"
  let ?v = "[Vec64 (Fin 0) (Fin 0) (Fin 0), Vec64 (Fin 2) (Fin 0) (Fin 0),
             Vec64 (Fin 8) (Fin 0) (Fin 0)]"
  note m = sample_count_monotone [where ms = 24 and ?d1.0 = 6 and ?d2.0 = 12 and points = ?w
      and L = 4 and ?b2.0 = 48 and pw = roundedPow and alpha = "Fin 0" and prevPoint = None
      and nextPoint = None and ?n2.0 = 49 and ps = ?w and qs = ?v and ?L1.0 = 4 and ?L2.0 = 8
      and d = 6 and m = 24 and b = 48 and prevQ = None and nextQ = None and ?k2.0 = 49
      and prevP = None and nextP = None]
  have sh: "\<forall>i<length ?w - 1. segmentLengths64 ?w ! i / totalLength64 ?w
                = segmentLengths64 ?v ! i / totalLength64 ?v"
    by (simp add: less_Suc_eq share_w_0 share_w_1 share_v_0 share_v_1)
  have a: "\<exists>n1\<le>49. sampleCount64 roundedPow (Fin 24) (Fin 6) (Fin 0) ?w None None = Some n1"
    using m [THEN conjunct1]
    by (simp add: chainLength_w6 sampleBudget_w12 sampleCount_w12)
  have b: "sampleBudget64 (Fin 24) (Fin 6) ?w \<le> sampleBudget64 (Fin 24) (Fin 6) ?v"
    using m [THEN conjunct2, THEN conjunct1]
    by (simp add: chainLength_w6 chainLength_v6)
  have c: "\<exists>k1\<le>49. sampleCount64 roundedPow (Fin 24) (Fin 6) (Fin 0) ?w None None = Some k1"
    using m [THEN conjunct2, THEN conjunct2] sh
    by (simp add: chainLength_w6 chainLength_v6 sampleBudget_v6 sampleCount_v6)
  from a b c show ?thesis
    by (simp add: chainLength_w6 chainLength_v6 sampleBudget_w12 sampleBudget_v6
        sampleCount_w6 sampleCount_w12 sampleCount_v6 share_w_0 share_w_1 share_v_0 share_v_1)
qed


section \<open>Properties of the segmenter\<close>

lemma set_setAdd: "set (setAdd stops x) = insert x (set stops)"
  by (auto simp: setAdd_def)

lemma distinct_setAdd: "distinct stops \<Longrightarrow> distinct (setAdd stops x)"
  by (simp add: setAdd_def)

lemma set_pause_fold:
  "set (foldl (\<lambda>stops i. if 0 < pauseAt pauses i then setAdd stops (int i) else stops) init xs)
     = set init \<union> {int i | i. i \<in> set xs \<and> 0 < pauseAt pauses i}"
  by (induction xs arbitrary: init) (auto simp: set_setAdd)

lemma distinct_pause_fold:
  "distinct init \<Longrightarrow>
   distinct (foldl (\<lambda>stops i. if 0 < pauseAt pauses i then setAdd stops (int i) else stops) init xs)"
  by (induction xs arbitrary: init) (auto simp: distinct_setAdd)

lemma set_stopSet: "set (stopSet positions pauses) = stopsOf positions pauses"
  by (auto simp: stopSet_def stopsOf_def set_pause_fold set_setAdd)

lemma distinct_stopSet: "distinct (stopSet positions pauses)"
  unfolding stopSet_def by (intro distinct_pause_fold distinct_setAdd) simp

lemma stopIndices_sorted_list:
  "stopIndices positions pauses = sorted_list_of_set (stopsOf positions pauses)"
  unfolding stopIndices_def set_stopSet [symmetric]
  by (simp add: sorted_list_of_set_sort_remdups distinct_remdups_id distinct_stopSet)

lemma finite_stopsOf: "finite (stopsOf positions pauses)"
  by (simp add: stopsOf_def)

lemma stopIndices_strict: "sorted_wrt (<) (stopIndices positions pauses)"
  by (simp add: stopIndices_sorted_list)

lemma set_stopIndices: "set (stopIndices positions pauses) = stopsOf positions pauses"
  by (simp add: stopIndices_sorted_list finite_stopsOf)

lemma strict_hd_le: "sorted_wrt (<) xs \<Longrightarrow> x \<in> set xs \<Longrightarrow> hd xs \<le> (x::int)"
  by (cases xs) auto

lemma strict_le_last: "sorted_wrt (<) xs \<Longrightarrow> x \<in> set xs \<Longrightarrow> (x::int) \<le> last xs"
proof (induction xs)
  case Nil
  then show ?case by simp
next
  case (Cons a xs)
  show ?case
  proof (cases "xs = []")
    case True
    with Cons.prems show ?thesis by simp
  next
    case False
    then have l: "last xs \<in> set xs" by simp
    show ?thesis
    proof (cases "x = a")
      case True
      with Cons.prems l have "x < last xs" by auto
      with False show ?thesis by simp
    next
      case ne: False
      with Cons False show ?thesis by auto
    qed
  qed
qed

lemma stopsOf_bounds:
  assumes "positions \<noteq> []" "x \<in> stopsOf positions pauses"
  shows "0 \<le> x \<and> x \<le> int (length positions) - 1"
  using assms by (cases positions) (auto simp: stopsOf_def)

lemma stopIndices_nonempty: "stopIndices positions pauses \<noteq> []"
proof -
  have "0 \<in> set (stopIndices positions pauses)"
    by (simp add: set_stopIndices stopsOf_def)
  then show ?thesis by auto
qed

lemma hd_stopIndices:
  assumes "positions \<noteq> []"
  shows "hd (stopIndices positions pauses) = 0"
proof -
  have "hd (stopIndices positions pauses) \<in> stopsOf positions pauses"
    using stopIndices_nonempty [of positions pauses] set_stopIndices [of positions pauses]
      hd_in_set by blast
  then have "0 \<le> hd (stopIndices positions pauses)"
    using stopsOf_bounds [OF assms] by blast
  moreover have "hd (stopIndices positions pauses) \<le> 0"
    by (rule strict_hd_le [OF stopIndices_strict]) (simp add: set_stopIndices stopsOf_def)
  ultimately show ?thesis by simp
qed

lemma last_stopIndices:
  assumes "positions \<noteq> []"
  shows "last (stopIndices positions pauses) = int (length positions) - 1"
proof -
  have "last (stopIndices positions pauses) \<in> stopsOf positions pauses"
    using stopIndices_nonempty [of positions pauses] set_stopIndices [of positions pauses]
      last_in_set by blast
  then have "last (stopIndices positions pauses) \<le> int (length positions) - 1"
    using stopsOf_bounds [OF assms] by blast
  moreover have "int (length positions) - 1 \<le> last (stopIndices positions pauses)"
    by (rule strict_le_last [OF stopIndices_strict]) (simp add: set_stopIndices stopsOf_def)
  ultimately show ?thesis by simp
qed

lemma length_stopIndices_ge2:
  assumes "2 \<le> length positions"
  shows "2 \<le> length (stopIndices positions pauses)"
proof -
  have "{0, int (length positions) - 1} \<subseteq> set (stopIndices positions pauses)"
    by (simp add: set_stopIndices stopsOf_def)
  then have "card {0, int (length positions) - 1} \<le> card (set (stopIndices positions pauses))"
    by (intro card_mono) simp_all
  moreover have "card {0, int (length positions) - 1} = 2"
    using assms by simp
  ultimately show ?thesis
    using card_length [of "stopIndices positions pauses"] by linarith
qed

lemma cuts_strict:
  assumes "sorted_wrt (<) indices"
  shows "concat (map (\<lambda>i. let start = indices ! i; end = indices ! (i + 1)
                      in if end \<le> start then [] else [makeSegment positions start end])
                 [0..<length indices - 1]) =
     map (\<lambda>i. makeSegment positions (indices ! i) (indices ! (i + 1))) [0..<length indices - 1]"
proof -
  have "\<not> indices ! (i + 1) \<le> indices ! i" if "i \<in> set [0..<length indices - 1]" for i
  proof -
    from that have "i + 1 < length indices" by auto
    then show ?thesis
      using sorted_wrt_nth_less [OF assms, of i "i + 1"] by simp
  qed
  then have "(let start = indices ! i; end = indices ! (i + 1)
               in if end \<le> start then [] else [makeSegment positions start end])
           = [makeSegment positions (indices ! i) (indices ! (i + 1))]"
    if "i \<in> set [0..<length indices - 1]" for i
    using that by (simp add: Let_def)
  then have "map (\<lambda>i. let start = indices ! i; end = indices ! (i + 1)
                      in if end \<le> start then [] else [makeSegment positions start end])
                 [0..<length indices - 1]
           = map (\<lambda>i. [makeSegment positions (indices ! i) (indices ! (i + 1))])
                 [0..<length indices - 1]"
    by (intro map_cong refl)
  then show ?thesis
    by (simp add: concat_map_singleton del: map_eq_conv)
qed

lemma buildSegments_map:
  "buildSegments positions pauses =
     map (\<lambda>i. makeSegment positions (stopIndices positions pauses ! i)
                                      (stopIndices positions pauses ! (i + 1)))
         [0..<length (stopIndices positions pauses) - 1]"
  using cuts_strict [OF stopIndices_strict [of positions pauses], where positions = positions]
  by (simp add: buildSegments_def Let_def)

lemma starts_buildSegments:
  "map seg_start (buildSegments positions pauses) = butlast (stopIndices positions pauses)"
  by (rule nth_equalityI) (simp_all add: buildSegments_map makeSegment_def nth_butlast)

lemma ends_buildSegments:
  "map seg_end (buildSegments positions pauses) = tl (stopIndices positions pauses)"
  by (rule nth_equalityI) (simp_all add: buildSegments_map makeSegment_def nth_tl)

lemma length_buildSegments:
  "length (buildSegments positions pauses) = length (stopIndices positions pauses) - 1"
  by (simp add: buildSegments_map)

lemma strict_cover_ex:
  fixes xs :: "int list"
  assumes "hd xs \<le> k" "k < last xs" "xs \<noteq> []"
  shows "\<exists>j. j + 1 < length xs \<and> xs ! j \<le> k \<and> k < xs ! (j + 1)"
  using assms
proof (induction xs)
  case Nil
  then show ?case by simp
next
  case (Cons a xs)
  show ?case
  proof (cases xs)
    case Nil
    with Cons.prems show ?thesis by simp
  next
    case (Cons b ys)
    show ?thesis
    proof (cases "k < b")
      case True
      with Cons.prems Cons show ?thesis by (intro exI [of _ 0]) simp
    next
      case False
      with Cons.prems Cons Cons.IH obtain j where "j + 1 < length xs" "xs ! j \<le> k" "k < xs ! (j + 1)"
        by auto
      then show ?thesis by (intro exI [of _ "Suc j"]) simp
    qed
  qed
qed

lemma strict_cover_unique:
  fixes xs :: "int list"
  assumes s: "sorted_wrt (<) xs"
    and i: "i + 1 < length xs" "xs ! i \<le> k" "k < xs ! (i + 1)"
    and j: "j + 1 < length xs" "xs ! j \<le> k" "k < xs ! (j + 1)"
  shows "i = j"
proof (rule ccontr)
  assume "i \<noteq> j"
  then consider "i < j" | "j < i" by linarith
  then show False
  proof cases
    case 1
    then have "xs ! (i + 1) \<le> xs ! j"
      using s j(1) by (cases "i + 1 = j") (auto dest: sorted_wrt_nth_less [where i = "i + 1" and j = j])
    with i j show False by linarith
  next
    case 2
    then have "xs ! (j + 1) \<le> xs ! i"
      using s i(1) by (cases "j + 1 = i") (auto dest: sorted_wrt_nth_less [where i = "j + 1" and j = i])
    with i j show False by linarith
  qed
qed

lemma pause_fold_none:
  assumes "\<forall>i\<in>set xs. pauseAt pauses i \<le> 0"
  shows "foldl (\<lambda>stops i. if 0 < pauseAt pauses i then setAdd stops (int i) else stops) init xs = init"
  using assms by (induction xs arbitrary: init) (auto simp: not_less [symmetric])

lemma buildSegments_no_pauses:
  assumes "2 \<le> length positions" "\<forall>i<length positions. pauseAt pauses i \<le> 0"
  shows "buildSegments positions pauses =
     [\<lparr> seg_start = 0, seg_end = int (length positions) - 1,
        seg_prevPoint = None, seg_nextPoint = None \<rparr>]"
proof -
  have "stopSet positions pauses = [0, int (length positions) - 1]"
    using assms by (auto simp: stopSet_def pause_fold_none setAdd_def)
  then have "stopIndices positions pauses = [0, int (length positions) - 1]"
    using assms(1) by (auto simp: stopIndices_def)
  then show ?thesis
    using assms(1) by (auto simp: buildSegments_def Let_def makeSegment_def)
qed


text \<open>
  Claim C2. For two or more waypoints the stops are the set of 0, \<open>L - 1\<close> and the indices
  with a positive pause, in ascending order; there is one segment for each pair of
  neighbouring stops, with the stops but the last as starts and the stops but the first as
  ends, so the first segment starts at 0, the last ends at \<open>L - 1\<close>, each segment ends where
  the next starts, each has its start before its end and each hop of the waypoint list lies
  in exactly one segment; without pauses there is the one segment from 0 to \<open>L - 1\<close>.
\<close>

theorem buildSegments_partition:
  assumes "2 \<le> length positions"
  shows "stopIndices positions pauses = sorted_list_of_set (stopsOf positions pauses) \<and>
     length (buildSegments positions pauses) = length (stopIndices positions pauses) - 1 \<and>
     map seg_start (buildSegments positions pauses) = butlast (stopIndices positions pauses) \<and>
     map seg_end (buildSegments positions pauses) = tl (stopIndices positions pauses) \<and>
     seg_start (hd (buildSegments positions pauses)) = 0 \<and>
     seg_end (last (buildSegments positions pauses)) = int (length positions) - 1 \<and>
     (\<forall>s \<in> set (buildSegments positions pauses). seg_start s < seg_end s) \<and>
     (\<forall>j. j + 1 < length (buildSegments positions pauses) \<longrightarrow>
        seg_end (buildSegments positions pauses ! j)
          = seg_start (buildSegments positions pauses ! (j + 1))) \<and>
     (\<forall>k. 0 \<le> k \<and> k < int (length positions) - 1 \<longrightarrow>
        (\<exists>!j. j < length (buildSegments positions pauses) \<and>
              seg_start (buildSegments positions pauses ! j) \<le> k \<and>
              k < seg_end (buildSegments positions pauses ! j))) \<and>
     ((\<forall>i<length positions. pauseAt pauses i \<le> 0) \<longrightarrow>
        buildSegments positions pauses =
          [\<lparr> seg_start = 0, seg_end = int (length positions) - 1,
             seg_prevPoint = None, seg_nextPoint = None \<rparr>])"
proof -
  define ix where "ix = stopIndices positions pauses"
  define segs where "segs = buildSegments positions pauses"
  have ne: "positions \<noteq> []" using assms by auto
  have strict: "sorted_wrt (<) ix" unfolding ix_def by (rule stopIndices_strict)
  have len2: "2 \<le> length ix" unfolding ix_def using assms by (rule length_stopIndices_ge2)
  have len: "length segs = length ix - 1"
    unfolding segs_def ix_def by (rule length_buildSegments)
  have st: "seg_start (segs ! j) = ix ! j" and en: "seg_end (segs ! j) = ix ! (j + 1)"
    if "j < length segs" for j
    using that len unfolding segs_def ix_def
    by (simp_all add: buildSegments_map makeSegment_def)
  have segs_ne: "segs \<noteq> []" using len len2 by auto
  have c1: "seg_start (hd segs) = 0"
  proof -
    have "seg_start (hd segs) = ix ! 0" using segs_ne st [of 0] by (simp add: hd_conv_nth)
    also have "\<dots> = hd ix" using len2 by (cases ix) simp_all
    also have "\<dots> = 0" unfolding ix_def using ne by (rule hd_stopIndices)
    finally show ?thesis .
  qed
  have c2: "seg_end (last segs) = int (length positions) - 1"
  proof -
    have "seg_end (last segs) = ix ! (length segs - 1 + 1)"
      using segs_ne en [of "length segs - 1"] by (simp add: last_conv_nth)
    also have "length segs - 1 + 1 = length ix - 1" using len len2 by simp
    also have "ix ! (length ix - 1) = last ix" using len2 by (cases ix) (simp_all add: last_conv_nth)
    also have "\<dots> = int (length positions) - 1" unfolding ix_def using ne by (rule last_stopIndices)
    finally show ?thesis .
  qed
  have c3: "\<forall>s \<in> set segs. seg_start s < seg_end s"
  proof
    fix s assume "s \<in> set segs"
    then obtain j where j: "j < length segs" "s = segs ! j" by (auto simp: in_set_conv_nth)
    then have "ix ! j < ix ! (j + 1)"
      using len sorted_wrt_nth_less [OF strict, of j "j + 1"] by simp
    with j show "seg_start s < seg_end s" by (simp add: st en)
  qed
  have c4: "\<forall>j. j + 1 < length segs \<longrightarrow> seg_end (segs ! j) = seg_start (segs ! (j + 1))"
    by (simp add: st en)
  have c5: "\<forall>k. 0 \<le> k \<and> k < int (length positions) - 1 \<longrightarrow>
        (\<exists>!j. j < length segs \<and> seg_start (segs ! j) \<le> k \<and> k < seg_end (segs ! j))"
  proof (intro allI impI)
    fix k assume k: "0 \<le> k \<and> k < int (length positions) - 1"
    have "hd ix \<le> k" "k < last ix" "ix \<noteq> []"
      using k ne len2 by (auto simp: ix_def hd_stopIndices last_stopIndices)
    then obtain j where j: "j + 1 < length ix" "ix ! j \<le> k" "k < ix ! (j + 1)"
      using strict_cover_ex by blast
    show "\<exists>!j. j < length segs \<and> seg_start (segs ! j) \<le> k \<and> k < seg_end (segs ! j)"
    proof (rule ex1I [of _ j])
      show "j < length segs \<and> seg_start (segs ! j) \<le> k \<and> k < seg_end (segs ! j)"
        using j len by (simp add: st en)
    next
      fix i assume "i < length segs \<and> seg_start (segs ! i) \<le> k \<and> k < seg_end (segs ! i)"
      then have i: "i < length segs" "seg_start (segs ! i) \<le> k" "k < seg_end (segs ! i)"
        by simp_all
      then have "i + 1 < length ix" "ix ! i \<le> k" "k < ix ! (i + 1)"
        using len st [OF i(1)] en [OF i(1)] by simp_all
      with strict show "i = j" using j by (rule strict_cover_unique)
    qed
  qed
  show ?thesis
    unfolding segs_def [symmetric] ix_def [symmetric]
    using c1 c2 c3 c4 c5 len
      stopIndices_sorted_list [of positions pauses]
      starts_buildSegments [of positions pauses]
      ends_buildSegments [of positions pauses]
      buildSegments_no_pauses [OF assms, of pauses]
    unfolding segs_def [symmetric] ix_def [symmetric]
    by blast
qed

text \<open>
  The statement at three waypoints without pauses.
\<close>

theorem buildSegments_partition_witness:
  "2 \<le> length [Vec3 0 0 0, Vec3 1 0 0, Vec3 2 0 0] \<and>
   buildSegments [Vec3 0 0 0, Vec3 1 0 0, Vec3 2 0 0] [0, 0, 0] =
     [\<lparr> seg_start = 0, seg_end = 2, seg_prevPoint = None, seg_nextPoint = None \<rparr>]"
proof -
  have h: "2 \<le> length [Vec3 0 0 0, Vec3 1 0 0, Vec3 2 0 0]" by simp
  have p: "\<forall>i<length [Vec3 0 0 0, Vec3 1 0 0, Vec3 2 0 0]. pauseAt [0, 0, 0] i \<le> 0"
    by (auto simp: pauseAt_def nth_Cons split: nat.splits)
  from buildSegments_partition [OF h, of "[0, 0, 0]"] p
  have "buildSegments [Vec3 0 0 0, Vec3 1 0 0, Vec3 2 0 0] [0, 0, 0] =
          [\<lparr> seg_start = 0, seg_end = int (length [Vec3 0 0 0, Vec3 1 0 0, Vec3 2 0 0]) - 1,
             seg_prevPoint = None, seg_nextPoint = None \<rparr>]"
    by blast
  then show ?thesis by simp
qed

section \<open>Properties of the waypoint parsers\<close>

lemma csvRows_aligned:
  assumes "length (wp_positions w) = length (wp_pauses w)"
    and "length (wp_rotations w) = length (wp_pauses w)"
  shows "length (wp_positions (csvRows num delim lines w)) = length (wp_pauses (csvRows num delim lines w)) \<and>
         length (wp_rotations (csvRows num delim lines w)) = length (wp_pauses (csvRows num delim lines w))"
  using assms
  by (induction lines arbitrary: w) (simp_all add: Let_def)

lemma parseCsv_aligned:
  assumes "parseCsv num delim text = Some w"
  shows "length (wp_positions w) = length (wp_pauses w) \<and>
         length (wp_rotations w) = length (wp_pauses w)"
proof -
  from assms have "w = csvRows num delim (csvLines text) noWaypoints"
    by (simp add: parseCsv_def split: if_splits)
  then show ?thesis
    using csvRows_aligned [of noWaypoints num delim "csvLines text"]
    by (simp add: noWaypoints_def)
qed

lemma parseCsvStored_aligned:
  assumes "length (wp_positions w) = length (wp_pauses w)"
    and "length (wp_rotations w) = length (wp_pauses w)"
  shows "length (wp_positions (parseCsvStored num delim text w))
           = length (wp_pauses (parseCsvStored num delim text w)) \<and>
         length (wp_rotations (parseCsvStored num delim text w))
           = length (wp_pauses (parseCsvStored num delim text w))"
  using assms csvRows_aligned [of noWaypoints num delim "csvLines text"]
  by (simp add: parseCsvStored_def noWaypoints_def)

lemma jsonRows_bounds:
  assumes "length (wp_positions w) \<le> length (wp_pauses w)"
    and "length (wp_rotations w) \<le> length (wp_pauses w)"
  shows "length (wp_positions (jsonRows conv num rows w)) \<le> length (wp_pauses (jsonRows conv num rows w)) \<and>
         length (wp_rotations (jsonRows conv num rows w)) \<le> length (wp_pauses (jsonRows conv num rows w))"
  using assms
  by (induction rows arbitrary: w) (simp_all add: Let_def)

text \<open>
  Claim C1 says that the arrays of positions and pauses have the same length after
  parsing. \<open>_parseJson\<close>, in either script, on two rows, the second with a rotation and a
  pause and no position, gives one position, one rotation and two pauses: a row adds to
  \<open>positions\<close> and to \<open>rotations\<close> only what it has, and always to \<open>pauses\<close>.
\<close>

theorem parseJson_misaligned:
  "parseJson num
     (JArr [JObj [(''position'', JObj [(''x'', JNum 1), (''y'', JNum 2), (''z'', JNum 3)])],
            JObj [(''rotation'', JObj [(''x'', JNum 0), (''y'', JNum 90), (''z'', JNum 0)]),
                  (''pause'', JNum 2)]])
   = Some \<lparr> wp_positions = [JVec3 (JNum 1) (JNum 2) (JNum 3)],
            wp_rotations = [JVec3 (JNum 0) (JNum 90) (JNum 0)],
            wp_pauses = [numberOr0 num (Some (JNum 0)), numberOr0 num (Some (JNum 2))] \<rparr> \<and>
   parseJsonStored num
     (JArr [JObj [(''position'', JObj [(''x'', JNum 1), (''y'', JNum 2), (''z'', JNum 3)])],
            JObj [(''rotation'', JObj [(''x'', JNum 0), (''y'', JNum 90), (''z'', JNum 0)]),
                  (''pause'', JNum 2)]]) w
   = \<lparr> wp_positions = [JVec3 (JNum 1) (JNum 2) (JNum 3)],
       wp_rotations = [JVec3 (JNum 0) (JNum 90) (JNum 0)],
       wp_pauses = [numberOr0 num (Some (JNum 0)), numberOr0 num (Some (JNum 2))] \<rparr>"
  by (simp add: parseJson_def parseJsonStored_def noWaypoints_def orElse_def nullish_def
      toVec3_def toVec3Fallback_def hasXYZ_def xyzOf_def Let_def)

lemma parseJson_rotation_only:
  "parseJson num (JArr [JObj [(''rotation'', JObj [(''x'', JNum 0), (''y'', JNum 90), (''z'', JNum 0)])]])
   = Some \<lparr> wp_positions = [],
            wp_rotations = [JVec3 (JNum 0) (JNum 90) (JNum 0)],
            wp_pauses = [numberOr0 num (Some (JNum 0))] \<rparr>"
  by (simp add: parseJson_def noWaypoints_def orElse_def nullish_def toVec3_def hasXYZ_def
      xyzOf_def Let_def)

lemma parseCsv_example:
  assumes "num (Some (JStr ''1'')) = Some 1" "num (Some (JStr ''2'')) = Some 2"
    "num (Some (JStr ''3'')) = Some 3" "num (Some (JStr ''0'')) = Some 0"
    "num (Some (JStr ''0.5'')) = Some (1 / 2)"
  shows "parseCsv num '','' ''1,2,3,0,0,0,0.5'' =
    Some \<lparr> wp_positions = [JVec3 (JNum 1) (JNum 2) (JNum 3)],
           wp_rotations = [JVec3 (JNum 0) (JNum 0) (JNum 0)],
           wp_pauses = [1 / 2] \<rparr>"
  using assms
  by (simp add: parseCsv_def csvLines_def trim_def isSpace_def splitBy_def noWaypoints_def
      numberOr0_def Let_def)

section \<open>Properties of the sequencers and of the playback controller\<close>

subsection \<open>The store of tasks\<close>

lemma updTween_simps [simp]:
  "tweens (updTween i f c) = tweens c"
  "running (updTween i f c) = running c"
  "entityPos (updTween i f c) = entityPos c"
  "entityRot (updTween i f c) = entityRot c"
  "durationPerUnit (updTween i f c) = durationPerUnit c"
  "minDuration (updTween i f c) = minDuration c"
  "easing (updTween i f c) = easing c"
  "loop (updTween i f c) = loop c"
  "controller.more (updTween i f c) = controller.more c"
  "length (heap (updTween i f c)) = length (heap c)"
  by (simp_all add: updTween_def)

lemma nth_updTween:
  "j < length (heap c) \<Longrightarrow>
     heap (updTween i f c) ! j = (if j = i then f (heap c ! j) else heap c ! j)"
  by (simp add: updTween_def)

lemma newTween_simps [simp]:
  "tweens (newTween mo dur del e c) = tweens c"
  "running (newTween mo dur del e c) = running c"
  "entityPos (newTween mo dur del e c) = entityPos c"
  "entityRot (newTween mo dur del e c) = entityRot c"
  "durationPerUnit (newTween mo dur del e c) = durationPerUnit c"
  "minDuration (newTween mo dur del e c) = minDuration c"
  "easing (newTween mo dur del e c) = easing c"
  "loop (newTween mo dur del e c) = loop c"
  "controller.more (newTween mo dur del e c) = controller.more c"
  "length (heap (newTween mo dur del e c)) = Suc (length (heap c))"
  by (simp_all add: newTween_def)

lemma updTween_mover [simp]:
  "useRotations (updTween i f m) = useRotations m"
  "lastPath (updTween i f m) = lastPath m"
  "events (updTween i f m) = events m"
  by (simp_all add: updTween_def)

lemma newTween_mover [simp]:
  "useRotations (newTween mo dur del e m) = useRotations m"
  "lastPath (newTween mo dur del e m) = lastPath m"
  "events (newTween mo dur del e m) = events m"
  by (simp_all add: newTween_def)

lemma updTween_pathScript [simp]:
  "waypointPositions (updTween i f s) = waypointPositions s"
  "waypointRotations (updTween i f s) = waypointRotations s"
  "waypointPauses (updTween i f s) = waypointPauses s"
  "inputScriptNames (updTween i f s) = inputScriptNames s"
  "inputScripts (updTween i f s) = inputScripts s"
  "disabledScripts (updTween i f s) = disabledScripts s"
  by (simp_all add: updTween_def)

lemma newTween_pathScript [simp]:
  "waypointPositions (newTween mo dur del e s) = waypointPositions s"
  "waypointRotations (newTween mo dur del e s) = waypointRotations s"
  "waypointPauses (newTween mo dur del e s) = waypointPauses s"
  "inputScriptNames (newTween mo dur del e s) = inputScriptNames s"
  "inputScripts (newTween mo dur del e s) = inputScripts s"
  "disabledScripts (newTween mo dur del e s) = disabledScripts s"
  by (simp_all add: newTween_def)

lemma nth_newTween_old:
  "j < length (heap c) \<Longrightarrow> heap (newTween mo dur del e c) ! j = heap c ! j"
  by (simp add: newTween_def nth_append)

lemma nth_newTween_new:
  "heap (newTween mo dur del e c) ! length (heap c) =
     \<lparr> tw_motion = mo, tw_duration = dur, tw_delay = del, tw_easing = e,
       tw_complete = [], tw_chained = None, tw_status = Pending \<rparr>"
  by (simp add: newTween_def)

text \<open>Stopping the tasks of a list: what is live among them is cancelled, the rest is as it
  was.\<close>

lemma stopTweens_simps [simp]:
  "tweens (foldl (\<lambda>c i. stopTween i c) c ids) = tweens c"
  "running (foldl (\<lambda>c i. stopTween i c) c ids) = running c"
  "entityPos (foldl (\<lambda>c i. stopTween i c) c ids) = entityPos c"
  "entityRot (foldl (\<lambda>c i. stopTween i c) c ids) = entityRot c"
  "durationPerUnit (foldl (\<lambda>c i. stopTween i c) c ids) = durationPerUnit c"
  "minDuration (foldl (\<lambda>c i. stopTween i c) c ids) = minDuration c"
  "easing (foldl (\<lambda>c i. stopTween i c) c ids) = easing c"
  "loop (foldl (\<lambda>c i. stopTween i c) c ids) = loop c"
  "controller.more (foldl (\<lambda>c i. stopTween i c) c ids) = controller.more c"
  "length (heap (foldl (\<lambda>c i. stopTween i c) c ids)) = length (heap c)"
  by (induction ids arbitrary: c; simp add: stopTween_def)+


lemma live_cancelled [simp]: "\<not> live (t\<lparr> tw_status := Cancelled \<rparr>)"
  by (simp add: live_def)


lemma cancelAll_simps [simp]:
  "tweens (cancelAll c) = []"
  "running (cancelAll c) = False"
  "entityPos (cancelAll c) = entityPos c"
  "entityRot (cancelAll c) = entityRot c"
  "durationPerUnit (cancelAll c) = durationPerUnit c"
  "minDuration (cancelAll c) = minDuration c"
  "easing (cancelAll c) = easing c"
  "loop (cancelAll c) = loop c"
  "controller.more (cancelAll c) = controller.more c"
  "length (heap (cancelAll c)) = length (heap c)"
  by (simp_all add: cancelAll_def)

lemma cancelAll_mover [simp]:
  "useRotations (cancelAll m) = useRotations m"
  "lastPath (cancelAll m) = lastPath m"
  "events (cancelAll m) = events m"
  using cancelAll_simps(9) [of m] by (cases m; cases "cancelAll m"; simp)+

lemma cancelAll_pathScript [simp]:
  "waypointPositions (cancelAll s) = waypointPositions s"
  "waypointRotations (cancelAll s) = waypointRotations s"
  "waypointPauses (cancelAll s) = waypointPauses s"
  "inputScriptNames (cancelAll s) = inputScriptNames s"
  "inputScripts (cancelAll s) = inputScripts s"
  "disabledScripts (cancelAll s) = disabledScripts s"
  using cancelAll_simps(9) [of s] by (cases s; cases "cancelAll s"; simp)+


text \<open>Creating a task, attaching its callback and pushing it, in one step.\<close>

lemma tween_ops_tweens [simp]:
  "tweens (addOnComplete i cb c) = tweens c"
  "tweens (chainTween i j c) = tweens c"
  "tweens (startTween i c) = tweens c"
  "tweens (stopTween i c) = tweens c"
  by (simp_all add: addOnComplete_def chainTween_def startTween_def stopTween_def)

lemma push_tween:
  "addOnComplete (length (heap c)) cb (newTween mo dur del e c)
     \<lparr> tweens := tweens c @ [length (heap c)] \<rparr>
   = c\<lparr> heap := heap c @
            [\<lparr> tw_motion = mo, tw_duration = dur, tw_delay = del, tw_easing = e,
               tw_complete = [cb], tw_chained = None, tw_status = Pending \<rparr>],
        tweens := tweens c @ [length (heap c)] \<rparr>"
  by (simp add: addOnComplete_def updTween_def newTween_def)




lemma listed_fields [simp]:
  "listed (c\<lparr> running := b \<rparr>) = listed c"
  "listed (c\<lparr> entityPos := pos \<rparr>) = listed c"
  "listed (c\<lparr> entityRot := rot \<rparr>) = listed c"
  "listed (c\<lparr> controller.more := x \<rparr>) = listed c"
  by (simp_all add: listed_def)

lemma listed_mover_fields [simp]:
  "listed (m\<lparr> events := ev \<rparr>) = listed m"
  "listed (m\<lparr> lastPath := lp \<rparr>) = listed m"
  by (simp_all add: listed_def)

lemma quiet_fields [simp]:
  "quiet (c\<lparr> running := b \<rparr>) = quiet c"
  "quiet (c\<lparr> tweens := ts \<rparr>) = quiet c"
  by (simp_all add: quiet_def)

lemma quiet_mover_fields [simp]:
  "quiet (m\<lparr> events := ev \<rparr>) = quiet m"
  by (simp_all add: quiet_def)






lemma chainAll_tweens [simp]: "tweens (chainAll c) = tweens c"
proof -
  have "tweens (foldl (\<lambda>c i. chainTween (tweens c ! (i - 1)) (tweens c ! i) c) c ids) = tweens c" for ids
    by (induction ids arbitrary: c) (simp_all add: chainTween_def)
  then show ?thesis by (simp add: chainAll_def)
qed


lemma launch_tweens [simp]: "tweens (launch c) = tweens c"
  by (simp add: launch_def Let_def)

lemma launch_length [simp]: "length (heap (launch c)) = length (heap c)"
proof -
  have "length (heap (foldl (\<lambda>c i. chainTween (tweens c ! (i - 1)) (tweens c ! i) c) c ids))
      = length (heap c)" for ids
    by (induction ids arbitrary: c) (simp_all add: chainTween_def)
  then show ?thesis
    by (simp add: launch_def Let_def startTween_def addOnComplete_def chainAll_def)
qed

text \<open>After the launch the first task of the list is active.\<close>

lemma launch_starts_first:
  assumes "tweens c ! 0 < length (heap c)"
  shows "tw_status (heap (launch c) ! (tweens c ! 0)) = Active"
proof -
  define c2 where "c2 = addOnComplete (tweens (chainAll c) ! (length (tweens (chainAll c)) - 1))
      SequenceComplete (chainAll c)"
  have t: "tweens c2 = tweens c" by (simp add: c2_def)
  have "length (heap c2) = length (heap (launch c))"
    by (simp add: launch_def Let_def c2_def startTween_def)
  then have l: "tweens c ! 0 < length (heap c2)" using assms by simp
  have "launch c = startTween (tweens c2 ! 0) c2"
    by (simp add: launch_def Let_def c2_def)
  then show ?thesis
    using l by (simp add: t startTween_def nth_updTween)
qed



subsection \<open>The mover's loops\<close>

lemma startSegments_skip:
  "\<not> usable segment \<Longrightarrow>
     startSegments p (segment # rest) currentRot m = startSegments p rest currentRot m"
  by (cases "bs_samples segment") (simp_all add: usable_def not_le)

lemma startSegments_usable:
  assumes "bs_samples segment = Some samples" "2 \<le> length samples"
  shows "startSegments p (segment # rest) currentRot m =
     startSegments p rest
       (resolveRotation m p
          (case bs_endIndex segment of
             None \<Rightarrow> bs_startIndex segment + int (length samples) - 1 | Some e \<Rightarrow> e) currentRot)
       (m\<lparr> heap := heap m @
              [\<lparr> tw_motion = CurveMotion samples currentRot
                     (resolveRotation m p
                        (case bs_endIndex segment of
                           None \<Rightarrow> bs_startIndex segment + int (length samples) - 1
                         | Some e \<Rightarrow> e) currentRot),
                 tw_duration =
                   max ((case bs_distance segment of
                           None \<Rightarrow> chainLength samples
                         | Some d \<Rightarrow> if d = 0 then chainLength samples else d)
                        * durationPerUnit m) (minDuration m),
                 tw_delay = 0, tw_easing = getEasing (easing m),
                 tw_complete =
                   [NotifyWaypoint
                      (case bs_endIndex segment of
                         None \<Rightarrow> bs_startIndex segment + int (length samples) - 1 | Some e \<Rightarrow> e)
                      (samples ! (length samples - 1))
                      (resolveRotation m p
                         (case bs_endIndex segment of
                            None \<Rightarrow> bs_startIndex segment + int (length samples) - 1
                          | Some e \<Rightarrow> e) currentRot)],
                 tw_chained = None, tw_status = Pending \<rparr>],
            tweens := tweens m @ [length (heap m)] \<rparr>)"
  using assms by (simp add: Let_def push_tween del: One_nat_def)

lemma startSegments_unusable:
  "\<forall>segment\<in>set segments. \<not> usable segment \<Longrightarrow> startSegments p segments currentRot m = m"
  by (induction segments) (simp_all add: startSegments_skip del: startSegments.simps(2))


lemma startHops_Cons:
  "startHops positions rotations (i # rest) currentRot m =
     startHops positions rotations rest
       (if useRotations m \<and> rotationAt rotations (int i) \<noteq> RotAbsent
        then toQuat (rotationAt rotations (int i)) else currentRot)
       (m\<lparr> heap := heap m @
              [\<lparr> tw_motion = LinearMotion (positions ! (i - 1)) (positions ! i) currentRot
                     (if useRotations m \<and> rotationAt rotations (int i) \<noteq> RotAbsent
                      then toQuat (rotationAt rotations (int i)) else currentRot),
                 tw_duration =
                   max (vdistance (positions ! (i - 1)) (positions ! i) * durationPerUnit m)
                       (minDuration m),
                 tw_delay = 0, tw_easing = getEasing (easing m),
                 tw_complete =
                   [NotifyWaypoint (int i) (positions ! i)
                      (if useRotations m \<and> rotationAt rotations (int i) \<noteq> RotAbsent
                       then toQuat (rotationAt rotations (int i)) else currentRot)],
                 tw_chained = None, tw_status = Pending \<rparr>],
            tweens := tweens m @ [length (heap m)] \<rparr>)"
  by (simp add: Let_def push_tween del: One_nat_def)



subsection \<open>Starting, stopping and completing keep the invariant\<close>
















subsection \<open>Stopping\<close>

lemma disableScripts_simps [simp]:
  "tweens (foldl disableScript s names) = tweens s"
  "running (foldl disableScript s names) = running s"
  "heap (foldl disableScript s names) = heap s"
  "entityPos (foldl disableScript s names) = entityPos s"
  "entityRot (foldl disableScript s names) = entityRot s"
  "durationPerUnit (foldl disableScript s names) = durationPerUnit s"
  "minDuration (foldl disableScript s names) = minDuration s"
  "easing (foldl disableScript s names) = easing s"
  "waypointPositions (foldl disableScript s names) = waypointPositions s"
  "waypointRotations (foldl disableScript s names) = waypointRotations s"
  "waypointPauses (foldl disableScript s names) = waypointPauses s"
  by (induction names arbitrary: s; simp add: disableScript_def split: option.splits)+

lemma setInputEnabled_simps [simp]:
  "tweens (setInputEnabled b s) = tweens s"
  "running (setInputEnabled b s) = running s"
  "heap (setInputEnabled b s) = heap s"
  "entityPos (setInputEnabled b s) = entityPos s"
  "entityRot (setInputEnabled b s) = entityRot s"
  "durationPerUnit (setInputEnabled b s) = durationPerUnit s"
  "minDuration (setInputEnabled b s) = minDuration s"
  "easing (setInputEnabled b s) = easing s"
  "waypointPositions (setInputEnabled b s) = waypointPositions s"
  "waypointRotations (setInputEnabled b s) = waypointRotations s"
  "waypointPauses (setInputEnabled b s) = waypointPauses s"
  by (simp_all add: setInputEnabled_def split: option.splits)

lemma stopPath_simps [simp]:
  "tweens (stopPath restoreInput s) = []"
  "running (stopPath restoreInput s) = False"
  "length (heap (stopPath restoreInput s)) = length (heap s)"
  "entityPos (stopPath restoreInput s) = entityPos s"
  "entityRot (stopPath restoreInput s) = entityRot s"
  "durationPerUnit (stopPath restoreInput s) = durationPerUnit s"
  "minDuration (stopPath restoreInput s) = minDuration s"
  "easing (stopPath restoreInput s) = easing s"
  "waypointPositions (stopPath restoreInput s) = waypointPositions s"
  "waypointRotations (stopPath restoreInput s) = waypointRotations s"
  "waypointPauses (stopPath restoreInput s) = waypointPauses s"
  by (simp_all add: stopPath_def Let_def)

lemma stop_simps [simp]:
  "tweens (stop restore m) = []"
  "running (stop restore m) = False"
  "length (heap (stop restore m)) = length (heap m)"
  "entityPos (stop restore m) = entityPos m"
  "entityRot (stop restore m) = entityRot m"
  "durationPerUnit (stop restore m) = durationPerUnit m"
  "minDuration (stop restore m) = minDuration m"
  "easing (stop restore m) = easing m"
  "loop (stop restore m) = loop m"
  "useRotations (stop restore m) = useRotations m"
  "lastPath (stop restore m) = lastPath m"
  "events (stop restore m) = events m @ (if restore then [MoverStopped] else [])"
  by (simp_all add: stop_def Let_def)


subsection \<open>What a start leaves in the store\<close>

lemma map_updTween:
  assumes "\<And>t. g (f t) = g t"
  shows "map g (heap (updTween i f c)) = map g (heap c)"
proof (rule nth_equalityI)
  show "length (map g (heap (updTween i f c))) = length (map g (heap c))" by simp
next
  fix j assume "j < length (map g (heap (updTween i f c)))"
  then have j: "j < length (heap c)" by simp
  then show "map g (heap (updTween i f c)) ! j = map g (heap c) ! j"
    using assms by (simp add: nth_updTween)
qed

lemma map_chainAll:
  assumes "\<And>t j. g (t\<lparr> tw_chained := Some j \<rparr>) = g t"
  shows "map g (heap (chainAll c)) = map g (heap c)"
proof -
  have "map g (heap (foldl (\<lambda>c i. chainTween (tweens c ! (i - 1)) (tweens c ! i) c) c ids))
      = map g (heap c)" for ids
    by (induction ids arbitrary: c) (simp_all add: chainTween_def map_updTween assms)
  then show ?thesis by (simp add: chainAll_def)
qed

lemma map_launch:
  assumes "\<And>t j. g (t\<lparr> tw_chained := Some j \<rparr>) = g t"
    and "\<And>t cbs. g (t\<lparr> tw_complete := cbs \<rparr>) = g t"
    and "\<And>t st. g (t\<lparr> tw_status := st \<rparr>) = g t"
  shows "map g (heap (launch c)) = map g (heap c)"
  by (simp add: launch_def Let_def startTween_def addOnComplete_def map_updTween map_chainAll assms)

lemma stop_nothing: "tweens m = [] \<Longrightarrow> heap (stop restore m) = heap m"
  by (simp add: stop_def Let_def cancelAll_def)

lemma heap_finish [simp]: "heap (finish m) = heap m"
  by (simp add: finish_def)

lemma start_segments:
  assumes "path_segments p = Some segments" "segments \<noteq> []"
  shows "start (Some p) m =
     (if tweens (startSegments p segments (entityRot m) ((stop False m)\<lparr> running := True \<rparr>)) = []
      then finish (startSegments p segments (entityRot m) ((stop False m)\<lparr> running := True \<rparr>))
      else launch (startSegments p segments (entityRot m) ((stop False m)\<lparr> running := True \<rparr>)))"
  using assms by (simp add: start_def Let_def)

text \<open>
  Claim C6 says that a skipped segment still advances the carried orientation to the
  orientation of its end waypoint. \<open>CameraMover.start\<close> skips the segment and nothing else:
  for a path whose first segment has one sample and ends at waypoint 1, turned half around,
  the task of the second segment starts and ends at the orientation of the entity, not at
  the one of waypoint 1.
\<close>

theorem start_skips_without_carry:
  "map tw_motion (heap (start (Some
      \<lparr> path_segments = Some
          [\<lparr> bs_startIndex = 0, bs_endIndex = Some 1,
             bs_samples = Some [Vec3 1 0 0], bs_distance = None \<rparr>,
           \<lparr> bs_startIndex = 1, bs_endIndex = Some 2,
             bs_samples = Some [Vec3 1 0 0, Vec3 2 0 0], bs_distance = Some 1 \<rparr>],
        path_positions = [Vec3 0 0 0, Vec3 1 0 0, Vec3 2 0 0],
        path_rotations = [RotAbsent, RotEuler (Vec3 0 180 0), RotAbsent],
        path_pauses = [0, 1, 0] \<rparr>) newMover))
   = [CurveMotion [Vec3 1 0 0, Vec3 2 0 0] (Quat 0 0 0 1) (Quat 0 0 0 1)]"
proof -
  define p where "p =
      \<lparr> path_segments = Some
          [\<lparr> bs_startIndex = 0, bs_endIndex = Some 1,
             bs_samples = Some [Vec3 1 0 0], bs_distance = None \<rparr>,
           \<lparr> bs_startIndex = 1, bs_endIndex = Some 2,
             bs_samples = Some [Vec3 1 0 0, Vec3 2 0 0], bs_distance = Some 1 \<rparr>],
        path_positions = [Vec3 0 0 0, Vec3 1 0 0, Vec3 2 0 0],
        path_rotations = [RotAbsent, RotEuler (Vec3 0 180 0), RotAbsent],
        path_pauses = [0, 1, 0] \<rparr>"
  define m1 where "m1 = (stop False newMover)\<lparr> running := True \<rparr>"
  have h1: "heap m1 = []" and r1: "entityRot newMover = Quat 0 0 0 1" and u1: "useRotations m1"
    by (simp_all add: m1_def stop_nothing newMover_def)
  have skip: "\<not> usable \<lparr> bs_startIndex = 0, bs_endIndex = Some 1,
             bs_samples = Some [Vec3 1 0 0], bs_distance = None \<rparr>"
    by (simp add: usable_def)
  have rot: "resolveRotation m1 p 2 (Quat 0 0 0 1) = Quat 0 0 0 1"
    by (simp add: resolveRotation_def p_def rotationAt_def)
  have "map tw_motion (heap (startSegments p
          [\<lparr> bs_startIndex = 0, bs_endIndex = Some 1,
             bs_samples = Some [Vec3 1 0 0], bs_distance = None \<rparr>,
           \<lparr> bs_startIndex = 1, bs_endIndex = Some 2,
             bs_samples = Some [Vec3 1 0 0, Vec3 2 0 0], bs_distance = Some 1 \<rparr>]
          (Quat 0 0 0 1) m1))
      = [CurveMotion [Vec3 1 0 0, Vec3 2 0 0] (Quat 0 0 0 1) (Quat 0 0 0 1)]"
    unfolding startSegments_skip [OF skip]
    by (subst startSegments_usable [where samples = "[Vec3 1 0 0, Vec3 2 0 0]"])
       (simp_all add: h1 rot del: startSegments.simps(2))
  then have "map tw_motion (heap (start (Some p) newMover))
      = [CurveMotion [Vec3 1 0 0, Vec3 2 0 0] (Quat 0 0 0 1) (Quat 0 0 0 1)]"
    by (subst start_segments [where segments = "the (path_segments p)"])
       (simp_all add: p_def map_launch r1 m1_def [symmetric])
  then show ?thesis by (simp only: p_def)
qed



subsection \<open>Nothing to play\<close>

lemma finish_stop:
  "finish ((stop False m)\<lparr> running := True \<rparr>) = finish (stop False m)"
  by (simp add: finish_def)

lemma finish_simps [simp]:
  "tweens (finish m) = tweens m"
  "running (finish m) = False"
  "events (finish m) = events m @ [PathComplete]"
  by (simp_all add: finish_def)

lemma buildSegments_one: "buildSegments [p] pauses = []"
  by (simp add: buildSegments_def stopIndices_def stopSet_def setAdd_def Let_def)

lemma buildSegments_single: "buildSegmentsGuarded [p] pauses = []"
  by (simp add: buildSegmentsGuarded_def buildSegments_one)

text \<open>A source with one waypoint: the builder hands over an empty segment list, and the mover
  does nothing with it.\<close>

lemma single_waypoint_pipeline:
  assumes "path_positions d = [p]"
  shows "start (buildPath minSamples sampleDensity alpha (Some d)) m = m"
  using assms by (simp add: buildPath_def buildSegments_one start_def)

text \<open>
  Claim C5, as the code has it. \<open>start\<close> with no path, no segment list or an empty one
  returns at once and changes nothing: no notification is fired. With a segment list that is
  not empty and has no segment of two or more samples, \<open>start\<close> stops what was playing,
  creates no task and fires path-complete, and nothing else; \<open>_running\<close> is false after it.
  \<open>startFromWaypoints\<close> does nothing without positions and the same as above with exactly
  one; the curved \<open>startPath\<close> does nothing without waypoints and with exactly one creates no
  task and finishes.
\<close>

theorem start_without_usable_segments:
  "(path = None \<or> (\<exists>p. path = Some p \<and> (path_segments p = None \<or> path_segments p = Some []))
      \<longrightarrow> start path m = m) \<and>
   (path_segments p = Some segments \<and> segments \<noteq> [] \<and>
    (\<forall>segment\<in>set segments. \<not> usable segment) \<longrightarrow>
      start (Some p) m = finish (stop False m) \<and>
      tweens (start (Some p) m) = [] \<and> \<not> running (start (Some p) m) \<and>
      length (heap (start (Some p) m)) = length (heap m) \<and>
      events (start (Some p) m) = events m @ [PathComplete]) \<and>
   startFromWaypoints None m = m \<and>
   (path_positions d = [] \<longrightarrow> startFromWaypoints (Some d) m = m) \<and>
   (length (path_positions d) = 1 \<longrightarrow>
      startFromWaypoints (Some d) m = finish (stop False m) \<and>
      tweens (startFromWaypoints (Some d) m) = [] \<and>
      length (heap (startFromWaypoints (Some d) m)) = length (heap m) \<and>
      events (startFromWaypoints (Some d) m) = events m @ [PathComplete]) \<and>
   (waypointPositions s = [] \<longrightarrow> startPathCurve s = s) \<and>
   (length (waypointPositions s) = 1 \<longrightarrow>
      tweens (startPathCurve s) = [] \<and> \<not> running (startPathCurve s) \<and>
      length (heap (startPathCurve s)) = length (heap s))"
proof (intro conjI impI)
  assume "path = None \<or> (\<exists>p. path = Some p \<and> (path_segments p = None \<or> path_segments p = Some []))"
  then show "start path m = m" by (auto simp: start_def)
next
  assume a: "path_segments p = Some segments \<and> segments \<noteq> [] \<and>
    (\<forall>segment\<in>set segments. \<not> usable segment)"
  then have u: "startSegments p segments (entityRot m) ((stop False m)\<lparr> running := True \<rparr>)
      = (stop False m)\<lparr> running := True \<rparr>"
    by (simp add: startSegments_unusable)
  show e: "start (Some p) m = finish (stop False m)"
    using a by (simp add: start_segments u finish_stop)
  show "tweens (start (Some p) m) = []" "\<not> running (start (Some p) m)"
    "length (heap (start (Some p) m)) = length (heap m)"
    "events (start (Some p) m) = events m @ [PathComplete]"
    unfolding e by simp_all
next
  show "startFromWaypoints None m = m" by (simp add: startFromWaypoints_def)
next
  assume "path_positions d = []"
  then show "startFromWaypoints (Some d) m = m" by (simp add: startFromWaypoints_def)
next
  assume a: "length (path_positions d) = 1"
  then have "path_positions d \<noteq> []" by auto
  with a show e: "startFromWaypoints (Some d) m = finish (stop False m)"
    by (simp add: startFromWaypoints_def Let_def finish_stop)
  show "tweens (startFromWaypoints (Some d) m) = []"
    "length (heap (startFromWaypoints (Some d) m)) = length (heap m)"
    "events (startFromWaypoints (Some d) m) = events m @ [PathComplete]"
    unfolding e by simp_all
next
  assume "waypointPositions s = []"
  then show "startPathCurve s = s" by (simp add: startPathCurve_def)
next
  assume a: "length (waypointPositions s) = 1"
  then obtain p where p: "waypointPositions s = [p]" by (cases "waypointPositions s") auto
  then have e: "startPathCurve s
      = finishPath (setInputEnabled False ((stopPath False s)\<lparr> running := True \<rparr>))"
    by (simp add: startPathCurve_def Let_def buildSegments_single)
  show "tweens (startPathCurve s) = []" "\<not> running (startPathCurve s)"
    "length (heap (startPathCurve s)) = length (heap s)"
    unfolding e by (simp_all add: finishPath_def)
qed

text \<open>
  The statement at the mover as it is made, for a path whose only segment has one sample.
\<close>

theorem start_without_usable_segments_witness:
  "start (Some \<lparr> path_segments = Some [\<lparr> bs_startIndex = 0, bs_endIndex = Some 0,
                    bs_samples = Some [Vec3 0 0 0], bs_distance = None \<rparr>],
                path_positions = [Vec3 0 0 0], path_rotations = [], path_pauses = [0] \<rparr>) newMover
     = finish (stop False newMover) \<and>
   events (start (Some \<lparr> path_segments = Some [\<lparr> bs_startIndex = 0, bs_endIndex = Some 0,
                    bs_samples = Some [Vec3 0 0 0], bs_distance = None \<rparr>],
                path_positions = [Vec3 0 0 0], path_rotations = [], path_pauses = [0] \<rparr>) newMover)
     = [PathComplete] \<and>
   startFromWaypoints (Some \<lparr> path_segments = None, path_positions = [Vec3 0 0 0],
                             path_rotations = [], path_pauses = [0] \<rparr>) newMover
     = finish (stop False newMover) \<and>
   startPathCurve newPathScript = newPathScript"
  using start_without_usable_segments
    [of "None" newMover
        "\<lparr> path_segments = Some [\<lparr> bs_startIndex = 0, bs_endIndex = Some 0,
                    bs_samples = Some [Vec3 0 0 0], bs_distance = None \<rparr>],
                path_positions = [Vec3 0 0 0], path_rotations = [], path_pauses = [0] \<rparr>"
        "[\<lparr> bs_startIndex = 0, bs_endIndex = Some 0,
                    bs_samples = Some [Vec3 0 0 0], bs_distance = None \<rparr>]"
        "\<lparr> path_segments = None, path_positions = [Vec3 0 0 0],
                             path_rotations = [], path_pauses = [0] \<rparr>"
        newPathScript]
  by (simp add: usable_def newMover_def newPathScript_def)

text \<open>
  Claim C5 as it is written fails for its own example, the empty segment list: \<open>start\<close>
  leaves the mover as it was, and no path-complete is among the events.
\<close>

theorem start_empty_counterexample:
  "events (start (Some \<lparr> path_segments = Some [], path_positions = [],
                         path_rotations = [], path_pauses = [] \<rparr>) newMover) = [] \<and>
   start (Some \<lparr> path_segments = Some [], path_positions = [],
                 path_rotations = [], path_pauses = [] \<rparr>) newMover = newMover"
  by (simp add: start_def newMover_def)

section \<open>Straight-hop playback\<close>

subsection \<open>The plan of straight-hop playback\<close>

lemma taskEntry_nth_updTween:
  assumes "\<And>t. taskEntry (f t) = taskEntry t"
  shows "taskEntry (heap (updTween i f c) ! j) = taskEntry (heap c ! j)"
proof (cases "i < length (heap c)")
  case False
  then show ?thesis by (simp add: updTween_def)
next
  case True
  show ?thesis
  proof (cases "j = i")
    case True
    with \<open>i < length (heap c)\<close> show ?thesis by (simp add: updTween_def assms)
  next
    case False
    then show ?thesis by (simp add: updTween_def)
  qed
qed

lemma taskPlan_updTween:
  assumes "\<And>t. taskEntry (f t) = taskEntry t"
  shows "taskPlan (updTween i f c) = taskPlan c"
  by (simp add: taskPlan_def taskEntry_nth_updTween assms)

lemma taskPlan_chainAll: "taskPlan (chainAll c) = taskPlan c"
proof -
  have "taskPlan (foldl (\<lambda>c i. chainTween (tweens c ! (i - 1)) (tweens c ! i) c) c ids)
      = taskPlan c" for ids
    by (induction ids arbitrary: c)
       (simp_all add: chainTween_def taskPlan_updTween taskEntry_def)
  then show ?thesis by (simp add: chainAll_def)
qed

lemma taskPlan_launch: "taskPlan (launch c) = taskPlan c"
  by (simp add: launch_def Let_def startTween_def addOnComplete_def taskPlan_updTween
      taskPlan_chainAll taskEntry_def)

lemma taskPlan_push:
  assumes "\<forall>i\<in>set (tweens c). i < length (heap c)"
  shows "taskPlan (c\<lparr> heap := heap c @ [t], tweens := tweens c @ [length (heap c)] \<rparr>)
      = taskPlan c @ [taskEntry t]"
  using assms by (simp add: taskPlan_def nth_append)

lemma inRange_push:
  assumes "\<forall>i\<in>set (tweens c). i < length (heap c)"
  shows "\<forall>i\<in>set (tweens (c\<lparr> heap := heap c @ [t], tweens := tweens c @ [length (heap c)] \<rparr>)).
           i < length (heap (c\<lparr> heap := heap c @ [t], tweens := tweens c @ [length (heap c)] \<rparr>))"
  using assms by auto

lemma taskPlan_startHops:
  assumes "\<forall>i\<in>set (tweens m). i < length (heap m)"
  shows "taskPlan (startHops positions rotations ids currentRot m) =
     taskPlan m @
     map (\<lambda>i. (Hop (positions ! (i - 1)) (positions ! i),
               max (vdistance (positions ! (i - 1)) (positions ! i) * durationPerUnit m)
                   (minDuration m))) ids"
  using assms
proof (induction ids arbitrary: currentRot m)
  case Nil
  then show ?case by simp
next
  case (Cons i rest)
  show ?case
    unfolding startHops_Cons
    by (subst Cons.IH [OF inRange_push [OF Cons.prems]])
       (simp add: taskPlan_push [OF Cons.prems] taskEntry_def taskOf_def)
qed

lemma taskPlan_finish [simp]: "taskPlan (finish m) = taskPlan m"
  by (simp add: taskPlan_def finish_def)

lemma taskPlan_empty: "tweens c = [] \<Longrightarrow> taskPlan c = []"
  by (simp add: taskPlan_def)

lemma taskPlan_startFromWaypoints:
  assumes "path_positions d \<noteq> []"
  shows "taskPlan (startFromWaypoints (Some d) m) =
     map (\<lambda>i. (Hop (path_positions d ! (i - 1)) (path_positions d ! i),
               max (vdistance (path_positions d ! (i - 1)) (path_positions d ! i)
                      * durationPerUnit m) (minDuration m)))
         [1..<length (path_positions d)]"
proof -
  define m1 where "m1 = (stop False m)\<lparr> running := True \<rparr>"
  have t1: "tweens m1 = []" and d1: "durationPerUnit m1 = durationPerUnit m"
    and n1: "minDuration m1 = minDuration m"
    by (simp_all add: m1_def)
  then have r1: "\<forall>i\<in>set (tweens m1). i < length (heap m1)" by simp
  have "taskPlan (startFromWaypoints (Some d) m) =
      taskPlan (startHops (path_positions d) (path_rotations d)
        [1..<length (path_positions d)] (entityRot m1) m1)"
    using assms
    by (simp add: startFromWaypoints_def Let_def m1_def [symmetric] taskPlan_launch
        del: One_nat_def)
  then show ?thesis
    by (simp add: taskPlan_startHops [OF r1] taskPlan_empty [OF t1] d1 n1 del: One_nat_def)
qed


lemma linearHops_Cons:
  "linearHops (i # rest) currentPos currentRot s =
     (let targetPos = toVec3Or (positionAt (waypointPositions s) (int i)) currentPos;
          targetRot = toQuatOr (rotationAt (waypointRotations s) (int i)) currentRot;
          move = \<lparr> tw_motion = LinearMotion currentPos targetPos currentRot targetRot,
                   tw_duration = max (vdistance currentPos targetPos * durationPerUnit s)
                                     (minDuration s),
                   tw_delay = 0, tw_easing = getEasing (easing s),
                   tw_complete = [LogWaypoint (int i + 1) targetPos targetRot],
                   tw_chained = None, tw_status = Pending \<rparr>;
          wait = \<lparr> tw_motion = WaitMotion, tw_duration = 0,
                   tw_delay = pauseAt (waypointPauses s) i, tw_easing = Linear,
                   tw_complete = [], tw_chained = None, tw_status = Pending \<rparr>;
          s3 = s\<lparr> heap := heap s @ [move], tweens := tweens s @ [length (heap s)] \<rparr>
      in linearHops rest targetPos targetRot
           (if 0 < pauseAt (waypointPauses s) i
            then s3\<lparr> heap := heap s3 @ [wait], tweens := tweens s3 @ [length (heap s3)] \<rparr>
            else s3))"
  by (simp add: Let_def push_tween) (simp add: newTween_def)

lemma taskPlan_linearHops:
  assumes "\<forall>i\<in>set (tweens s). i < length (heap s)" "n \<le> length (waypointPositions s)"
  shows "taskPlan (linearHops [a..<n] currentPos currentRot s) =
     taskPlan s @
     concat (map (\<lambda>i. (Hop (if i = a then currentPos else waypointPositions s ! (i - 1))
                            (waypointPositions s ! i),
                        max (vdistance (if i = a then currentPos else waypointPositions s ! (i - 1))
                               (waypointPositions s ! i) * durationPerUnit s) (minDuration s))
                       # (if 0 < pauseAt (waypointPauses s) i
                          then [(Wait, pauseAt (waypointPauses s) i)] else []))
                 [a..<n])"
  using assms
proof (induction "n - a" arbitrary: a currentPos currentRot s)
  case 0
  then show ?case by simp
next
  case (Suc k)
  then have a: "a < n" and k: "k = n - Suc a" by simp_all
  have u: "[a..<n] = a # [Suc a..<n]" using a by (simp add: upt_conv_Cons)
  have pa: "toVec3Or (positionAt (waypointPositions s) (int a)) currentPos = waypointPositions s ! a"
    using a Suc.prems(2) by (simp add: toVec3Or_def positionAt_def)
  define move where "move =
      \<lparr> tw_motion = LinearMotion currentPos (waypointPositions s ! a) currentRot
           (toQuatOr (rotationAt (waypointRotations s) (int a)) currentRot),
        tw_duration = max (vdistance currentPos (waypointPositions s ! a) * durationPerUnit s)
                          (minDuration s),
        tw_delay = 0, tw_easing = getEasing (easing s),
        tw_complete = [LogWaypoint (int a + 1) (waypointPositions s ! a)
                         (toQuatOr (rotationAt (waypointRotations s) (int a)) currentRot)],
        tw_chained = None, tw_status = Pending \<rparr>"
  define wait where "wait =
      \<lparr> tw_motion = WaitMotion, tw_duration = 0, tw_delay = pauseAt (waypointPauses s) a,
        tw_easing = Linear, tw_complete = [], tw_chained = None, tw_status = Pending \<rparr>"
  define s3 where "s3 = s\<lparr> heap := heap s @ [move], tweens := tweens s @ [length (heap s)] \<rparr>"
  define s4 where "s4 = (if 0 < pauseAt (waypointPauses s) a
      then s3\<lparr> heap := heap s3 @ [wait], tweens := tweens s3 @ [length (heap s3)] \<rparr> else s3)"
  have step: "linearHops [a..<n] currentPos currentRot s =
      linearHops [Suc a..<n] (waypointPositions s ! a)
        (toQuatOr (rotationAt (waypointRotations s) (int a)) currentRot) s4"
    unfolding u linearHops_Cons Let_def pa s4_def s3_def move_def wait_def ..
  have r3: "\<forall>i\<in>set (tweens s3). i < length (heap s3)"
    unfolding s3_def using Suc.prems(1) by (rule inRange_push)
  have p3: "taskPlan s3 = taskPlan s @ [taskEntry move]"
    unfolding s3_def using Suc.prems(1) by (rule taskPlan_push)
  have r4: "\<forall>i\<in>set (tweens s4). i < length (heap s4)"
    unfolding s4_def using r3 inRange_push [OF r3, of wait] by simp
  have p4: "taskPlan s4 = taskPlan s @ taskEntry move
      # (if 0 < pauseAt (waypointPauses s) a then [taskEntry wait] else [])"
    unfolding s4_def using p3 taskPlan_push [OF r3, of wait] by simp
  have f4: "waypointPositions s4 = waypointPositions s" "waypointPauses s4 = waypointPauses s"
    "durationPerUnit s4 = durationPerUnit s" "minDuration s4 = minDuration s"
    by (simp_all add: s4_def s3_def)
  have n4: "n \<le> length (waypointPositions s4)" using Suc.prems(2) f4 by simp
  have rest: "map (\<lambda>i. (Hop (if i = Suc a then waypointPositions s ! a else waypointPositions s ! (i - 1))
                            (waypointPositions s ! i),
                        max (vdistance (if i = Suc a then waypointPositions s ! a
                                        else waypointPositions s ! (i - 1))
                               (waypointPositions s ! i) * durationPerUnit s) (minDuration s))
                       # (if 0 < pauseAt (waypointPauses s) i
                          then [(Wait, pauseAt (waypointPauses s) i)] else []))
                 [Suc a..<n]
      = map (\<lambda>i. (Hop (if i = a then currentPos else waypointPositions s ! (i - 1))
                            (waypointPositions s ! i),
                        max (vdistance (if i = a then currentPos else waypointPositions s ! (i - 1))
                               (waypointPositions s ! i) * durationPerUnit s) (minDuration s))
                       # (if 0 < pauseAt (waypointPauses s) i
                          then [(Wait, pauseAt (waypointPauses s) i)] else []))
                 [Suc a..<n]"
    by (rule map_cong) auto
  have e: "taskEntry move = (Hop currentPos (waypointPositions s ! a),
        max (vdistance currentPos (waypointPositions s ! a) * durationPerUnit s) (minDuration s))"
    "taskEntry wait = (Wait, pauseAt (waypointPauses s) a)"
    by (simp_all add: move_def wait_def taskEntry_def taskOf_def)
  show ?case
    unfolding step Suc.hyps(1) [OF k r4 n4] f4 rest p4 e
    unfolding u by simp
qed


lemma taskPlan_finishPath [simp]: "taskPlan (finishPath s) = taskPlan s"
  by (simp add: taskPlan_def finishPath_def)

lemma taskPlan_startPathLinear:
  assumes "waypointPositions s \<noteq> []"
  shows "taskPlan (startPathLinear s) =
     concat (map (\<lambda>i. (Hop (if i = 0 then entityPos s else waypointPositions s ! (i - 1))
                            (waypointPositions s ! i),
                        max (vdistance (if i = 0 then entityPos s else waypointPositions s ! (i - 1))
                               (waypointPositions s ! i) * durationPerUnit s) (minDuration s))
                       # (if 0 < pauseAt (waypointPauses s) i
                          then [(Wait, pauseAt (waypointPauses s) i)] else []))
                 [0..<length (waypointPositions s)])"
proof -
  define s1 where "s1 = setInputEnabled False ((stopPath False s)\<lparr> running := True \<rparr>)"
  have f1: "tweens s1 = []" "waypointPositions s1 = waypointPositions s"
    "waypointPauses s1 = waypointPauses s" "durationPerUnit s1 = durationPerUnit s"
    "minDuration s1 = minDuration s" "entityPos s1 = entityPos s"
    by (simp_all add: s1_def)
  then have r1: "\<forall>i\<in>set (tweens s1). i < length (heap s1)" by simp
  have n1: "length (waypointPositions s) \<le> length (waypointPositions s1)" using f1 by simp
  have "taskPlan (startPathLinear s) =
      taskPlan (linearHops [0..<length (waypointPositions s)] (entityPos s) (entityRot s1) s1)"
    using assms
    by (simp add: startPathLinear_def Let_def s1_def [symmetric] taskPlan_launch f1)
  then show ?thesis
    unfolding taskPlan_linearHops [OF r1 n1] taskPlan_empty [OF f1(1)] f1 by simp
qed

text \<open>
  Claim C7, as the code has it. \<open>CameraMover.startFromWaypoints\<close> builds one task for each
  pair of neighbouring waypoints, from the one to the other, lasting
  \<open>max (distance * durationPerUnit) minDuration\<close>, and no wait task. The straight-hop
  \<open>startPath\<close> builds one such task for each waypoint, the first from where the entity is,
  the others from the waypoint before, and after the task of a waypoint with a positive pause
  a wait task that takes exactly the pause.
\<close>

theorem linear_tasks:
  "(path_positions d \<noteq> [] \<longrightarrow>
      taskPlan (startFromWaypoints (Some d) m) =
        map (\<lambda>i. (Hop (path_positions d ! (i - 1)) (path_positions d ! i),
                  max (vdistance (path_positions d ! (i - 1)) (path_positions d ! i)
                         * durationPerUnit m) (minDuration m)))
            [1..<length (path_positions d)]) \<and>
   (waypointPositions s \<noteq> [] \<longrightarrow>
      taskPlan (startPathLinear s) =
        concat (map (\<lambda>i. (Hop (if i = 0 then entityPos s else waypointPositions s ! (i - 1))
                               (waypointPositions s ! i),
                           max (vdistance (if i = 0 then entityPos s
                                           else waypointPositions s ! (i - 1))
                                  (waypointPositions s ! i) * durationPerUnit s) (minDuration s))
                          # (if 0 < pauseAt (waypointPauses s) i
                             then [(Wait, pauseAt (waypointPauses s) i)] else []))
                    [0..<length (waypointPositions s)]))"
  using taskPlan_startFromWaypoints taskPlan_startPathLinear by blast

lemma vdistance_z: "vdistance (Vec3 x y a) (Vec3 x y b) = \<bar>a - b\<bar>"
  by (simp add: vdistance_def lengthSq_def vsub_def)

lemma upt_1_3: "[1..<3] = [1, 2]"
  by (simp add: upt_rec)

lemma upt_0_2: "[0..<2] = [0, 1]"
  by (simp add: upt_rec)

text \<open>
  The statement at the scenario of the specification: three waypoints, ten units apart.
\<close>

theorem linear_tasks_witness:
  "taskPlan (startFromWaypoints
      (Some \<lparr> path_segments = None,
              path_positions = [Vec3 0 0 0, Vec3 10 0 0, Vec3 10 0 10],
              path_rotations = [], path_pauses = [0, 0, 0] \<rparr>) newMover)
     = [(Hop (Vec3 0 0 0) (Vec3 10 0 0), 1), (Hop (Vec3 10 0 0) (Vec3 10 0 10), 1)] \<and>
   taskPlan (startPathLinear
      (newPathScript\<lparr> waypointPositions := [Vec3 0 0 0, Vec3 10 0 0],
                       waypointPauses := [0, 2] \<rparr>))
     = [(Hop (Vec3 0 0 0) (Vec3 0 0 0), 1 / 10), (Hop (Vec3 0 0 0) (Vec3 10 0 0), 1), (Wait, 2)]"
  using linear_tasks
    [of "\<lparr> path_segments = None,
              path_positions = [Vec3 0 0 0, Vec3 10 0 0, Vec3 10 0 10],
              path_rotations = [], path_pauses = [0, 0, 0] \<rparr>" newMover
        "newPathScript\<lparr> waypointPositions := [Vec3 0 0 0, Vec3 10 0 0],
                         waypointPauses := [0, 2] \<rparr>"]
  by (simp add: upt_1_3 upt_0_2 vdistance_x vdistance_z newMover_def newPathScript_def
      pauseAt_def)

text \<open>
  Claim C7 as it is written fails for \<open>CameraMover.startFromWaypoints\<close>: for two
  waypoints ten units apart, the second with a pause of two seconds, the plan the claim
  describes is a hop of one second and a wait of two seconds, and the mover builds the hop
  alone.
\<close>

theorem linear_tasks_counterexample:
  "taskPlan (startFromWaypoints
      (Some \<lparr> path_segments = None, path_positions = [Vec3 0 0 0, Vec3 10 0 0],
              path_rotations = [], path_pauses = [0, 2] \<rparr>) newMover)
     = [(Hop (Vec3 0 0 0) (Vec3 10 0 0), 1)] \<and>
   claimedLinearPlan [Vec3 0 0 0, Vec3 10 0 0] [0, 2] (durationPerUnit newMover)
       (minDuration newMover)
     = [(Hop (Vec3 0 0 0) (Vec3 10 0 0), 1), (Wait, 2)] \<and>
   taskPlan (startFromWaypoints
      (Some \<lparr> path_segments = None, path_positions = [Vec3 0 0 0, Vec3 10 0 0],
              path_rotations = [], path_pauses = [0, 2] \<rparr>) newMover)
     \<noteq> claimedLinearPlan [Vec3 0 0 0, Vec3 10 0 0] [0, 2] (durationPerUnit newMover)
          (minDuration newMover)"
proof -
  have u: "[1..<2] = [1]" by (simp add: upt_rec)
  have "path_positions \<lparr> path_segments = None, path_positions = [Vec3 0 0 0, Vec3 10 0 0],
              path_rotations = [], path_pauses = [0, 2] \<rparr> \<noteq> []"
    by simp
  then have "taskPlan (startFromWaypoints
      (Some \<lparr> path_segments = None, path_positions = [Vec3 0 0 0, Vec3 10 0 0],
              path_rotations = [], path_pauses = [0, 2] \<rparr>) newMover)
     = [(Hop (Vec3 0 0 0) (Vec3 10 0 0), 1)]"
    by (simp add: taskPlan_startFromWaypoints u vdistance_x newMover_def)
  moreover have "claimedLinearPlan [Vec3 0 0 0, Vec3 10 0 0] [0, 2] (durationPerUnit newMover)
       (minDuration newMover)
     = [(Hop (Vec3 0 0 0) (Vec3 10 0 0), 1), (Wait, 2)]"
    by (simp add: claimedLinearPlan_def u vdistance_x newMover_def pauseAt_def)
  ultimately show ?thesis by simp
qed

section \<open>Stopping\<close>

subsection \<open>The path script keeps the invariant\<close>

lemma console_cancelAll [simp]: "console (cancelAll s) = console s"
  using cancelAll_simps(9) [of s] by (cases s; cases "cancelAll s"; simp)

lemma console_disableScripts [simp]: "console (foldl disableScript s names) = console s"
  by (induction names arbitrary: s; simp add: disableScript_def split: option.splits)

lemma console_setInputEnabled [simp]: "console (setInputEnabled b s) = console s"
  by (simp add: setInputEnabled_def split: option.splits)

lemma loop_disableScripts [simp]: "loop (foldl disableScript s names) = loop s"
  by (induction names arbitrary: s; simp add: disableScript_def split: option.splits)

lemma loop_setInputEnabled [simp]: "loop (setInputEnabled b s) = loop s"
  by (simp add: setInputEnabled_def split: option.splits)

lemma listed_setInputEnabled [simp]: "listed (setInputEnabled b s) = listed s"
  by (simp add: listed_def)

lemma quiet_setInputEnabled [simp]: "quiet (setInputEnabled b s) = quiet s"
  by (simp add: quiet_def)

lemma listed_pathScript_fields [simp]:
  "listed (s\<lparr> console := lg \<rparr>) = listed s"
  "listed (s\<lparr> waypointPositions := ps \<rparr>) = listed s"
  "listed (s\<lparr> waypointRotations := rs \<rparr>) = listed s"
  "listed (s\<lparr> waypointPauses := pa \<rparr>) = listed s"
  by (simp_all add: listed_def)





lemma console_stopPath [simp]: "console (stopPath restoreInput s) = console s"
  by (simp add: stopPath_def Let_def)

















subsection \<open>Stopping cancels every task\<close>



end
